(* ===== verification/Prelude.thy ===== *)
theory Prelude
  imports Main "HOL-Library.List_Lexorder" "HOL-Library.Char_ord" "HOL-Library.Sublist"
begin

text \<open>
  Shared vocabulary of the development: Python exceptions as values, the sum type as the result
  of code that may raise, and the string operations of Python that the sources use.

  A Python \<open>str\<close> is a \<open>string\<close> whose characters are the code points U+0000 to U+00FF;
  code points above U+00FF are not represented. On that range the operations below are those of
  CPython 3.12: comparison is by code point, \<open>isspace\<close>, \<open>lower\<close> and the control
  category are the Unicode ones.
\<close>

named_theorems result_simps \<open>equations of the result monad\<close>
named_theorems result_elims \<open>what a successful computation tells of its parts\<close>
named_theorems py_simps \<open>definitions of Python string operations\<close>

section \<open>Exceptions and results\<close>

datatype exn =
    KeyError
  | TypeError
  | AttributeError
  | IndexError
  | ValueError string
  | OverflowError
  | IntegrityError
  | AssertionError
  | ZoneInfoNotFoundError
  | CanonicalizationError string
  | CompilationError string
  | CodedError string string

type_synonym 'a result = "exn + 'a"

text \<open>\<open>except ValueError\<close> also takes the subclasses the sources define.\<close>

fun is_ValueError :: "exn \<Rightarrow> bool" where
  "is_ValueError (ValueError _) = True"
| "is_ValueError (CanonicalizationError _) = True"
| "is_ValueError (CompilationError _) = True"
| "is_ValueError (CodedError _ _) = True"
| "is_ValueError _ = False"

text \<open>\<open>ZoneInfoNotFoundError\<close> is a subclass of \<open>KeyError\<close>.\<close>

fun is_KeyError :: "exn \<Rightarrow> bool" where
  "is_KeyError KeyError = True"
| "is_KeyError ZoneInfoNotFoundError = True"
| "is_KeyError _ = False"

fun is_CanonicalizationError :: "exn \<Rightarrow> bool" where
  "is_CanonicalizationError (CanonicalizationError _) = True"
| "is_CanonicalizationError _ = False"

definition bindr :: "'e + 'a \<Rightarrow> ('a \<Rightarrow> 'e + 'b) \<Rightarrow> 'e + 'b" where
  "bindr m f = (case m of Inl e \<Rightarrow> Inl e | Inr x \<Rightarrow> f x)"

definition guardr :: "bool \<Rightarrow> 'e \<Rightarrow> 'e + 'a \<Rightarrow> 'e + 'a" where
  "guardr bad e k = (if bad then Inl e else k)"

definition catchr :: "'e + 'a \<Rightarrow> ('e \<Rightarrow> 'f + 'a) \<Rightarrow> 'f + 'a" where
  "catchr m h = (case m of Inl e \<Rightarrow> h e | Inr x \<Rightarrow> Inr x)"

definition mapr :: "('a \<Rightarrow> 'b) \<Rightarrow> 'e + 'a \<Rightarrow> 'e + 'b" where
  "mapr f m = bindr m (\<lambda>x. Inr (f x))"

primrec traverse :: "('a \<Rightarrow> 'e + 'b) \<Rightarrow> 'a list \<Rightarrow> 'e + 'b list" where
  "traverse f [] = Inr []"
| "traverse f (x # xs) = bindr (f x) (\<lambda>y. bindr (traverse f xs) (\<lambda>ys. Inr (y # ys)))"

primrec foldr_result :: "('s \<Rightarrow> 'a \<Rightarrow> 'e + 's) \<Rightarrow> 's \<Rightarrow> 'a list \<Rightarrow> 'e + 's" where
  "foldr_result f s [] = Inr s"
| "foldr_result f s (x # xs) = bindr (f s x) (\<lambda>s'. foldr_result f s' xs)"

text \<open>\<open>any(...)\<close> and filtering comprehensions whose condition may raise, left to right.\<close>

primrec anyr :: "('a \<Rightarrow> 'e + bool) \<Rightarrow> 'a list \<Rightarrow> 'e + bool" where
  "anyr f [] = Inr False"
| "anyr f (x # xs) = bindr (f x) (\<lambda>b. if b then Inr True else anyr f xs)"

primrec filterr :: "('a \<Rightarrow> 'e + bool) \<Rightarrow> 'a list \<Rightarrow> 'e + 'a list" where
  "filterr f [] = Inr []"
| "filterr f (x # xs) =
     bindr (f x) (\<lambda>b. bindr (filterr f xs) (\<lambda>ys. Inr (if b then x # ys else ys)))"

section \<open>Characters and strings\<close>

abbreviation code :: "char \<Rightarrow> nat" where
  "code c \<equiv> of_char c"

definition is_digit_char :: "char \<Rightarrow> bool" where
  "is_digit_char c \<longleftrightarrow> 48 \<le> code c \<and> code c \<le> 57"

definition is_lower_char :: "char \<Rightarrow> bool" where
  "is_lower_char c \<longleftrightarrow> 97 \<le> code c \<and> code c \<le> 122"

definition is_upper_char :: "char \<Rightarrow> bool" where
  "is_upper_char c \<longleftrightarrow> 65 \<le> code c \<and> code c \<le> 90"

definition is_alnum_char :: "char \<Rightarrow> bool" where
  "is_alnum_char c \<longleftrightarrow> is_digit_char c \<or> is_lower_char c \<or> is_upper_char c"

definition is_hex_char :: "char \<Rightarrow> bool" where
  "is_hex_char c \<longleftrightarrow> is_digit_char c \<or> (97 \<le> code c \<and> code c \<le> 102) \<or>
     (65 \<le> code c \<and> code c \<le> 70)"

definition is_space_char :: "char \<Rightarrow> bool" where
  "is_space_char c \<longleftrightarrow> (9 \<le> code c \<and> code c \<le> 13) \<or> (28 \<le> code c \<and> code c \<le> 32) \<or>
     code c = 133 \<or> code c = 160"

definition is_control_char :: "char \<Rightarrow> bool" where
  "is_control_char c \<longleftrightarrow> code c < 32 \<or> (127 \<le> code c \<and> code c < 160)"

definition is_ascii_char :: "char \<Rightarrow> bool" where
  "is_ascii_char c \<longleftrightarrow> code c < 128"

definition to_lower_char :: "char \<Rightarrow> char" where
  "to_lower_char c =
     (if is_upper_char c \<or> (192 \<le> code c \<and> code c \<le> 222 \<and> code c \<noteq> 215)
      then char_of (code c + 32) else c)"

definition to_upper_ascii :: "char \<Rightarrow> char" where
  "to_upper_ascii c = (if is_lower_char c then char_of (code c - 32) else c)"

definition lower :: "string \<Rightarrow> string" where
  "lower s = map to_lower_char s"

definition lstrip :: "(char \<Rightarrow> bool) \<Rightarrow> string \<Rightarrow> string" where
  "lstrip p s = dropWhile p s"

definition rstrip :: "(char \<Rightarrow> bool) \<Rightarrow> string \<Rightarrow> string" where
  "rstrip p s = rev (dropWhile p (rev s))"

definition strip :: "string \<Rightarrow> string" where
  "strip s = rstrip is_space_char (lstrip is_space_char s)"

text \<open>\<open>s.split(c)\<close> for a one-character separator: never the empty list.\<close>

fun split_on :: "char \<Rightarrow> string \<Rightarrow> string list" where
  "split_on c [] = [[]]"
| "split_on c (x # xs) =
     (if x = c then [] # split_on c xs
      else (case split_on c xs of [] \<Rightarrow> [[x]] | p # ps \<Rightarrow> (x # p) # ps))"

fun join_with :: "string \<Rightarrow> string list \<Rightarrow> string" where
  "join_with sep [] = []"
| "join_with sep [x] = x"
| "join_with sep (x # y # ys) = x @ sep @ join_with sep (y # ys)"

text \<open>\<open>s.partition(c)\<close> and \<open>s.rpartition(c)\<close>; the flag says whether \<open>c\<close> occurs.\<close>

definition partition_on :: "char \<Rightarrow> string \<Rightarrow> string \<times> bool \<times> string" where
  "partition_on c s =
     (takeWhile (\<lambda>x. x \<noteq> c) s, c \<in> set s, tl (dropWhile (\<lambda>x. x \<noteq> c) s))"

definition rpartition_on :: "char \<Rightarrow> string \<Rightarrow> string \<times> bool \<times> string" where
  "rpartition_on c s =
     (if c \<in> set s
      then (rev (tl (dropWhile (\<lambda>x. x \<noteq> c) (rev s))), True, rev (takeWhile (\<lambda>x. x \<noteq> c) (rev s)))
      else ([], False, s))"

definition removesuffix :: "string \<Rightarrow> string \<Rightarrow> string" where
  "removesuffix suf s =
     (if suf \<noteq> [] \<and> suffix suf s then take (length s - length suf) s else s)"

text \<open>\<open>s.replace(c, r)\<close> for a one-character pattern.\<close>

definition replace_char :: "char \<Rightarrow> string \<Rightarrow> string \<Rightarrow> string" where
  "replace_char c r s = concat (map (\<lambda>x. if x = c then r else [x]) s)"

section \<open>Numbers as text\<close>

definition digit_value :: "char \<Rightarrow> int" where
  "digit_value c = of_char c - 48"

definition hex_value :: "char \<Rightarrow> int" where
  "hex_value c =
     (if is_digit_char c then of_char c - 48
      else if 97 \<le> code c then of_char c - 87 else of_char c - 55)"

definition int_of_digits :: "string \<Rightarrow> int" where
  "int_of_digits s = foldl (\<lambda>n c. 10 * n + digit_value c) 0 s"

definition int_of_hex :: "string \<Rightarrow> int" where
  "int_of_hex s = foldl (\<lambda>n c. 16 * n + hex_value c) 0 s"

definition isdecimal :: "string \<Rightarrow> bool" where
  "isdecimal s \<longleftrightarrow> s \<noteq> [] \<and> list_all is_digit_char s"

definition digit_char :: "int \<Rightarrow> char" where
  "digit_char n = char_of (48 + n)"

definition hex_char_lower :: "int \<Rightarrow> char" where
  "hex_char_lower n = (if n < 10 then char_of (48 + n) else char_of (87 + n))"

definition hex_char_upper :: "int \<Rightarrow> char" where
  "hex_char_upper n = (if n < 10 then char_of (48 + n) else char_of (55 + n))"

text \<open>The decimal text of a number that is not negative.\<close>

function decimal :: "int \<Rightarrow> string" where
  "decimal n = (if n < 10 then [digit_char n] else decimal (n div 10) @ [digit_char (n mod 10)])"
  by pat_completeness auto
termination
  by (relation "measure nat") auto

declare decimal.simps [simp del]

definition string_of_int :: "int \<Rightarrow> string" where
  "string_of_int i = (if i < 0 then CHR ''-'' # decimal (- i) else decimal i)"

text \<open>Fixed-width decimal, the \<open>%04d\<close> and \<open>%02d\<close> formats on numbers that fit.\<close>

fun pad_digits :: "nat \<Rightarrow> int \<Rightarrow> string" where
  "pad_digits 0 n = []"
| "pad_digits (Suc w) n = pad_digits w (n div 10) @ [digit_char (n mod 10)]"

section \<open>Evaluation of character tests\<close>

text \<open>Code equations on binary integers, for the evaluation of concrete instances.\<close>

lemma code_as_int: "(of_char c :: int) = int (code c)"
  by (rule of_nat_of_char [symmetric])

lemma code_compare:
  "numeral k \<le> code c \<longleftrightarrow> numeral k \<le> (of_char c :: int)" "code c \<le> numeral k \<longleftrightarrow> (of_char c :: int) \<le> numeral k"
  "code c < numeral k \<longleftrightarrow> (of_char c :: int) < numeral k" "code c = numeral k \<longleftrightarrow> (of_char c :: int) = numeral k"
  by (simp_all add: code_as_int del: of_nat_of_char)

lemmas char_tests_code [code] =
  is_digit_char_def [unfolded code_compare] is_lower_char_def [unfolded code_compare]
  is_upper_char_def [unfolded code_compare] is_hex_char_def [unfolded code_compare]
  is_space_char_def [unfolded code_compare] is_control_char_def [unfolded code_compare]
  is_ascii_char_def [unfolded code_compare]

section \<open>Laws of results\<close>

lemma bindr_Inr [simp, result_simps]: "bindr (Inr x) f = f x"
  by (simp add: bindr_def)

lemma bindr_Inl [simp, result_simps]: "bindr (Inl e) f = Inl e"
  by (simp add: bindr_def)

lemma bindr_eq_Inr [result_elims]: "bindr m f = Inr y \<longleftrightarrow> (\<exists>x. m = Inr x \<and> f x = Inr y)"
  by (cases m) auto

lemma bindrE:
  assumes "bindr m f = Inr y"
  obtains x where "m = Inr x" and "f x = Inr y"
  using assms by (auto simp: bindr_eq_Inr)

lemma bindr_eq_Inl: "bindr m f = Inl e \<longleftrightarrow> m = Inl e \<or> (\<exists>x. m = Inr x \<and> f x = Inl e)"
  by (cases m) auto

lemma bindr_assoc: "bindr (bindr m f) g = bindr m (\<lambda>x. bindr (f x) g)"
  by (cases m) auto

lemma bindr_split:
  "P (bindr m f) \<longleftrightarrow> (\<forall>e. m = Inl e \<longrightarrow> P (Inl e)) \<and> (\<forall>x. m = Inr x \<longrightarrow> P (f x))"
  by (cases m) auto

lemma bindr_cong [fundef_cong]:
  "m = m' \<Longrightarrow> (\<And>x. m' = Inr x \<Longrightarrow> f x = g x) \<Longrightarrow> bindr m f = bindr m' g"
  by (cases m') auto

lemma guardr_eq_Inr [result_elims]: "guardr b e k = Inr y \<longleftrightarrow> \<not> b \<and> k = Inr y"
  by (simp add: guardr_def)

lemma guardr_simps [simp, result_simps]:
  "guardr True e k = Inl e" "guardr False e k = k"
  by (simp_all add: guardr_def)

lemma catchr_simps [simp, result_simps]:
  "catchr (Inl e) h = h e" "catchr (Inr x) h = Inr x"
  by (simp_all add: catchr_def)

lemma mapr_simps [simp, result_simps]:
  "mapr f (Inl e) = Inl e" "mapr f (Inr x) = Inr (f x)"
  by (simp_all add: mapr_def)

lemma mapr_eq_Inr [result_elims]: "mapr f m = Inr y \<longleftrightarrow> (\<exists>x. m = Inr x \<and> y = f x)"
  by (cases m) auto

lemma maprE:
  assumes "mapr f m = Inr y"
  obtains x where "m = Inr x" and "y = f x"
  using assms by (auto simp: mapr_eq_Inr)

lemma guardrE:
  assumes "guardr b e k = Inr y"
  obtains "\<not> b" and "k = Inr y"
  using assms by (auto simp: guardr_eq_Inr)

lemma catchr_eq_Inr: "catchr m h = Inr x \<longleftrightarrow> m = Inr x \<or> (\<exists>e. m = Inl e \<and> h e = Inr x)"
  by (cases m) auto

lemma traverse_eq_Inr:
  "traverse f xs = Inr ys \<longleftrightarrow> list_all2 (\<lambda>x y. f x = Inr y) xs ys"
proof (induction xs arbitrary: ys)
  case Nil
  show ?case by (cases ys) auto
next
  case (Cons x xs)
  show ?case by (cases ys) (auto simp: bindr_eq_Inr Cons.IH)
qed

lemma traverse_memE:
  assumes "traverse f xs = Inr ys" and "y \<in> set ys"
  obtains x where "x \<in> set xs" and "f x = Inr y"
  using assms by (fastforce simp: traverse_eq_Inr list_all2_conv_all_nth in_set_conv_nth)

lemma traverse_memD:
  assumes "traverse f xs = Inr ys" and "x \<in> set xs"
  shows "\<exists>y \<in> set ys. f x = Inr y"
  using assms by (auto simp: traverse_eq_Inr list_all2_conv_all_nth in_set_conv_nth)

lemma anyr_Inr_iff:
  "anyr f xs = Inr False \<Longrightarrow> x \<in> set xs \<Longrightarrow> f x = Inr False"
  by (induction xs) (auto simp: bindr_eq_Inr split: if_splits)

lemma anyr_Inr_True:
  "anyr f xs = Inr True \<Longrightarrow> \<exists>x \<in> set xs. f x = Inr True"
  by (induction xs) (auto simp: bindr_eq_Inr split: if_splits)

lemma filterr_eq_filter:
  "filterr f xs = Inr ys \<Longrightarrow> ys = filter (\<lambda>x. f x = Inr True) xs"
  by (induction xs arbitrary: ys) (auto simp: bindr_eq_Inr)

lemma filterr_total:
  "filterr f xs = Inr ys \<Longrightarrow> x \<in> set xs \<Longrightarrow> \<exists>b. f x = Inr b"
  by (induction xs arbitrary: ys) (auto simp: bindr_eq_Inr)

lemma foldr_result_invariant:
  assumes "foldr_result f s xs = Inr s'" and "I s"
    and "\<And>s x s'. x \<in> set xs \<Longrightarrow> I s \<Longrightarrow> f s x = Inr s' \<Longrightarrow> I s'"
  shows "I s'"
  using assms
proof (induction xs arbitrary: s)
  case (Cons x xs)
  from Cons.prems(1) obtain t where t: "f s x = Inr t" "foldr_result f t xs = Inr s'"
    by (auto simp: bindr_eq_Inr)
  show ?case
    using Cons.IH [OF t(2)] Cons.prems(2,3) t(1) by (metis list.set_intros(1,2))
qed simp

lemma foldl_invariant:
  assumes "I s" and "\<And>s x. I s \<Longrightarrow> I (f s x)"
  shows "I (foldl f s xs)"
  using assms by (induction xs arbitrary: s) auto

section \<open>Laws of strings\<close>

lemma split_on_not_Nil [simp]: "split_on c s \<noteq> []"
  by (induction s) (auto split: list.splits)

lemma split_on_no_sep: "c \<notin> set s \<Longrightarrow> split_on c s = [s]"
  by (induction s) auto

lemma split_on_append_sep: "c \<notin> set s \<Longrightarrow> split_on c (s @ c # t) = s # split_on c t"
  by (induction s) auto

lemma split_on_parts: "p \<in> set (split_on c s) \<Longrightarrow> c \<notin> set p"
proof (induction s arbitrary: p)
  case Nil
  then show ?case by simp
next
  case (Cons x xs)
  obtain q qs where q: "split_on c xs = q # qs"
    by (cases "split_on c xs") auto
  with Cons show ?case by (auto split: if_splits)
qed

lemma split_on_chars: "p \<in> set (split_on c s) \<Longrightarrow> set p \<subseteq> set s"
proof (induction s arbitrary: p)
  case Nil
  then show ?case by simp
next
  case (Cons x xs)
  obtain q qs where q: "split_on c xs = q # qs"
    by (cases "split_on c xs") auto
  have "set r \<subseteq> insert x (set xs)" if "r \<in> set (q # qs)" for r
    using Cons.IH [of r] that q by auto
  with Cons.prems q show ?case by (fastforce split: if_splits)
qed

lemma join_with_split_on: "join_with [c] (split_on c s) = s"
proof (induction s)
  case Nil
  show ?case by simp
next
  case (Cons x xs)
  obtain q qs where q: "split_on c xs = q # qs"
    by (cases "split_on c xs") auto
  with Cons.IH show ?case by (cases qs) auto
qed

lemma split_on_join_with:
  "ps \<noteq> [] \<Longrightarrow> \<forall>p \<in> set ps. c \<notin> set p \<Longrightarrow> split_on c (join_with [c] ps) = ps"
proof (induction "[c]" ps rule: join_with.induct)
  case (3 x y ys)
  then show ?case by (simp add: split_on_append_sep)
qed (auto simp: split_on_no_sep)

lemma dropWhile_dropWhile [simp]: "dropWhile p (dropWhile p s) = dropWhile p s"
  by (induction s) auto

lemma rstrip_idem [simp]: "rstrip p (rstrip p s) = rstrip p s"
  by (simp add: rstrip_def)

end
