(* ===== verification/Json.thy ===== *)
theory Json
  imports Complex_Main "HOL-Library.Multiset" Prelude
begin

text \<open>
  Python values as the sources handle them: the JSON subset. A \<open>dict\<close> is an association list in
  insertion order with distinct keys, a \<open>float\<close> is the rational it denotes (no NaN, no
  infinities). Indexing, \<open>get\<close>, truth value, equality, sets and sorting follow the Python data
  model, with the exception each of them may raise. The second part is the deterministic JSON
  text and the content hash of \<^verbatim>\<open>packages/policy/src/pentai_policy/document.py\<close>.
\<close>

datatype json =
    JNull
  | JBool bool
  | JInt int
  | JFloat rat
  | JStr string
  | JList "json list"
  | JObj "(string \<times> json) list"

type_synonym dict = "(string \<times> json) list"

section \<open>The Python data model on these values\<close>

fun is_dict :: "json \<Rightarrow> bool" where
  "is_dict (JObj _) = True"
| "is_dict _ = False"

fun is_list :: "json \<Rightarrow> bool" where
  "is_list (JList _) = True"
| "is_list _ = False"

fun is_str :: "json \<Rightarrow> bool" where
  "is_str (JStr _) = True"
| "is_str _ = False"

text \<open>\<open>isinstance(x, (int, float))\<close>; a bool is an int.\<close>

fun number :: "json \<Rightarrow> rat option" where
  "number (JBool b) = Some (if b then 1 else 0)"
| "number (JInt i) = Some (of_int i)"
| "number (JFloat r) = Some r"
| "number _ = None"

fun truthy :: "json \<Rightarrow> bool" where
  "truthy JNull = False"
| "truthy (JBool b) = b"
| "truthy (JInt i) = (i \<noteq> 0)"
| "truthy (JFloat r) = (r \<noteq> 0)"
| "truthy (JStr s) = (s \<noteq> [])"
| "truthy (JList xs) = (xs \<noteq> [])"
| "truthy (JObj kvs) = (kvs \<noteq> [])"

text \<open>
  \<open>==\<close> identifies \<open>1\<close>, \<open>1.0\<close> and \<open>True\<close> and ignores the order of dict keys: two values are
  equal when their normal forms are.
\<close>

primrec normal :: "json \<Rightarrow> json" where
  "normal JNull = JNull"
| "normal (JBool b) = JFloat (if b then 1 else 0)"
| "normal (JInt i) = JFloat (of_int i)"
| "normal (JFloat r) = JFloat r"
| "normal (JStr s) = JStr s"
| "normal (JList xs) = JList (map normal xs)"
| "normal (JObj kvs) = JObj (sort_key fst (map (map_prod id normal) kvs))"

definition py_eq :: "json \<Rightarrow> json \<Rightarrow> bool" where
  "py_eq a b \<longleftrightarrow> normal a = normal b"

text \<open>\<open>x in xs\<close> on a list.\<close>

definition py_in :: "json \<Rightarrow> json list \<Rightarrow> bool" where
  "py_in x xs \<longleftrightarrow> list_ex (py_eq x) xs"

text \<open>\<open>d[k]\<close> with a string key, and \<open>d.get(k, default)\<close>.\<close>

fun index :: "json \<Rightarrow> string \<Rightarrow> json result" where
  "index (JObj kvs) k = (case map_of kvs k of None \<Rightarrow> Inl KeyError | Some v \<Rightarrow> Inr v)"
| "index _ k = Inl TypeError"

fun get :: "json \<Rightarrow> string \<Rightarrow> json \<Rightarrow> json result" where
  "get (JObj kvs) k dflt = Inr (case map_of kvs k of None \<Rightarrow> dflt | Some v \<Rightarrow> v)"
| "get _ k dflt = Inl AttributeError"

definition dict_get :: "dict \<Rightarrow> string \<Rightarrow> json" where
  "dict_get d k = (case map_of d k of None \<Rightarrow> JNull | Some v \<Rightarrow> v)"

definition dict_has :: "dict \<Rightarrow> string \<Rightarrow> bool" where
  "dict_has d k \<longleftrightarrow> map_of d k \<noteq> None"

text \<open>\<open>d[k] = v\<close>: a present key keeps its place, a new one goes last.\<close>

fun dict_put :: "dict \<Rightarrow> string \<Rightarrow> json \<Rightarrow> dict" where
  "dict_put [] k v = [(k, v)]"
| "dict_put ((k', v') # d) k v = (if k' = k then (k, v) # d else (k', v') # dict_put d k v)"

text \<open>Iterating over a value: lists give their items, strings their characters, dicts their keys.\<close>

fun elements :: "json \<Rightarrow> json list result" where
  "elements (JList xs) = Inr xs"
| "elements (JStr s) = Inr (map (\<lambda>c. JStr [c]) s)"
| "elements (JObj kvs) = Inr (map (\<lambda>(k, _). JStr k) kvs)"
| "elements _ = Inl TypeError"

fun hashable :: "json \<Rightarrow> bool" where
  "hashable (JList _) = False"
| "hashable (JObj _) = False"
| "hashable _ = True"

text \<open>\<open>set(xs)\<close> as the list of first occurrences: its order is never observed unsorted.\<close>

fun dedup :: "json list \<Rightarrow> json list" where
  "dedup [] = []"
| "dedup (x # xs) = x # filter (\<lambda>y. \<not> py_eq x y) (dedup xs)"

definition py_set :: "json list \<Rightarrow> json list result" where
  "py_set xs = (if list_all hashable xs then Inr (dedup xs) else Inl TypeError)"

fun str_of :: "json \<Rightarrow> string" where
  "str_of (JStr s) = s"
| "str_of _ = []"

text \<open>
  \<open>a < b\<close>: numbers, strings and lists (at the first position where they differ); \<open>None\<close> is the
  TypeError of every other pair.
\<close>

fun py_less :: "json \<Rightarrow> json \<Rightarrow> bool option" where
  "py_less (JStr a) (JStr b) = Some (a < b)"
| "py_less (JList []) (JList ys) = Some (ys \<noteq> [])"
| "py_less (JList (x # xs)) (JList []) = Some False"
| "py_less (JList (x # xs)) (JList (y # ys)) =
     (if py_eq x y then py_less (JList xs) (JList ys) else py_less x y)"
| "py_less a b =
     (case (number a, number b) of (Some p, Some q) \<Rightarrow> Some (p < q) | _ \<Rightarrow> None)"

text \<open>
  \<open>sorted(xs, key=f)\<close>, a stable sort by any key. It raises TypeError when some two keys do not
  compare.
\<close>

primrec insert_keyed :: "json \<times> 'a \<Rightarrow> (json \<times> 'a) list \<Rightarrow> (json \<times> 'a) list" where
  "insert_keyed p [] = [p]"
| "insert_keyed p (q # qs) =
     (if py_less (fst q) (fst p) = Some True then q # insert_keyed p qs else p # q # qs)"

primrec keys_comparable :: "json list \<Rightarrow> bool" where
  "keys_comparable [] = True"
| "keys_comparable (k # ks) = (list_all (\<lambda>k'. py_less k k' \<noteq> None) ks \<and> keys_comparable ks)"

definition sort_keyed :: "(json \<times> 'a) list \<Rightarrow> 'a list result" where
  "sort_keyed ps =
     (if keys_comparable (map fst ps) then Inr (map snd (foldr insert_keyed ps []))
      else Inl TypeError)"

definition sort_by :: "('a \<Rightarrow> json result) \<Rightarrow> 'a list \<Rightarrow> 'a list result" where
  "sort_by f xs = bindr (traverse f xs) (\<lambda>ks. sort_keyed (zip ks xs))"

definition py_sorted :: "json list \<Rightarrow> json list result" where
  "py_sorted xs = sort_by Inr xs"

definition sorted_set :: "json \<Rightarrow> json list result" where
  "sorted_set v = bindr (elements v) (\<lambda>xs. bindr (py_set xs) py_sorted)"

text \<open>The tuple of some items of a dict, as a sort key.\<close>

definition fields_key :: "string list \<Rightarrow> json \<Rightarrow> json result" where
  "fields_key names x = mapr JList (traverse (index x) names)"

section \<open>Python text of a value\<close>

text \<open>\<open>repr\<close> of a string, and \<open>str\<close> and \<open>repr\<close> of a value.\<close>

definition repr_char :: "char \<Rightarrow> char \<Rightarrow> string" where
  "repr_char q c =
     (if c = q \<or> code c = 92 then [CHR 0x5C, c]
      else if code c = 10 then [CHR 0x5C, CHR ''n'']
      else if code c = 13 then [CHR 0x5C, CHR ''r'']
      else if code c = 9 then [CHR 0x5C, CHR ''t'']
      else if is_control_char c \<or> code c = 160 \<or> code c = 173
      then [CHR 0x5C, CHR ''x'', hex_char_lower (of_char c div 16), hex_char_lower (of_char c mod 16)]
      else [c])"

definition repr_string :: "string \<Rightarrow> string" where
  "repr_string s =
     (let q = (if CHR 0x27 \<in> set s \<and> CHR 0x22 \<notin> set s then CHR 0x22 else CHR 0x27)
      in [q] @ concat (map (repr_char q) s) @ [q])"

primrec py_repr :: "(rat \<Rightarrow> string) \<Rightarrow> json \<Rightarrow> string" where
  "py_repr fr JNull = ''None''"
| "py_repr fr (JBool b) = (if b then ''True'' else ''False'')"
| "py_repr fr (JInt i) = string_of_int i"
| "py_repr fr (JFloat r) = fr r"
| "py_repr fr (JStr s) = repr_string s"
| "py_repr fr (JList xs) = ''['' @ join_with '', '' (map (py_repr fr) xs) @ '']''"
| "py_repr fr (JObj kvs) =
     [CHR 0x7B] @
     join_with '', ''
       (map (\<lambda>kv. repr_string (fst kv) @ '': '' @ snd kv) (map (map_prod id (py_repr fr)) kvs)) @
     [CHR 0x7D]"

definition py_str :: "(rat \<Rightarrow> string) \<Rightarrow> json \<Rightarrow> string" where
  "py_str fr v = (case v of JStr s \<Rightarrow> s | _ \<Rightarrow> py_repr fr v)"

section \<open>Canonical JSON text and content hashes\<close>

text \<open>
  \<open>json.dumps(value, ensure_ascii=False, separators=(",", ":"), sort_keys=True)\<close>. The text of a
  float is a parameter: it is CPython's shortest representation.
\<close>

definition hex4 :: "int \<Rightarrow> string" where
  "hex4 n = map hex_char_lower [n div 4096 mod 16, n div 256 mod 16, n div 16 mod 16, n mod 16]"

definition escape_char :: "char \<Rightarrow> string" where
  "escape_char c =
     (if c = CHR 0x22 \<or> c = CHR 0x5C then [CHR 0x5C, c]
      else if 32 \<le> code c then [c]
      else if c = CHR 0x0A then [CHR 0x5C, CHR ''n'']
      else if c = CHR 0x0D then [CHR 0x5C, CHR ''r'']
      else if c = CHR 0x09 then [CHR 0x5C, CHR ''t'']
      else if c = CHR 0x0C then [CHR 0x5C, CHR ''f'']
      else if c = CHR 0x08 then [CHR 0x5C, CHR ''b'']
      else [CHR 0x5C, CHR ''u''] @ hex4 (of_char c))"

definition json_string :: "string \<Rightarrow> string" where
  "json_string s = [CHR 0x22] @ concat (map escape_char s) @ [CHR 0x22]"

definition json_member :: "string \<times> string \<Rightarrow> string" where
  "json_member kv = json_string (fst kv) @ '':'' @ snd kv"

primrec canonical_json :: "(rat \<Rightarrow> string) \<Rightarrow> json \<Rightarrow> string" where
  "canonical_json fr JNull = ''null''"
| "canonical_json fr (JBool b) = (if b then ''true'' else ''false'')"
| "canonical_json fr (JInt i) = string_of_int i"
| "canonical_json fr (JFloat r) = fr r"
| "canonical_json fr (JStr s) = json_string s"
| "canonical_json fr (JList xs) = ''['' @ join_with '','' (map (canonical_json fr) xs) @ '']''"
| "canonical_json fr (JObj kvs) =
     [CHR 0x7B] @
     join_with '','' (map json_member (sort_key fst (map (map_prod id (canonical_json fr)) kvs))) @
     [CHR 0x7D]"

text \<open>
  The digest library as a parameter: \<open>sha256_hex t\<close> is the hexadecimal SHA-256 of the UTF-8
  encoding of the text \<open>t\<close>, \<open>uuid5\<close> the name-based identifier of a namespace and a name.
\<close>

record hashing =
  sha256_hex :: "string \<Rightarrow> string"
  float_repr :: "rat \<Rightarrow> string"
  uuid5 :: "string \<Rightarrow> string \<Rightarrow> string"

definition content_hash :: "('a) hashing_scheme \<Rightarrow> json \<Rightarrow> string" where
  "content_hash H v = sha256_hex H (canonical_json (float_repr H) v)"

lemmas char_texts_code [code] =
  escape_char_def [unfolded code_compare] repr_char_def [unfolded code_compare]

section \<open>Laws\<close>

lemma py_eq_refl [simp]: "py_eq x x"
  by (simp add: py_eq_def)

lemma py_eq_sym: "py_eq x y \<longleftrightarrow> py_eq y x"
  by (auto simp: py_eq_def)

lemma py_eq_trans: "py_eq x y \<Longrightarrow> py_eq y z \<Longrightarrow> py_eq x z"
  by (simp add: py_eq_def)

lemma py_eq_JStr [simp]: "py_eq (JStr s) v \<longleftrightarrow> v = JStr s" "py_eq v (JStr s) \<longleftrightarrow> v = JStr s"
  by (cases v; auto simp: py_eq_def)+

lemma py_in_iff: "py_in x xs \<longleftrightarrow> (\<exists>y \<in> set xs. py_eq x y)"
  by (auto simp: py_in_def list_ex_iff)

lemma py_in_JStr [simp]: "py_in (JStr s) xs \<longleftrightarrow> JStr s \<in> set xs"
  by (auto simp: py_in_iff)

lemma index_eq_Inr [result_elims]:
  "index v k = Inr x \<longleftrightarrow> (\<exists>kvs. v = JObj kvs \<and> map_of kvs k = Some x)"
  by (cases v) (auto split: option.splits)

lemma index_dict_get: "index (JObj d) k = Inr v \<Longrightarrow> dict_get d k = v"
  by (auto simp: dict_get_def split: option.splits)

lemma get_eq_Inr:
  "get v k d = Inr x \<longleftrightarrow>
     (\<exists>kvs. v = JObj kvs \<and> x = (case map_of kvs k of None \<Rightarrow> d | Some y \<Rightarrow> y))"
  by (cases v) auto

lemma dict_put_lookup [simp]: "map_of (dict_put d k v) = (map_of d)(k \<mapsto> v)"
  by (induction d k v rule: dict_put.induct) (auto simp: fun_eq_iff)

lemma dict_put_keys: "fst ` set (dict_put d k v) = insert k (fst ` set d)"
  by (induction d k v rule: dict_put.induct) auto

lemma distinct_dict_put: "distinct (map fst d) \<Longrightarrow> distinct (map fst (dict_put d k v))"
proof (induction d k v rule: dict_put.induct)
  case (2 k' v' d k v)
  have "k' \<notin> set (map fst (dict_put d k v))" if "k' \<noteq> k"
    using that "2.prems" dict_put_keys [of d k v] by auto
  with 2 show ?case by auto
qed simp

lemma dedup_subset: "set (dedup xs) \<subseteq> set xs"
  by (induction xs) auto

lemma dedup_cover: "x \<in> set xs \<Longrightarrow> \<exists>y \<in> set (dedup xs). py_eq x y"
proof (induction xs)
  case (Cons a xs)
  show ?case
  proof (cases "py_eq a x")
    case True
    then show ?thesis by (auto simp: py_eq_sym)
  next
    case False
    with Cons obtain y where "y \<in> set (dedup xs)" "py_eq x y" by auto
    moreover with False have "\<not> py_eq a y" by (auto simp: py_eq_def)
    ultimately show ?thesis by auto
  qed
qed simp

lemma sort_keyed_mset: "sort_keyed ps = Inr ys \<Longrightarrow> mset ys = image_mset snd (mset ps)"
proof -
  have i: "mset (insert_keyed p qs) = add_mset p (mset qs)" for p :: "json \<times> 'a" and qs
    by (induction qs) auto
  have "mset (foldr insert_keyed ps []) = mset ps"
    by (induction ps) (auto simp: i)
  then show "sort_keyed ps = Inr ys \<Longrightarrow> mset ys = image_mset snd (mset ps)"
    by (simp add: sort_keyed_def split: if_splits) (metis mset_map)
qed

lemma sort_by_mset:
  assumes "sort_by f xs = Inr ys"
  shows "mset ys = mset xs"
proof -
  from assms obtain ks where ks: "traverse f xs = Inr ks" and ys: "sort_keyed (zip ks xs) = Inr ys"
    by (auto simp: sort_by_def bindr_eq_Inr)
  from ks have len: "length ks = length xs"
    by (auto simp: traverse_eq_Inr dest: list_all2_lengthD)
  have "image_mset snd (mset (zip ks xs)) = mset (map snd (zip ks xs))" by simp
  also have "\<dots> = mset xs" using len by (simp only: map_snd_zip)
  finally show ?thesis using sort_keyed_mset [OF ys] by simp
qed

lemma sort_by_set: "sort_by f xs = Inr ys \<Longrightarrow> set ys = set xs"
  by (metis sort_by_mset mset_eq_setD)

lemma py_sorted_set: "py_sorted xs = Inr ys \<Longrightarrow> set ys = set xs"
  unfolding py_sorted_def by (rule sort_by_set)

lemma py_sorted_Nil: "py_sorted xs = Inr [] \<longleftrightarrow> xs = []"
  using py_sorted_set [of xs "[]"] by (auto simp: py_sorted_def sort_by_def sort_keyed_def)

lemma sorted_set_elements:
  assumes "sorted_set v = Inr ys"
  obtains xs where "elements v = Inr xs" and "set ys \<subseteq> set xs" and "\<forall>x \<in> set xs. \<exists>y \<in> set ys. py_eq x y"
proof -
  from assms obtain xs where xs: "elements v = Inr xs" and ys: "set ys = set (dedup xs)"
    by (auto simp: sorted_set_def bindr_eq_Inr py_set_def dest: py_sorted_set split: if_splits)
  then show ?thesis using dedup_subset [of xs] dedup_cover [of _ xs] by (intro that [OF xs]) auto
qed

lemma sorted_set_mem:
  assumes "sorted_set (JList xs) = Inr ys"
  shows "set ys \<subseteq> set xs" and "x \<in> set xs \<Longrightarrow> \<exists>y \<in> set ys. py_eq x y"
  by (rule sorted_set_elements [OF assms], simp)+

lemma dict_get_put [simp]:
  "dict_get (dict_put d k v) k' = (if k = k' then v else dict_get d k')"
  by (simp add: dict_get_def)

text \<open>The canonical text does not depend on the order in which keys were inserted.\<close>

lemma filter_unique_key:
  assumes "distinct (map fst zs)" and "k \<in> set zs"
  shows "filter (\<lambda>x. fst k = fst x) zs = [k]"
  using assms by (induction zs) (auto simp: filter_empty_conv image_iff)

lemma sort_key_fst_perm:
  assumes d: "distinct (map fst xs)" and m: "mset xs = mset ys"
  shows "sort_key (fst :: 'a::linorder \<times> 'b \<Rightarrow> 'a) xs = sort_key fst ys"
proof (rule properties_for_sort_key [symmetric])
  show "mset (sort_key fst xs) = mset ys" using m by simp
  have dy: "distinct (map fst ys)"
    using d m by (metis mset_eq_imp_distinct_iff mset_map)
  have dx: "distinct (map fst (sort_key fst xs))"
    using d by (metis mset_eq_imp_distinct_iff mset_map mset_sort)
  show "filter (\<lambda>x. fst k = fst x) (sort_key fst xs) = filter (\<lambda>x. fst k = fst x) ys"
    if k: "k \<in> set (sort_key fst xs)" for k
  proof -
    have "k \<in> set ys" using k m by (metis mset_eq_setD set_sort)
    then show ?thesis using filter_unique_key [OF dx k] filter_unique_key [OF dy] by simp
  qed
  show "sorted (map fst (sort_key fst xs))" by simp
qed

theorem canonical_json_key_order:
  assumes "distinct (map fst d)" and "mset d = mset d'"
  shows "canonical_json fr (JObj d) = canonical_json fr (JObj d')"
proof -
  let ?f = "map_prod id (canonical_json fr)"
  have "map fst (map ?f d) = map fst d" by simp
  with assms(1) have "distinct (map fst (map ?f d))" by simp
  moreover have "mset (map ?f d) = mset (map ?f d')" using assms(2) by (metis mset_map)
  ultimately have "sort_key fst (map ?f d) = sort_key fst (map ?f d')"
    by (rule sort_key_fst_perm)
  then show ?thesis by simp
qed

end
