(* ===== verification/Ip_Address.thy ===== *)
theory Ip_Address
  imports Json
begin

text \<open>
  The part of Python's \<open>ipaddress\<close> module (CPython 3.12) that the sources call: strict text to
  address, address to compressed text, networks and membership. Addresses are numbers below
  \<open>2 ^ 32\<close> and \<open>2 ^ 128\<close>. A zone identifier (\<open>%zone\<close>) is refused by every caller before the
  module is reached, except in bracketed URL hosts, where \<open>split_scope\<close> models it.
\<close>

datatype ip_address = IPv4 int | IPv6 int

section \<open>Text to address\<close>

abbreviation address_error :: exn where
  "address_error \<equiv> ValueError ''does not appear to be an IPv4 or IPv6 address''"

definition parse_octet :: "string \<Rightarrow> int option" where
  "parse_octet s =
     (if isdecimal s \<and> length s \<le> 3 \<and> (s \<noteq> ''0'' \<longrightarrow> hd s \<noteq> CHR ''0'') \<and> int_of_digits s \<le> 255
      then Some (int_of_digits s) else None)"

definition parse_ipv4 :: "string \<Rightarrow> int option" where
  "parse_ipv4 s =
     (case map parse_octet (split_on (CHR ''.'') s) of
        [Some a, Some b, Some c, Some d] \<Rightarrow> Some (((a * 256 + b) * 256 + c) * 256 + d)
      | _ \<Rightarrow> None)"

definition parse_hextet :: "string \<Rightarrow> int option" where
  "parse_hextet s =
     (if s \<noteq> [] \<and> list_all is_hex_char s \<and> length s \<le> 4 then Some (int_of_hex s) else None)"

primrec parse_hextets :: "string list \<Rightarrow> int list option" where
  "parse_hextets [] = Some []"
| "parse_hextets (p # ps) =
     (case parse_hextet p of
        None \<Rightarrow> None
      | Some h \<Rightarrow> (case parse_hextets ps of None \<Rightarrow> None | Some hs \<Rightarrow> Some (h # hs)))"

definition ipv6_of_hextets :: "int list \<Rightarrow> int" where
  "ipv6_of_hextets hs = foldl (\<lambda>n h. n * 65536 + h) 0 hs"

definition hex_string :: "int \<Rightarrow> string" where
  "hex_string n =
     (let ds = map hex_char_lower [n div 4096 mod 16, n div 256 mod 16, n div 16 mod 16, n mod 16];
          sig = dropWhile (\<lambda>c. c = CHR ''0'') ds
      in if sig = [] then ''0'' else sig)"

text \<open>A dotted quad at the end stands for two hextets.\<close>

definition expand_ipv4_tail :: "string list \<Rightarrow> string list option" where
  "expand_ipv4_tail parts =
     (if CHR ''.'' \<in> set (last parts)
      then (case parse_ipv4 (last parts) of
              None \<Rightarrow> None
            | Some v \<Rightarrow> Some (butlast parts @ [hex_string (v div 65536), hex_string (v mod 65536)]))
      else Some parts)"

text \<open>The positions of empty inner parts, that is of \<open>::\<close>.\<close>

definition skip_indices :: "string list \<Rightarrow> nat list" where
  "skip_indices parts = filter (\<lambda>i. parts ! i = []) [1..<length parts - 1]"

definition parse_ipv6 :: "string \<Rightarrow> int option" where
  "parse_ipv6 s =
     (let parts = split_on (CHR '':'') s in
      if s = [] \<or> length parts < 3 then None
      else case expand_ipv4_tail parts of None \<Rightarrow> None | Some parts \<Rightarrow>
        if length parts > 9 then None
        else case skip_indices parts of
            [] \<Rightarrow>
              if length parts = 8 then map_option ipv6_of_hextets (parse_hextets parts) else None
          | [i] \<Rightarrow>
              (let hi = (if parts ! 0 = [] then i - 1 else i);
                   lo = (if last parts = [] then length parts - i - 2 else length parts - i - 1)
               in if (parts ! 0 = [] \<and> hi \<noteq> 0) \<or> (last parts = [] \<and> lo \<noteq> 0) \<or> 8 < hi + lo + 1
                  then None
                  else case parse_hextets (take hi parts) of None \<Rightarrow> None | Some hs \<Rightarrow>
                    (case parse_hextets (drop (length parts - lo) parts) of None \<Rightarrow> None
                     | Some ls \<Rightarrow>
                         Some (ipv6_of_hextets (hs @ replicate (8 - (hi + lo)) 0 @ ls))))
          | _ \<Rightarrow> None)"

definition parse_ip :: "string \<Rightarrow> ip_address option" where
  "parse_ip s =
     (case parse_ipv4 s of
        Some a \<Rightarrow> Some (IPv4 a)
      | None \<Rightarrow> map_option IPv6 (parse_ipv6 s))"

section \<open>Address to text\<close>

definition ipv4_text :: "int \<Rightarrow> string" where
  "ipv4_text a =
     join_with ''.'' (map decimal
       [a div 16777216 mod 256, a div 65536 mod 256, a div 256 mod 256, a mod 256])"

definition hextets :: "int \<Rightarrow> int list" where
  "hextets a = map (\<lambda>i. a div 65536 ^ (7 - i) mod 65536) [0..<8]"

text \<open>
  \<open>_compress_hextets\<close>: the leftmost longest run of at least two zero hextets becomes \<open>::\<close>.
  The state is the best run (start, length) and the current one.
\<close>

fun zero_run :: "nat \<Rightarrow> int list \<Rightarrow> nat \<times> nat \<Rightarrow> nat \<times> nat \<Rightarrow> nat \<times> nat" where
  "zero_run i [] best cur = best"
| "zero_run i (h # hs) best cur =
     (if h = 0
      then (let cur = (if snd cur = 0 then (i, 1) else (fst cur, snd cur + 1))
            in zero_run (Suc i) hs (if snd cur > snd best then cur else best) cur)
      else zero_run (Suc i) hs best (0, 0))"

definition compress_hextets :: "int list \<Rightarrow> string list" where
  "compress_hextets hs =
     (let (start, len) = zero_run 0 hs (0, 0) (0, 0); texts = map hex_string hs
      in if len > 1
         then (if start = 0 then [[]] else take start texts) @ [[]] @
              (if start + len = length hs then [[]] else drop (start + len) texts)
         else texts)"

definition ipv6_text :: "int \<Rightarrow> string" where
  "ipv6_text a = join_with '':'' (compress_hextets (hextets a))"

fun ip_text :: "ip_address \<Rightarrow> string" where
  "ip_text (IPv4 a) = ipv4_text a"
| "ip_text (IPv6 a) = ipv6_text a"

fun ip_family :: "ip_address \<Rightarrow> string" where
  "ip_family (IPv4 _) = ''ipv4''"
| "ip_family (IPv6 _) = ''ipv6''"

section \<open>Networks\<close>

text \<open>A network is its family, its network address and its prefix length.\<close>

record ip_network =
  net_address :: ip_address
  net_prefix :: nat

fun ip_number :: "ip_address \<Rightarrow> int" where
  "ip_number (IPv4 a) = a"
| "ip_number (IPv6 a) = a"

fun ip_bits :: "ip_address \<Rightarrow> nat" where
  "ip_bits (IPv4 _) = 32"
| "ip_bits (IPv6 _) = 128"

definition host_size :: "ip_address \<Rightarrow> nat \<Rightarrow> int" where
  "host_size a p = 2 ^ (ip_bits a - p)"

definition parse_prefix :: "nat \<Rightarrow> string \<Rightarrow> nat option" where
  "parse_prefix bits s =
     (if isdecimal s \<and> int_of_digits s \<le> int bits then Some (nat (int_of_digits s)) else None)"

text \<open>An IPv4 mask may also be written as a dotted netmask or hostmask.\<close>

definition parse_ipv4_mask :: "string \<Rightarrow> nat option" where
  "parse_ipv4_mask s =
     (case parse_prefix 32 s of
        Some p \<Rightarrow> Some p
      | None \<Rightarrow>
          (case parse_ipv4 s of
             None \<Rightarrow> None
           | Some v \<Rightarrow>
               (case List.find (\<lambda>p. v = 2 ^ 32 - 2 ^ (32 - p)) [0..<33] of
                  Some p \<Rightarrow> Some p
                | None \<Rightarrow> List.find (\<lambda>p. v = 2 ^ (32 - p) - 1) [0..<33])))"

definition strict_network :: "ip_address \<Rightarrow> nat \<Rightarrow> ip_network option" where
  "strict_network a p =
     (if ip_number a mod host_size a p = 0 then Some \<lparr>net_address = a, net_prefix = p\<rparr> else None)"

definition parse_network :: "string \<Rightarrow> ip_network option" where
  "parse_network s =
     (case split_on (CHR ''/'') s of
        [ad] \<Rightarrow>
          (case parse_ip ad of None \<Rightarrow> None | Some a \<Rightarrow> strict_network a (ip_bits a))
      | [ad, msk] \<Rightarrow>
          (case parse_ip ad of
             None \<Rightarrow> None
           | Some (IPv4 a) \<Rightarrow>
               (case parse_ipv4_mask msk of None \<Rightarrow> None | Some p \<Rightarrow> strict_network (IPv4 a) p)
           | Some (IPv6 a) \<Rightarrow>
               (case parse_prefix 128 msk of None \<Rightarrow> None | Some p \<Rightarrow> strict_network (IPv6 a) p))
      | _ \<Rightarrow> None)"

text \<open>\<open>address in network\<close>: masking the address gives the network address.\<close>

definition in_network :: "ip_address \<Rightarrow> ip_network \<Rightarrow> bool" where
  "in_network a n \<longleftrightarrow>
     ip_family a = ip_family (net_address n) \<and>
     (let k = host_size a (net_prefix n)
      in ip_number a div k * k = ip_number (net_address n))"

definition network_text :: "ip_network \<Rightarrow> string" where
  "network_text n = ip_text (net_address n) @ ''/'' @ decimal (int (net_prefix n))"

text \<open>\<open>_split_scope_id\<close>: the address before a well-formed zone identifier.\<close>

definition split_scope :: "string \<Rightarrow> string option" where
  "split_scope s =
     (case partition_on (CHR ''%'') s of
        (ad, found, scope) \<Rightarrow>
          if \<not> found then Some ad
          else if scope = [] \<or> CHR ''%'' \<in> set scope then None else Some ad)"

end
