(* ===== verification/Canonicalize.thy ===== *)
theory Canonicalize
  imports Ip_Address
begin

text \<open>
  \<^verbatim>\<open>packages/policy/src/pentai_policy/canonicalize.py\<close>: the canonicalizers for domains, wildcard
  domains, ports, IP addresses, CIDR blocks, paths and URLs, with the parts of \<open>urllib.parse\<close> and
  \<open>posixpath\<close> they use (CPython 3.12). The \<open>idna\<close> package is the parameter \<open>idna\<close>: the encoded
  name, or \<open>None\<close> where it raises \<open>IDNAError\<close>. On code points up to U+00FF the normalisation
  form NFC is the identity and \<open>urlsplit\<close>'s NFKC check never fires.

  Results: a canonical path is a fixed point of the canonicalizer, starts with a slash and has no
  dot segments, so that prefix matching on it is matching of path segments.
\<close>

type_synonym idna = "string \<Rightarrow> string option"

abbreviation canon_error :: "string \<Rightarrow> exn" where
  "canon_error m \<equiv> CanonicalizationError m"

section \<open>Domains, ports and addresses\<close>

definition is_unreserved :: "char \<Rightarrow> bool" where
  "is_unreserved c \<longleftrightarrow> is_alnum_char c \<or> c \<in> {CHR ''-'', CHR ''.'', CHR ''_'', CHR ''~''}"

definition label_char :: "char \<Rightarrow> bool" where
  "label_char c \<longleftrightarrow> is_lower_char c \<or> is_digit_char c \<or> c = CHR ''-''"

definition domain_label :: "string \<Rightarrow> bool" where
  "domain_label s \<longleftrightarrow>
     s \<noteq> [] \<and> length s \<le> 63 \<and> list_all label_char s \<and> hd s \<noteq> CHR ''-'' \<and> last s \<noteq> CHR ''-''"

definition digits_and_dots :: "string \<Rightarrow> bool" where
  "digits_and_dots s \<longleftrightarrow> s \<noteq> [] \<and> list_all (\<lambda>c. is_digit_char c \<or> c = CHR ''.'') s"

definition canonicalize_domain_str :: "idna \<Rightarrow> string \<Rightarrow> string result" where
  "canonicalize_domain_str idna value =
     guardr (value \<noteq> strip value \<or> value = [])
       (canon_error ''domain contains surrounding whitespace or is empty'') (
     guardr (list_ex (\<lambda>c. c \<in> {CHR ''/'', CHR 0x5C, CHR ''@'', CHR ''%'', CHR ''['', CHR '']''}) value)
       (canon_error ''domain contains URL or encoded syntax'') (
     guardr (digits_and_dots (removesuffix ''.'' value))
       (canon_error ''ambiguous IPv4-like domain'') (
     let normalized = (if suffix ''.'' value then butlast value else value) in
     guardr (normalized = []) (canon_error ''domain is empty'') (
     case idna normalized of
       None \<Rightarrow> Inl (canon_error ''invalid internationalized domain'')
     | Some encoded \<Rightarrow>
         (let ascii_domain = lower encoded in
          guardr (length ascii_domain > 253) (canon_error ''domain is too long'') (
          guardr (list_ex (\<lambda>l. \<not> domain_label l) (split_on (CHR ''.'') ascii_domain))
            (canon_error ''invalid domain label'') (
          Inr ascii_domain)))))))"

definition canonicalize_domain :: "idna \<Rightarrow> json \<Rightarrow> string result" where
  "canonicalize_domain idna v =
     (case v of JStr s \<Rightarrow> canonicalize_domain_str idna s
      | _ \<Rightarrow> Inl (canon_error ''domain must be text''))"

abbreviation wildcard_message :: string where
  "wildcard_message \<equiv>
     ''wildcard domain must start with '' @ [CHR 0x27, CHR ''*'', CHR ''.'', CHR 0x27]"

definition canonicalize_wildcard_domain :: "idna \<Rightarrow> json \<Rightarrow> string result" where
  "canonicalize_wildcard_domain idna v =
     (case v of
        JStr s \<Rightarrow>
          guardr (\<not> prefix ''*.'' s) (canon_error wildcard_message) (
          guardr (CHR ''*'' \<in> set (drop 2 s))
            (canon_error ''wildcard is allowed only as the complete left-most label'') (
          canonicalize_domain_str idna (drop 2 s)))
      | _ \<Rightarrow> Inl (canon_error wildcard_message))"

definition port_in_range :: "int \<Rightarrow> int result" where
  "port_in_range n =
     (if 1 \<le> n \<and> n \<le> 65535 then Inr n
      else Inl (canon_error ''port must be from 1 through 65535''))"

fun canonicalize_port :: "json \<Rightarrow> int result" where
  "canonicalize_port (JBool _) = Inl (canon_error ''boolean is not a port'')"
| "canonicalize_port (JStr s) =
     (if \<not> list_all is_ascii_char s \<or> \<not> isdecimal s \<or> prefix ''0'' s
      then Inl (canon_error ''port must be unambiguous decimal'')
      else port_in_range (int_of_digits s))"
| "canonicalize_port (JInt n) = port_in_range n"
| "canonicalize_port _ = Inl (canon_error ''port must be from 1 through 65535'')"

text \<open>The octets of strict dotted decimal.\<close>

definition strict_octets :: "string \<Rightarrow> bool" where
  "strict_octets s \<longleftrightarrow>
     (let octets = split_on (CHR ''.'') s
      in length octets = 4 \<and>
         list_all (\<lambda>x. isdecimal x \<and> \<not> (length x > 1 \<and> prefix ''0'' x)) octets)"

definition canonicalize_ip_str :: "string \<Rightarrow> ip_address result" where
  "canonicalize_ip_str value =
     guardr (value \<noteq> strip value \<or> CHR ''%'' \<in> set value)
       (canon_error ''IP address is empty, spaced, or zone-qualified'') (
     guardr (CHR '':'' \<notin> set value \<and> CHR ''.'' \<in> set value \<and> \<not> strict_octets value)
       (canon_error ''IPv4 must use strict dotted decimal'') (
     case parse_ip value of
       None \<Rightarrow> Inl (canon_error ''invalid IP address'')
     | Some a \<Rightarrow> Inr a))"

text \<open>The result: family and compressed lower-case text.\<close>

definition canonicalize_ip :: "json \<Rightarrow> (string \<times> string) result" where
  "canonicalize_ip v =
     (case v of
        JStr s \<Rightarrow> bindr (canonicalize_ip_str s) (\<lambda>a. Inr (ip_family a, lower (ip_text a)))
      | _ \<Rightarrow> Inl (canon_error ''IP address is empty, spaced, or zone-qualified''))"

record canonical_cidr =
  cidr_family :: string
  cidr_network :: string
  cidr_prefix_length :: int
  cidr_canonical :: string

definition canonicalize_cidr :: "json \<Rightarrow> canonical_cidr result" where
  "canonicalize_cidr v =
     (case v of
        JStr s \<Rightarrow>
          guardr (s \<noteq> strip s \<or> CHR ''/'' \<notin> set s \<or> CHR ''%'' \<in> set s)
            (canon_error ''CIDR must be unambiguous text with a prefix'') (
          case parse_network s of
            None \<Rightarrow> Inl (canon_error ''invalid CIDR or non-zero host bits'')
          | Some n \<Rightarrow>
              Inr \<lparr>cidr_family = ip_family (net_address n),
                   cidr_network = lower (ip_text (net_address n)),
                   cidr_prefix_length = int (net_prefix n),
                   cidr_canonical = lower (network_text n)\<rparr>)
      | _ \<Rightarrow> Inl (canon_error ''CIDR must be unambiguous text with a prefix''))"

section \<open>Paths\<close>

text \<open>\<open>_normalize_percent_encoding\<close>: decode what is unreserved, refuse encoded separators.\<close>

fun normalize_percent :: "bool \<Rightarrow> string \<Rightarrow> string result" where
  "normalize_percent path [] = Inr []"
| "normalize_percent path (c # rest) =
     (if c \<noteq> CHR ''%'' then bindr (normalize_percent path rest) (\<lambda>out. Inr (c # out))
      else case rest of
          a # b # tail \<Rightarrow>
            if \<not> is_hex_char a \<or> \<not> is_hex_char b
            then Inl (canon_error ''malformed percent encoding'')
            else (let decoded = char_of (16 * hex_value a + hex_value b) in
              if path \<and> decoded \<in> {CHR ''/'', CHR 0x5C, CHR ''%''}
              then Inl (canon_error ''encoded separator or percent is authorization-ambiguous'')
              else bindr (normalize_percent path tail) (\<lambda>out.
                Inr ((if is_unreserved decoded then [decoded]
                      else [CHR ''%'', to_upper_ascii a, to_upper_ascii b]) @ out)))
        | _ \<Rightarrow> Inl (canon_error ''malformed percent encoding''))"

text \<open>\<open>posixpath.normpath\<close>: the component stack, last component first.\<close>

fun norm_components :: "bool \<Rightarrow> string list \<Rightarrow> string list \<Rightarrow> string list" where
  "norm_components absolute acc [] = rev acc"
| "norm_components absolute acc (c # cs) =
     (if c = [] \<or> c = ''.'' then norm_components absolute acc cs
      else if c \<noteq> ''..'' \<or> (\<not> absolute \<and> acc = []) \<or> (acc \<noteq> [] \<and> hd acc = ''..'')
      then norm_components absolute (c # acc) cs
      else norm_components absolute (tl acc) cs)"

definition leading_slashes :: "string \<Rightarrow> string" where
  "leading_slashes s =
     (if \<not> prefix ''/'' s then []
      else if prefix ''//'' s \<and> \<not> prefix ''///'' s then ''//'' else ''/'')"

definition normpath :: "string \<Rightarrow> string" where
  "normpath s =
     (if s = [] then ''.''
      else let out = leading_slashes s @
                 join_with ''/'' (norm_components (prefix ''/'' s) [] (split_on (CHR ''/'') s))
           in if out = [] then ''.'' else out)"

text \<open>\<open>quote\<close> with the safe set of \<open>canonicalize_path\<close>, on the UTF-8 bytes of the text.\<close>

definition path_safe :: "char \<Rightarrow> bool" where
  "path_safe c \<longleftrightarrow> is_unreserved c \<or> c \<in> set ''/:@!$&()*+,;=%'' \<or> c = CHR 0x27"

definition utf8_bytes :: "char \<Rightarrow> int list" where
  "utf8_bytes c =
     (if code c < 128 then [of_char c]
      else [192 + of_char c div 64, 128 + of_char c mod 64])"

definition percent_byte :: "int \<Rightarrow> string" where
  "percent_byte n = [CHR ''%'', hex_char_upper (n div 16), hex_char_upper (n mod 16)]"

definition quote_char :: "char \<Rightarrow> string" where
  "quote_char c = (if path_safe c then [c] else concat (map percent_byte (utf8_bytes c)))"

definition quote :: "string \<Rightarrow> string" where
  "quote s = concat (map quote_char s)"

definition canonicalize_path_str :: "string \<Rightarrow> string result" where
  "canonicalize_path_str value =
     guardr (\<not> prefix ''/'' value) (canon_error ''path must be absolute'') (
     guardr (list_ex (\<lambda>c. c \<in> {CHR 0x5C, CHR ''?'', CHR ''#''}) value)
       (canon_error ''path contains URL delimiters or backslashes'') (
     guardr (list_ex is_control_char value) (canon_error ''path contains a control character'') (
     bindr (normalize_percent True value) (\<lambda>normalized_percent.
     let normalized_path = normpath normalized_percent;
         normalized_path = (if prefix ''//'' normalized_path
           then CHR ''/'' # lstrip (\<lambda>c. c = CHR ''/'') normalized_path else normalized_path);
         normalized_path = (if suffix ''/'' normalized_percent \<and> normalized_path \<noteq> ''/''
           then normalized_path @ ''/'' else normalized_path);
         safe_path = quote normalized_path in
     bindr (normalize_percent True safe_path) (\<lambda>again.
     guardr (again \<noteq> safe_path) (canon_error ''path did not reach a stable canonical form'') (
     Inr safe_path))))))"

definition canonicalize_path :: "json \<Rightarrow> string result" where
  "canonicalize_path v =
     (case v of JStr s \<Rightarrow> canonicalize_path_str s
      | _ \<Rightarrow> Inl (canon_error ''path must be absolute''))"

section \<open>URLs\<close>

record split_result =
  url_scheme :: string
  url_netloc :: string
  url_path :: string
  url_query :: string
  url_fragment :: string

abbreviation url_error :: exn where
  "url_error \<equiv> ValueError ''Invalid IPv6 URL''"

definition scheme_char :: "char \<Rightarrow> bool" where
  "scheme_char c \<longleftrightarrow> is_alnum_char c \<or> c \<in> {CHR ''+'', CHR ''-'', CHR ''.''}"

text \<open>\<open>\Av[a-fA-F0-9]+\..+\Z\<close>; a dot does not match a newline.\<close>

definition ipvfuture :: "string \<Rightarrow> bool" where
  "ipvfuture s \<longleftrightarrow>
     (let rest = drop 1 s; hexes = takeWhile is_hex_char rest; after = dropWhile is_hex_char rest
      in prefix ''v'' s \<and> hexes \<noteq> [] \<and> prefix ''.'' after \<and> drop 1 after \<noteq> [] \<and>
         CHR 0x0A \<notin> set (drop 1 after))"

definition check_bracketed_host :: "string \<Rightarrow> bool" where
  "check_bracketed_host host =
     (if prefix ''v'' host then ipvfuture host
      else parse_ipv4 host = None \<and>
           (case split_scope host of None \<Rightarrow> False | Some a \<Rightarrow> parse_ipv6 a \<noteq> None))"

definition split_scheme :: "string \<Rightarrow> string \<times> string" where
  "split_scheme url =
     (let (pre, found, post) = partition_on (CHR '':'') url
      in if found \<and> pre \<noteq> [] \<and> (is_lower_char (hd url) \<or> is_upper_char (hd url)) \<and>
            list_all scheme_char pre
         then (lower pre, post) else ([], url))"

definition urlsplit :: "string \<Rightarrow> split_result result" where
  "urlsplit value =
     (let url = lstrip (\<lambda>c. code c \<le> 32) value;
          url = filter (\<lambda>c. c \<notin> {CHR 0x09, CHR 0x0D, CHR 0x0A}) url;
          (scheme, url) = split_scheme url;
          netloc = (if prefix ''//'' url
                    then takeWhile (\<lambda>c. c \<notin> {CHR ''/'', CHR ''?'', CHR ''#''}) (drop 2 url) else []);
          rest = (if prefix ''//'' url then drop (2 + length netloc) url else url);
          has_open = CHR ''['' \<in> set netloc; has_close = CHR '']'' \<in> set netloc;
          bracketed = fst (partition_on (CHR '']'') (snd (snd (partition_on (CHR ''['') netloc))));
          (rest, _, fragment) = partition_on (CHR ''#'') rest;
          (path, _, query) = partition_on (CHR ''?'') rest
      in if has_open \<noteq> has_close \<or> (has_open \<and> has_close \<and> \<not> check_bracketed_host bracketed)
         then Inl url_error
         else Inr \<lparr>url_scheme = scheme, url_netloc = netloc, url_path = path, url_query = query,
                   url_fragment = fragment\<rparr>)"

definition has_userinfo :: "split_result \<Rightarrow> bool" where
  "has_userinfo r \<longleftrightarrow> CHR ''@'' \<in> set (url_netloc r)"

definition hostinfo :: "split_result \<Rightarrow> string \<times> string" where
  "hostinfo r =
     (let hostinfo = snd (snd (rpartition_on (CHR ''@'') (url_netloc r)));
          (_, have_open_br, bracketed) = partition_on (CHR ''['') hostinfo
      in if have_open_br
         then (let (hostname, _, port) = partition_on (CHR '']'') bracketed
               in (hostname, snd (snd (partition_on (CHR '':'') port))))
         else (let (hostname, _, port) = partition_on (CHR '':'') hostinfo in (hostname, port)))"

definition url_port :: "split_result \<Rightarrow> int option result" where
  "url_port r =
     (let port = snd (hostinfo r)
      in if port = [] then Inr None
         else if isdecimal port \<and> int_of_digits port \<le> 65535 then Inr (Some (int_of_digits port))
         else Inl (ValueError ''Port out of range 0-65535''))"

definition url_hostname :: "split_result \<Rightarrow> string option" where
  "url_hostname r =
     (let hostname = fst (hostinfo r); (host, found, zone) = partition_on (CHR ''%'') hostname
      in if hostname = [] then None
         else Some (lower host @ (if found then ''%'' @ zone else [])))"

text \<open>\<open>urlunsplit\<close> for a network location and an absolute path, without fragment.\<close>

definition urlunsplit :: "string \<Rightarrow> string \<Rightarrow> string \<Rightarrow> string \<Rightarrow> string" where
  "urlunsplit scheme netloc path query =
     scheme @ ''://'' @ netloc @ path @ (if query = [] then [] else ''?'' @ query)"

record canonical_url =
  cu_scheme :: string
  cu_host_kind :: string
  cu_host_value :: string
  cu_port :: int
  cu_path :: string
  cu_query :: string
  cu_canonical_url :: string

definition host_json :: "string \<Rightarrow> string \<Rightarrow> json" where
  "host_json kind value = JObj [(''kind'', JStr kind), (''value'', JStr value)]"

definition asdict :: "canonical_url \<Rightarrow> json" where
  "asdict u =
     JObj [(''scheme'', JStr (cu_scheme u)),
           (''host'', host_json (cu_host_kind u) (cu_host_value u)),
           (''port'', JInt (cu_port u)),
           (''path'', JStr (cu_path u)),
           (''query'', JStr (cu_query u)),
           (''canonical_url'', JStr (cu_canonical_url u))]"

text \<open>The host: an address if it reads as one, otherwise a domain that is not IPv4-like.\<close>

definition canonical_host :: "idna \<Rightarrow> string \<Rightarrow> (string \<times> string) result" where
  "canonical_host idna hostname =
     (case canonicalize_ip (JStr hostname) of
        Inr h \<Rightarrow> Inr h
      | Inl _ \<Rightarrow>
          guardr (digits_and_dots hostname) (canon_error ''ambiguous IPv4-like hostname'') (
          bindr (canonicalize_domain_str idna hostname) (\<lambda>d. Inr (''domain'', d))))"

definition canonical_authority :: "string \<Rightarrow> string \<Rightarrow> string \<Rightarrow> int \<Rightarrow> string" where
  "canonical_authority scheme kind value port =
     (let display_host = (if kind = ''ipv6'' then ''['' @ value @ '']'' else value);
          default_port = (scheme = ''http'' \<and> port = 80) \<or> (scheme = ''https'' \<and> port = 443)
      in if default_port then display_host else display_host @ '':'' @ decimal port)"

definition canonicalize_url_str :: "idna \<Rightarrow> string \<Rightarrow> canonical_url result" where
  "canonicalize_url_str idna value =
     guardr (value = [] \<or> value \<noteq> strip value)
       (canon_error ''URL is empty or contains surrounding whitespace'') (
     guardr (list_ex is_control_char value) (canon_error ''URL contains a control character'') (
     guardr (CHR 0x5C \<in> set value) (canon_error ''backslash is authorization-ambiguous'') (
     bindr (catchr (bindr (urlsplit value) (\<lambda>parsed. mapr (\<lambda>p. (parsed, p)) (url_port parsed)))
              (\<lambda>e. if is_ValueError e then Inl (canon_error ''invalid URL authority or port'')
                    else Inl e)) (\<lambda>(parsed, parsed_port).
     let scheme = lower (url_scheme parsed) in
     guardr ((scheme \<noteq> ''http'' \<and> scheme \<noteq> ''https'') \<or> url_netloc parsed = [])
       (canon_error ''URL must be absolute HTTP or HTTPS'') (
     guardr (has_userinfo parsed) (canon_error ''URL userinfo is forbidden'') (
     guardr (CHR ''#'' \<in> set value) (canon_error ''URL fragments are not authorization targets'') (
     case url_hostname parsed of
       None \<Rightarrow> Inl (canon_error ''URL hostname is missing'')
     | Some hostname \<Rightarrow>
     bindr (canonical_host idna hostname) (\<lambda>(host_kind, host_value).
     let port = (case parsed_port of Some p \<Rightarrow> p | None \<Rightarrow> if scheme = ''https'' then 443 else 80) in
     bindr (canonicalize_port (JInt port)) (\<lambda>_.
     bindr (canonicalize_path_str (if url_path parsed = [] then ''/'' else url_path parsed)) (\<lambda>safe_path.
     bindr (normalize_percent False (url_query parsed)) (\<lambda>query.
     Inr \<lparr>cu_scheme = scheme, cu_host_kind = host_kind, cu_host_value = host_value, cu_port = port,
          cu_path = safe_path, cu_query = query,
          cu_canonical_url =
            urlunsplit scheme (canonical_authority scheme host_kind host_value port)
              safe_path query\<rparr>)))))))))))"

definition canonicalize_url :: "idna \<Rightarrow> json \<Rightarrow> canonical_url result" where
  "canonicalize_url idna v =
     (case v of JStr s \<Rightarrow> canonicalize_url_str idna s
      | _ \<Rightarrow> Inl (canon_error ''URL is empty or contains surrounding whitespace''))"

section \<open>The shape of canonical paths\<close>

text \<open>Segments that normalisation keeps, and the path they form, with an optional last slash.\<close>

definition good_segment :: "string \<Rightarrow> bool" where
  "good_segment s \<longleftrightarrow> s \<noteq> [] \<and> s \<noteq> ''.'' \<and> s \<noteq> ''..'' \<and> CHR ''/'' \<notin> set s"

definition path_of :: "string list \<Rightarrow> bool \<Rightarrow> string" where
  "path_of segs trailing = ''/'' @ join_with ''/'' segs @ (if trailing \<and> segs \<noteq> [] then ''/'' else [])"

lemma norm_components_good:
  assumes "\<forall>c \<in> set cs. CHR ''/'' \<notin> set c" and "\<forall>c \<in> set acc. good_segment c"
  shows "\<forall>c \<in> set (norm_components True acc cs). good_segment c"
  using assms
proof (induction cs arbitrary: acc)
  case Nil
  then show ?case by simp
next
  case (Cons c cs)
  have top: "\<not> (acc \<noteq> [] \<and> hd acc = ''..'')"
    using Cons.prems(2) by (cases acc) (auto simp: good_segment_def)
  have slash: "\<forall>x \<in> set cs. CHR ''/'' \<notin> set x" and c: "CHR ''/'' \<notin> set c"
    using Cons.prems(1) by auto
  consider "c = [] \<or> c = ''.''" | "c = ''..''" | "good_segment c"
    using c by (auto simp: good_segment_def)
  then show ?case
  proof cases
    case 1
    then show ?thesis using Cons.IH [OF slash Cons.prems(2)] by auto
  next
    case 2
    moreover have "\<forall>x \<in> set (tl acc). good_segment x"
      using Cons.prems(2) by (cases acc) auto
    moreover have "norm_components True acc (''..'' # cs) = norm_components True (tl acc) cs"
      using top by auto
    ultimately show ?thesis using Cons.IH [OF slash, of "tl acc"] by (simp only:)
  next
    case 3
    then have "norm_components True acc (c # cs) = norm_components True (c # acc) cs"
      by (simp add: good_segment_def)
    moreover have "\<forall>x \<in> set (c # acc). good_segment x"
      using 3 Cons.prems(2) by simp
    ultimately show ?thesis using Cons.IH [OF slash, of "c # acc"] by (simp only:)
  qed
qed

lemma norm_components_fix:
  assumes "\<forall>c \<in> set cs. good_segment c"
  shows "norm_components True acc cs = rev acc @ cs"
  using assms by (induction cs arbitrary: acc) (auto simp: good_segment_def)

lemma norm_components_append_Nil: "norm_components b acc (cs @ [[]]) = norm_components b acc cs"
  by (induction b acc cs rule: norm_components.induct) auto

lemma join_with_good_head:
  assumes "\<forall>s \<in> set segs. good_segment s"
  shows "\<not> prefix ''/'' (join_with ''/'' segs)"
proof (cases segs)
  case (Cons s rest)
  with assms obtain c s' where "s = c # s'" "c \<noteq> CHR ''/''"
    by (cases s) (auto simp: good_segment_def)
  with Cons show ?thesis by (cases rest) auto
qed simp

lemma join_with_good_last:
  assumes "\<forall>s \<in> set segs. good_segment s"
  shows "\<not> suffix ''/'' (join_with ''/'' segs)"
  using assms
proof (induction "''/''" segs rule: join_with.induct)
  case (2 x)
  then show ?case by (auto simp: good_segment_def suffix_def)
next
  case (3 x y ys)
  then have ne: "join_with ''/'' (y # ys) \<noteq> []"
    by (cases ys) (auto simp: good_segment_def)
  with 3 show ?case by (auto simp: suffix_def append_eq_append_conv2 append_eq_Cons_conv Cons_eq_append_conv)
qed simp

lemma lstrip_slash_join:
  assumes "\<forall>s \<in> set segs. good_segment s"
  shows "lstrip (\<lambda>c. c = CHR ''/'') (join_with ''/'' segs) = join_with ''/'' segs"
  using join_with_good_head [OF assms] by (cases "join_with ''/'' segs") (auto simp: lstrip_def)

lemma normpath_absolute:
  assumes "prefix ''/'' s"
  obtains segs where "\<forall>x \<in> set segs. good_segment x"
    and "normpath s = leading_slashes s @ join_with ''/'' segs"
    and "segs = norm_components True [] (split_on (CHR ''/'') s)"
proof -
  let ?segs = "norm_components True [] (split_on (CHR ''/'') s)"
  have g: "\<forall>x \<in> set ?segs. good_segment x"
    by (rule norm_components_good) (auto dest: split_on_parts)
  have "s \<noteq> []" "leading_slashes s \<noteq> []" using assms by (auto simp: leading_slashes_def)
  then have "normpath s = leading_slashes s @ join_with ''/'' ?segs"
    using assms by (simp add: normpath_def Let_def)
  with g show ?thesis by (rule that) simp
qed

lemma quote_append: "quote (a @ b) = quote a @ quote b"
  by (simp add: quote_def)

lemma quote_slash [simp]: "quote (CHR ''/'' # s) = CHR ''/'' # quote s"
  by (simp add: quote_def quote_char_def path_safe_def)

lemma quote_Nil [simp]: "quote [] = []"
  by (simp add: quote_def)

lemma quote_join: "quote (join_with ''/'' segs) = join_with ''/'' (map quote segs)"
  by (induction "''/''" segs rule: join_with.induct) (auto simp: quote_append)

lemma code_char_of: "0 \<le> n \<Longrightarrow> n < 256 \<Longrightarrow> code (char_of (n :: int)) = nat n"
  by (metis mod_pos_pos_trivial nat_of_char of_char_of)

lemma of_char_int_bounds: "0 \<le> (of_char c :: int)" "(of_char c :: int) < 256"
  using nat_of_char_less_256 [of c] by (metis of_nat_0_le_iff of_nat_of_char, metis of_nat_less_iff of_nat_numeral of_nat_of_char)

lemma hex_char_upper_alnum:
  assumes "0 \<le> n" "n < 16"
  shows "is_alnum_char (hex_char_upper n)"
  using assms
  by (auto simp: hex_char_upper_def is_alnum_char_def is_digit_char_def is_upper_char_def
      code_char_of nat_le_iff le_nat_iff)

lemma utf8_bytes_range: "b \<in> set (utf8_bytes c) \<Longrightarrow> 0 \<le> b \<and> b < 256"
  using of_char_int_bounds [of c] by (auto simp: utf8_bytes_def split: if_splits)

lemma quote_char_safe: "x \<in> set (quote_char c) \<Longrightarrow> path_safe x"
proof -
  assume x: "x \<in> set (quote_char c)"
  have "path_safe y" if "y \<in> set (percent_byte b)" "b \<in> set (utf8_bytes c)" for y b
  proof -
    from utf8_bytes_range [OF that(2)] have "0 \<le> b div 16" "b div 16 < 16" "0 \<le> b mod 16" "b mod 16 < 16"
      by auto
    then have "is_alnum_char (hex_char_upper (b div 16))" "is_alnum_char (hex_char_upper (b mod 16))"
      using hex_char_upper_alnum by blast+
    with that(1) show ?thesis by (auto simp: percent_byte_def path_safe_def is_unreserved_def)
  qed
  with x show ?thesis by (auto simp: quote_char_def split: if_splits)
qed

lemma quote_safe: "x \<in> set (quote s) \<Longrightarrow> path_safe x"
  by (auto simp: quote_def dest: quote_char_safe)

lemma quote_id: "\<forall>c \<in> set s. path_safe c \<Longrightarrow> quote s = s"
  by (induction s) (auto simp: quote_def quote_char_def)

lemma quote_char_cases: "quote_char c = [c] \<or> (\<exists>r. quote_char c = CHR ''%'' # r)"
  by (auto simp: quote_char_def utf8_bytes_def percent_byte_def)

lemma quote_char_slash: "CHR ''/'' \<in> set (quote_char c) \<Longrightarrow> c = CHR ''/''"
proof (rule ccontr)
  assume x: "CHR ''/'' \<in> set (quote_char c)" and "c \<noteq> CHR ''/''"
  then have "\<not> path_safe c" by (auto simp: quote_char_def)
  with x obtain b where b: "b \<in> set (utf8_bytes c)" "CHR ''/'' \<in> set (percent_byte b)"
    by (auto simp: quote_char_def)
  from utf8_bytes_range [OF b(1)]
  have "is_alnum_char (hex_char_upper (b div 16))" "is_alnum_char (hex_char_upper (b mod 16))"
    using hex_char_upper_alnum by auto
  moreover have "\<not> is_alnum_char (CHR ''/'')"
    by (simp add: is_alnum_char_def is_digit_char_def is_lower_char_def is_upper_char_def)
  ultimately show False using b(2) by (auto simp: percent_byte_def)
qed

lemma quote_Cons: "quote (a # s) = quote_char a @ quote s"
  by (simp add: quote_def)

lemma quote_eq_Nil [simp]: "quote s = [] \<longleftrightarrow> s = []"
  using quote_char_cases [of "hd s"] by (cases s) (auto simp: quote_Cons)

lemma quote_eq_ConsD:
  assumes "quote s = c # t" and "c \<noteq> CHR ''%''"
  obtains s' where "s = c # s'" and "quote s' = t"
proof (cases s)
  case (Cons a s')
  with assms quote_char_cases [of a] show ?thesis by (auto simp: quote_Cons intro: that)
qed (use assms in simp)

lemma quote_dots: "quote s = ''.'' \<Longrightarrow> s = ''.''" "quote s = ''..'' \<Longrightarrow> s = ''..''"
  by (auto elim!: quote_eq_ConsD)

lemma quote_slash_free: "CHR ''/'' \<notin> set s \<Longrightarrow> CHR ''/'' \<notin> set (quote s)"
  by (auto simp: quote_def dest: quote_char_slash)

lemma good_segment_quote: "good_segment s \<Longrightarrow> good_segment (quote s)"
  using quote_dots [of s] quote_slash_free [of s] by (auto simp: good_segment_def)

lemma normalize_percent_slash:
  "prefix ''/'' s \<Longrightarrow> normalize_percent b s = Inr t \<Longrightarrow> prefix ''/'' t"
  by (cases s) (auto simp: bindr_eq_Inr)

lemma path_of_simps:
  "path_of [] tr = ''/''"
  "segs \<noteq> [] \<Longrightarrow> path_of segs True = ''/'' @ join_with ''/'' segs @ ''/''"
  "path_of segs False = ''/'' @ join_with ''/'' segs"
  by (simp_all add: path_of_def)

lemma quote_path_of: "quote (path_of segs tr) = path_of (map quote segs) tr"
  by (simp add: path_of_def quote_append quote_join)

lemma join_good_eq_Nil:
  assumes "\<forall>s \<in> set segs. good_segment s"
  shows "join_with ''/'' segs = [] \<longleftrightarrow> segs = []"
  using assms by (induction "''/''" segs rule: join_with.induct) (auto simp: good_segment_def)

lemma split_join_good:
  assumes "\<forall>s \<in> set segs. good_segment s" and "segs \<noteq> []"
  shows "split_on (CHR ''/'') (join_with ''/'' segs @ t) =
    (if t = [] then segs else butlast segs @ split_on (CHR ''/'') (last segs @ t))"
  using assms
proof (induction "''/''" segs rule: join_with.induct)
  case (2 x)
  then show ?case by (auto simp: good_segment_def split_on_no_sep)
next
  case (3 x y ys)
  then have "split_on (CHR ''/'') (x @ CHR ''/'' # (join_with ''/'' (y # ys) @ t)) =
      x # split_on (CHR ''/'') (join_with ''/'' (y # ys) @ t)"
    by (intro split_on_append_sep) (auto simp: good_segment_def)
  with 3 show ?case by simp
qed simp

lemma split_on_path_of:
  assumes g: "\<forall>s \<in> set segs. good_segment s" and "segs \<noteq> []"
  shows "split_on (CHR ''/'') (path_of segs tr) = [] # segs @ (if tr then [[]] else [])"
proof -
  have "CHR ''/'' \<notin> set (last segs)" using assms by (auto simp: good_segment_def)
  then have "split_on (CHR ''/'') (last segs @ ''/'') = [last segs, []]"
    using split_on_append_sep [of "CHR ''/''" "last segs" "[]"] by simp
  then show ?thesis
    using split_join_good [OF assms, of "if tr then ''/'' else []"] assms(2)
    by (auto simp: path_of_def)
qed

lemma split_path_of:
  assumes g: "\<forall>s \<in> set segs. good_segment s"
  shows "norm_components True [] (split_on (CHR ''/'') (path_of segs tr)) = segs"
proof (cases "segs = []")
  case True
  then show ?thesis by (simp add: path_of_def)
next
  case False
  then show ?thesis
    using split_on_path_of [OF g False, of tr] norm_components_fix [OF g, of "[]"]
      norm_components_append_Nil [of True "[]" segs]
    by (auto split: if_splits)
qed

lemma leading_path_of:
  assumes g: "\<forall>s \<in> set segs. good_segment s"
  shows "leading_slashes (path_of segs tr) = ''/''"
  using join_with_good_head [OF g] join_good_eq_Nil [OF g]
  by (cases "join_with ''/'' segs") (auto simp: leading_slashes_def path_of_def)

lemma normpath_path_of:
  assumes g: "\<forall>s \<in> set segs. good_segment s"
  shows "normpath (path_of segs tr) = path_of segs False"
  using split_path_of [OF g] leading_path_of [OF g]
  by (simp add: normpath_def path_of_def Let_def)

lemma suffix_path_of:
  assumes g: "\<forall>s \<in> set segs. good_segment s"
  shows "suffix ''/'' (path_of segs tr) \<longleftrightarrow> tr \<or> segs = []"
  using join_with_good_last [OF g] join_good_eq_Nil [OF g]
  by (auto simp: path_of_def suffix_def append_eq_append_conv2 Cons_eq_append_conv append_eq_Cons_conv)

lemma path_of_eq_root:
  assumes g: "\<forall>s \<in> set segs. good_segment s"
  shows "path_of segs tr = ''/'' \<longleftrightarrow> segs = []"
  using join_good_eq_Nil [OF g] by (auto simp: path_of_def)

lemma path_safe_plain:
  "path_safe c \<Longrightarrow> c \<notin> {CHR 0x5C, CHR ''?'', CHR ''#''} \<and> \<not> is_control_char c"
  by (auto simp: path_safe_def is_unreserved_def is_alnum_char_def is_digit_char_def is_lower_char_def
      is_upper_char_def is_control_char_def)

lemma canonicalize_path_shape:
  assumes "canonicalize_path_str p = Inr q"
  obtains segs tr where "\<forall>s \<in> set segs. good_segment s" and "q = path_of segs tr"
    and "\<forall>c \<in> set q. path_safe c" and "normalize_percent True q = Inr q"
proof -
  from assms obtain n where p: "prefix ''/'' p" and n: "normalize_percent True p = Inr n"
    by (auto simp: canonicalize_path_str_def result_elims)
  from normalize_percent_slash [OF p n] obtain segs where
    g: "\<forall>x \<in> set segs. good_segment x" and np: "normpath n = leading_slashes n @ join_with ''/'' segs"
    by (rule normpath_absolute)
  define m where "m = (if prefix ''//'' (normpath n)
    then CHR ''/'' # lstrip (\<lambda>c. c = CHR ''/'') (normpath n) else normpath n)"
  have l: "leading_slashes n \<in> {''/'', ''//''}"
    using normalize_percent_slash [OF p n] by (auto simp: leading_slashes_def)
  have m: "m = path_of segs False"
    using l lstrip_slash_join [OF g] join_with_good_head [OF g]
    by (auto simp: m_def np path_of_def lstrip_def)
  define m' where "m' = (if suffix ''/'' n \<and> m \<noteq> ''/'' then m @ ''/'' else m)"
  have m': "\<exists>tr. m' = path_of segs tr"
    using path_of_eq_root [OF g, of False]
    by (cases "suffix ''/'' n \<and> segs \<noteq> []") (auto simp: m'_def m path_of_def)
  from assms p n have q: "q = quote m'" "normalize_percent True q = Inr q"
    unfolding m'_def m_def by (auto simp: canonicalize_path_str_def result_elims Let_def)
  from m' q(1) obtain tr where "q = path_of (map quote segs) tr" by (auto simp: quote_path_of)
  then show ?thesis
    using g good_segment_quote q quote_safe [of _ m'] by (intro that [of "map quote segs" tr]) auto
qed

lemma canonicalize_path_idem:
  assumes "canonicalize_path_str p = Inr q"
  shows "canonicalize_path_str q = Inr q"
proof -
  from assms obtain segs tr where g: "\<forall>s \<in> set segs. good_segment s" and q: "q = path_of segs tr"
    and safe: "\<forall>c \<in> set q. path_safe c" and pc: "normalize_percent True q = Inr q"
    by (rule canonicalize_path_shape)
  have np: "normpath q = path_of segs False" by (simp add: q normpath_path_of [OF g])
  have nn: "\<not> prefix ''//'' (path_of segs False)"
    using join_with_good_head [OF g] by (auto simp: path_of_def)
  have tr: "(if suffix ''/'' q \<and> path_of segs False \<noteq> ''/'' then path_of segs False @ ''/''
      else path_of segs False) = q"
    using suffix_path_of [OF g, of tr] path_of_eq_root [OF g, of False]
    by (cases "segs = []") (auto simp: q path_of_def)
  have pre: "prefix ''/'' q" by (simp add: q path_of_def)
  have plain: "\<not> list_ex (\<lambda>c. c \<in> {CHR 0x5C, CHR ''?'', CHR ''#''}) q" "\<not> list_ex is_control_char q"
    using safe path_safe_plain by (auto simp: list_ex_iff)
  show ?thesis
    using pre plain quote_id [OF safe]
    by (simp only: canonicalize_path_str_def guardr_def pc bindr_Inr Let_def np nn tr if_False not_True_eq_False simp_thms)
qed

text \<open>
  C6. A path the canonicalizer accepts is mapped to a fixed point: canonicalizing the canonical path
  again succeeds and returns it unchanged, whatever percent-encoding, dot segments, repeated
  slashes and trailing slash the input had.
\<close>

theorem canonicalize_path_fixed_point:
  "canonicalize_path_str p = Inr q \<Longrightarrow> canonicalize_path_str q = Inr q"
  by (rule canonicalize_path_idem)

theorem canonicalize_path_fixed_point_witness:
  "canonicalize_path_str ''/a/./b%7ec/../D%20e/'' = Inr ''/a/D%20e/'' \<and>
   canonicalize_path_str ''/a/D%20e/'' = Inr ''/a/D%20e/''"
proof
  show *: "canonicalize_path_str ''/a/./b%7ec/../D%20e/'' = Inr ''/a/D%20e/''" by code_simp
  show "canonicalize_path_str ''/a/D%20e/'' = Inr ''/a/D%20e/''"
    by (rule canonicalize_path_fixed_point [OF *])
qed

text \<open>
  C7. A canonical path is absolute, consists of safe characters only and contains no dot segment
  and no empty inner segment: between its first slash and its optional last one it is a sequence
  of non-empty segments different from \<open>.\<close> and \<open>..\<close>.
\<close>

theorem canonicalize_path_no_dot_segments:
  assumes "canonicalize_path_str p = Inr q"
  shows "prefix ''/'' q \<and> list_all path_safe q \<and>
    \<not> list_ex (\<lambda>s. s = ''.'' \<or> s = ''..'') (split_on (CHR ''/'') q) \<and>
    [] \<notin> set (butlast (tl (split_on (CHR ''/'') q)))"
proof (intro conjI)
  from assms obtain segs tr where g: "\<forall>s \<in> set segs. good_segment s" and q: "q = path_of segs tr"
    and safe: "\<forall>c \<in> set q. path_safe c"
    by (rule canonicalize_path_shape)
  show "prefix ''/'' q" by (simp add: q path_of_def)
  show "list_all path_safe q" using safe by (simp add: list_all_iff)
  have "set (split_on (CHR ''/'') q) \<subseteq> insert [] (set segs)"
    using split_on_path_of [OF g, of tr] by (cases "segs = []") (auto simp: q path_of_def)
  then show "\<not> list_ex (\<lambda>s. s = ''.'' \<or> s = ''..'') (split_on (CHR ''/'') q)"
    using g by (auto simp: list_ex_iff good_segment_def)
  show "[] \<notin> set (butlast (tl (split_on (CHR ''/'') q)))"
    using split_on_path_of [OF g, of tr] g
    by (cases "segs = []") (auto simp: q path_of_def good_segment_def butlast_append dest: in_set_butlastD)
qed

theorem canonicalize_path_no_dot_segments_witness:
  "canonicalize_path_str ''/x//%2e%2E/x/y'' = Inr ''/x/y'' \<and>
   prefix ''/'' ''/x/y'' \<and> list_all path_safe ''/x/y''"
proof -
  have *: "canonicalize_path_str ''/x//%2e%2E/x/y'' = Inr ''/x/y''" by code_simp
  from canonicalize_path_no_dot_segments [OF this] * show ?thesis by blast
qed

end
