(* ===== verification/Datetime.thy ===== *)
theory Datetime
  imports Json
begin

text \<open>
  Instants and their text. An instant is the number of microseconds since 0001-01-01T00:00:00 UTC;
  the years 1 to 9999 are the representable range and leaving it raises OverflowError, as in
  Python. \<open>fromisoformat\<close>, \<open>isoformat\<close> and the calendar are those of CPython's \<open>datetime\<close>;
  \<open>parse_time\<close> is the function of \<^verbatim>\<open>pentai_policy/document.py\<close> and \<open>timestamp\<close> the
  \<open>_timestamp\<close> helper that every service module repeats. The main result is that a stored
  timestamp is read back as the instant it was written from.
\<close>

section \<open>The proleptic Gregorian calendar\<close>

definition is_leap :: "int \<Rightarrow> bool" where
  "is_leap y \<longleftrightarrow> y mod 4 = 0 \<and> (y mod 100 \<noteq> 0 \<or> y mod 400 = 0)"

definition days_before_year :: "int \<Rightarrow> int" where
  "days_before_year y =
     (let p = y - 1 in p * 365 + p div 4 - p div 100 + p div 400)"

definition month_lengths :: "int list" where
  "month_lengths = [31, 28, 31, 30, 31, 30, 31, 31, 30, 31, 30, 31]"

definition month_offsets :: "int list" where
  "month_offsets = [0, 31, 59, 90, 120, 151, 181, 212, 243, 273, 304, 334]"

definition days_in_month :: "bool \<Rightarrow> nat \<Rightarrow> int" where
  "days_in_month leap m = month_lengths ! (m - 1) + (if m = 2 \<and> leap then 1 else 0)"

definition days_before_month :: "bool \<Rightarrow> nat \<Rightarrow> int" where
  "days_before_month leap m = month_offsets ! (m - 1) + (if m > 2 \<and> leap then 1 else 0)"

definition ymd2ord :: "int \<Rightarrow> nat \<Rightarrow> int \<Rightarrow> int" where
  "ymd2ord y m d = days_before_year y + days_before_month (is_leap y) m + d"

text \<open>The month and day of the \<open>n\<close>-th day of a year, counted from 0.\<close>

definition month_day :: "bool \<Rightarrow> int \<Rightarrow> nat \<times> int" where
  "month_day leap n =
     (let month = nat ((n + 50) div 32);
          preceding = days_before_month leap month
      in if preceding > n
         then (month - 1, n - (preceding - days_in_month leap (month - 1)) + 1)
         else (month, n - preceding + 1))"

definition ord2ymd :: "int \<Rightarrow> int \<times> nat \<times> int" where
  "ord2ymd ord =
     (let n = ord - 1;
          n400 = n div 146097; n = n mod 146097;
          n100 = n div 36524; n = n mod 36524;
          n4 = n div 1461; n = n mod 1461;
          n1 = n div 365; n = n mod 365;
          year = n400 * 400 + 1 + n100 * 100 + n4 * 4 + n1
      in if n1 = 4 \<or> n100 = 4 then (year - 1, 12, 31)
         else (let md = month_day (n1 = 3 \<and> (n4 \<noteq> 24 \<or> n100 = 3)) n
               in (year, fst md, snd md)))"

section \<open>Instants\<close>

type_synonym instant = int

abbreviation us_second :: int where
  "us_second \<equiv> 1000000"

abbreviation us_day :: int where
  "us_day \<equiv> 86400000000"

text \<open>9999-12-31 is day 3652059.\<close>

definition valid_instant :: "instant \<Rightarrow> bool" where
  "valid_instant t \<longleftrightarrow> 0 \<le> t \<and> t < 3652059 * us_day"

definition instant_add :: "instant \<Rightarrow> int \<Rightarrow> instant result" where
  "instant_add t d = (if valid_instant (t + d) then Inr (t + d) else Inl OverflowError)"

text \<open>A datetime without and with an offset; \<open>Aware local offset\<close> in microseconds.\<close>

datatype datetime = Naive int | Aware int int

definition to_utc :: "int \<Rightarrow> int \<Rightarrow> instant result" where
  "to_utc loc off = instant_add loc (- off)"

section \<open>Reading ISO 8601 text\<close>

abbreviation iso_error :: exn where
  "iso_error \<equiv> ValueError ''Invalid isoformat string''"

definition parse_digits :: "nat \<Rightarrow> string \<Rightarrow> int result" where
  "parse_digits k s =
     (if length s = k \<and> 0 < k \<and> list_all is_digit_char s then Inr (int_of_digits s)
      else Inl iso_error)"

definition iso_separator :: "string \<Rightarrow> nat result" where
  "iso_separator s =
     (if length s = 7 then Inr 7
      else if s ! 4 = CHR ''-'' then
        (if s ! 5 = CHR ''W'' then
           (if length s > 8 \<and> s ! 8 = CHR ''-'' then
              (if length s = 9 then Inl iso_error
               else if length s > 10 \<and> is_digit_char (s ! 10) then Inr 8 else Inr 10)
            else Inr 8)
         else Inr 10)
      else if s ! 4 = CHR ''W'' then
        (let idx = 7 + length (takeWhile is_digit_char (drop 7 s))
         in if idx < 9 then Inr idx else if even idx then Inr 7 else Inr 8)
      else Inr 8)"

definition isoweek_ordinal :: "int \<Rightarrow> int \<Rightarrow> int \<Rightarrow> int result" where
  "isoweek_ordinal year week day =
     (let first_day = ymd2ord year 1 1;
          first_weekday = (first_day + 6) mod 7;
          monday = first_day - first_weekday + (if first_weekday > 3 then 7 else 0)
      in if \<not> (1 \<le> year \<and> year \<le> 9999) then Inl iso_error
         else if \<not> (0 < week \<and> week < 53) \<and>
                 \<not> (week = 53 \<and> (first_day mod 7 = 4 \<or> (first_day mod 7 = 3 \<and> is_leap year)))
         then Inl iso_error
         else if \<not> (0 < day \<and> day < 8) then Inl iso_error
         else Inr (monday + (week - 1) * 7 + (day - 1)))"

text \<open>The ordinal of a date text; every date it accepts is a valid calendar date.\<close>

definition parse_iso_date :: "string \<Rightarrow> int result" where
  "parse_iso_date s =
     (if length s \<notin> {7, 8, 10} then Inl iso_error
      else bindr (parse_digits 4 (take 4 s)) (\<lambda>year.
        let has_sep = (s ! 4 = CHR ''-''); pos = (if has_sep then 5 else 4)
        in if take 1 (drop pos s) = ''W'' then
             bindr (parse_digits 2 (take 2 (drop (pos + 1) s))) (\<lambda>week.
               let pos = pos + 3 in
               if length s > pos then
                 (if (take 1 (drop pos s) = ''-'') \<noteq> has_sep then Inl iso_error
                  else bindr (parse_digits 1 (take 1 (drop (if has_sep then pos + 1 else pos) s)))
                         (\<lambda>day. isoweek_ordinal year week day))
               else isoweek_ordinal year week 1)
           else
             bindr (parse_digits 2 (take 2 (drop pos s))) (\<lambda>month.
               let pos = pos + 2 in
               if (take 1 (drop pos s) = ''-'') \<noteq> has_sep then Inl iso_error
               else bindr (parse_digits 2 (take 2 (drop (if has_sep then pos + 1 else pos) s)))
                      (\<lambda>day.
                 if 1 \<le> year \<and> year \<le> 9999 \<and> 1 \<le> month \<and> month \<le> 12 \<and> 1 \<le> day \<and>
                    day \<le> days_in_month (is_leap year) (nat month)
                 then Inr (ymd2ord year (nat month) day) else Inl iso_error))))"

text \<open>\<open>HH[:MM[:SS]]\<close>: the components read and the rest of the text.\<close>

fun hms_loop :: "nat \<Rightarrow> bool \<Rightarrow> string \<Rightarrow> (int list \<times> string) result" where
  "hms_loop ix has_sep s =
     (if length s < 2 then Inl iso_error
      else bindr (parse_digits 2 (take 2 s)) (\<lambda>v.
        let rest = drop 2 s;
            has_sep = (if ix = 0 then take 1 rest = '':'' else has_sep)
        in if rest = [] \<or> ix \<ge> 2 then Inr ([v], rest)
           else if has_sep \<and> take 1 rest \<noteq> '':'' then Inl iso_error
           else bindr (hms_loop (ix + 1) has_sep (if has_sep then drop 1 rest else rest))
                  (\<lambda>(vs, r). Inr (v # vs, r))))"

declare hms_loop.simps [simp del]

definition parse_fraction :: "string \<Rightarrow> int result" where
  "parse_fraction s =
     (case s of
        [] \<Rightarrow> Inr 0
      | c # r \<Rightarrow>
          if c \<noteq> CHR ''.'' \<and> c \<noteq> CHR '','' then Inl iso_error
          else if length r \<ge> 6
          then (if list_all is_digit_char (drop 6 r) then parse_digits 6 (take 6 r)
                else Inl iso_error)
          else mapr (\<lambda>n. n * 10 ^ (6 - length r)) (parse_digits (length r) r))"

text \<open>Hour, minute, second and microsecond of \<open>HH[:MM[:SS[.f+]]]\<close>.\<close>

definition parse_hms :: "string \<Rightarrow> (int \<times> int \<times> int \<times> int) result" where
  "parse_hms s =
     bindr (hms_loop 0 False s) (\<lambda>(vs, r).
     bindr (parse_fraction r) (\<lambda>us.
       let vs = vs @ [0, 0] in Inr (vs ! 0, vs ! 1, vs ! 2, us)))"

definition time_us :: "int \<times> int \<times> int \<times> int \<Rightarrow> int" where
  "time_us c = (case c of (h, m, s, us) \<Rightarrow> ((h * 60 + m) * 60 + s) * us_second + us)"

definition is_tz_mark :: "char \<Rightarrow> bool" where
  "is_tz_mark c \<longleftrightarrow> c = CHR ''+'' \<or> c = CHR ''-'' \<or> c = CHR ''Z''"

text \<open>The time of day and the offset, if there is one.\<close>

definition parse_iso_time :: "string \<Rightarrow> ((int \<times> int \<times> int \<times> int) \<times> int option) result" where
  "parse_iso_time s =
     (let body = takeWhile (\<lambda>c. \<not> is_tz_mark c) s; tz = dropWhile (\<lambda>c. \<not> is_tz_mark c) s
      in if length s < 2 then Inl iso_error
         else bindr (parse_hms body) (\<lambda>hms.
           case tz of
             [] \<Rightarrow> Inr (hms, None)
           | c # tzstr \<Rightarrow>
               if c = CHR ''Z'' then (if tzstr = [] then Inr (hms, Some 0) else Inl iso_error)
               else if length tzstr \<in> {0, 1, 3} then Inl iso_error
               else bindr (parse_hms tzstr) (\<lambda>off.
                 if time_us off < us_day
                 then Inr (hms, Some (if c = CHR ''-'' then - time_us off else time_us off))
                 else Inl iso_error)))"

definition fromisoformat :: "string \<Rightarrow> datetime result" where
  "fromisoformat s =
     (if length s < 7 then Inl iso_error
      else bindr (iso_separator s) (\<lambda>sep.
        bindr (parse_iso_date (take sep s)) (\<lambda>ord.
          let tstr = drop (sep + 1) s; date = (ord - 1) * us_day
          in if tstr = [] then Inr (Naive date)
             else bindr (parse_iso_time tstr) (\<lambda>((h, m, sec, us), tz).
               if h < 24 \<and> m < 60 \<and> sec < 60
               then Inr (case tz of None \<Rightarrow> Naive (date + time_us (h, m, sec, us))
                         | Some off \<Rightarrow> Aware (date + time_us (h, m, sec, us)) off)
               else Inl iso_error))))"

text \<open>\<open>parse_time\<close>: an offset is required, the result is in UTC.\<close>

definition parse_time_str :: "string \<Rightarrow> instant result" where
  "parse_time_str s =
     bindr (fromisoformat (replace_char (CHR ''Z'') ''+00:00'' s)) (\<lambda>d.
       case d of Naive _ \<Rightarrow> Inl (ValueError ''timestamp must include an offset'')
       | Aware loc off \<Rightarrow> to_utc loc off)"

text \<open>On a value that is not text, \<open>value.replace\<close> has no such attribute.\<close>

definition parse_time :: "json \<Rightarrow> instant result" where
  "parse_time v = (case v of JStr s \<Rightarrow> parse_time_str s | _ \<Rightarrow> Inl AttributeError)"

section \<open>Writing timestamps\<close>

text \<open>
  \<open>value.astimezone(UTC).isoformat().replace("+00:00", "Z")\<close>; the offset occurs once, at the end.
\<close>

definition timestamp :: "instant \<Rightarrow> string" where
  "timestamp t =
     (let (y, m, d) = ord2ymd (t div us_day + 1); r = t mod us_day; us = r mod us_second;
          s = r div us_second
      in pad_digits 4 y @ ''-'' @ pad_digits 2 (int m) @ ''-'' @ pad_digits 2 d @ ''T'' @
         pad_digits 2 (s div 3600) @ '':'' @ pad_digits 2 (s div 60 mod 60) @ '':'' @
         pad_digits 2 (s mod 60) @
         (if us = 0 then [] else ''.'' @ pad_digits 6 us) @ ''Z'')"

text \<open>\<open>isoformat(timespec="microseconds")\<close> writes the fraction always.\<close>

definition timestamp_us :: "instant \<Rightarrow> string" where
  "timestamp_us t =
     (let (y, m, d) = ord2ymd (t div us_day + 1); r = t mod us_day; us = r mod us_second;
          s = r div us_second
      in pad_digits 4 y @ ''-'' @ pad_digits 2 (int m) @ ''-'' @ pad_digits 2 d @ ''T'' @
         pad_digits 2 (s div 3600) @ '':'' @ pad_digits 2 (s div 60 mod 60) @ '':'' @
         pad_digits 2 (s mod 60) @ ''.'' @ pad_digits 6 us @ ''Z'')"

definition date_text :: "int \<Rightarrow> nat \<Rightarrow> int \<Rightarrow> string" where
  "date_text y m d = pad_digits 4 y @ ''-'' @ pad_digits 2 (int m) @ ''-'' @ pad_digits 2 d"

definition time_text :: "int \<Rightarrow> int \<Rightarrow> int \<Rightarrow> string \<Rightarrow> string" where
  "time_text h m s f = pad_digits 2 h @ '':'' @ pad_digits 2 m @ '':'' @ pad_digits 2 s @ f"

section \<open>The calendar is inverted by its ordinal\<close>

lemma month_cases: "1 \<le> m \<Longrightarrow> m \<le> 12 \<Longrightarrow> m = 1 \<or> m = 2 \<or> m = 3 \<or> m = 4 \<or> m = 5 \<or> m = 6 \<or> m = 7 \<or> m = 8 \<or> m = 9 \<or> m = 10 \<or> m = 11 \<or> m = (12::nat)"
  by arith

lemma days_before_month_simps:
  "days_before_month l 1 = 0" "days_before_month l (Suc 0) = 0" "days_before_month l 2 = 31"
  "days_before_month l 3 = 59 + of_bool l" "days_before_month l 4 = 90 + of_bool l"
  "days_before_month l 5 = 120 + of_bool l" "days_before_month l 6 = 151 + of_bool l"
  "days_before_month l 7 = 181 + of_bool l" "days_before_month l 8 = 212 + of_bool l"
  "days_before_month l 9 = 243 + of_bool l" "days_before_month l 10 = 273 + of_bool l"
  "days_before_month l 11 = 304 + of_bool l" "days_before_month l 12 = 334 + of_bool l"
  by (simp_all add: days_before_month_def month_offsets_def)

lemma days_in_month_simps:
  "days_in_month l 1 = 31" "days_in_month l (Suc 0) = 31" "days_in_month l 2 = 28 + of_bool l"
  "days_in_month l 3 = 31" "days_in_month l 4 = 30" "days_in_month l 5 = 31" "days_in_month l 6 = 30"
  "days_in_month l 7 = 31" "days_in_month l 8 = 31" "days_in_month l 9 = 30"
  "days_in_month l 10 = 31" "days_in_month l 11 = 30" "days_in_month l 12 = 31"
  by (simp_all add: days_in_month_def month_lengths_def)

lemma month_day_correct:
  assumes n: "0 \<le> n" "n < 365 + of_bool leap" and md: "month_day leap n = (m, d)"
  shows "1 \<le> m \<and> m \<le> 12 \<and> 1 \<le> d \<and> d \<le> days_in_month leap m \<and> days_before_month leap m + d = n + 1"
proof -
  define q where "q = nat ((n + 50) div 32)"
  have q: "32 * int q \<le> n + 50" "n + 50 < 32 * int q + 32"
    using n by (auto simp: q_def)
  have "1 \<le> q" "q \<le> 12" using n q by (auto split: if_splits simp: of_bool_def)
  from month_cases [OF this] show ?thesis
    using md q n unfolding month_day_def Let_def q_def [symmetric]
    by (elim disjE; simp add: days_before_month_simps days_in_month_simps of_bool_def split: if_splits; auto simp: days_before_month_simps days_in_month_simps)
qed

lemma year_decomposition:
  assumes "0 \<le> b" "b \<le> 3" "0 \<le> c" "c \<le> 24" "0 \<le> d" "d \<le> (3::int)"
  shows "(400 * a + 100 * b + 4 * c + d) div 4 = 100 * a + 25 * b + c"
    and "(400 * a + 100 * b + 4 * c + d) div 100 = 4 * a + b"
    and "(400 * a + 100 * b + 4 * c + d) div 400 = a"
proof -
  show "(400 * a + 100 * b + 4 * c + d) div 4 = 100 * a + 25 * b + c"
    using assms by (intro int_div_pos_eq [where r = d]) auto
  show "(400 * a + 100 * b + 4 * c + d) div 100 = 4 * a + b"
    using assms by (intro int_div_pos_eq [where r = "4 * c + d"]) auto
  show "(400 * a + 100 * b + 4 * c + d) div 400 = a"
    using assms by (intro int_div_pos_eq [where r = "100 * b + 4 * c + d"]) auto
qed

lemma days_before_year_decomposed:
  assumes "0 \<le> b" "b \<le> 3" "0 \<le> c" "c \<le> 24" "0 \<le> d" "d \<le> (3::int)"
  shows "days_before_year (400 * a + 100 * b + 4 * c + d + 1) = 146097 * a + 36524 * b + 1461 * c + 365 * d"
  using year_decomposition [OF assms] by (simp add: days_before_year_def Let_def)

lemma is_leap_decomposed:
  assumes "0 \<le> b" "b \<le> 3" "0 \<le> c" "c \<le> 24" "0 \<le> d" "d \<le> (3::int)"
  shows "is_leap (400 * a + 100 * b + 4 * c + d + 1) \<longleftrightarrow> d = 3 \<and> (c \<noteq> 24 \<or> b = 3)"
proof (cases "d = 3")
  case False
  have "(400 * a + 100 * b + 4 * c + d + 1) mod 4 = d + 1"
    using assms False by (intro int_mod_pos_eq [where q = "100 * a + 25 * b + c"]) auto
  with False assms show ?thesis by (simp add: is_leap_def)
next
  case d: True
  have 4: "(400 * a + 100 * b + 4 * c + d + 1) mod 4 = 0"
    using d by (intro int_mod_pos_eq [where q = "100 * a + 25 * b + c + 1"]) auto
  show ?thesis
  proof (cases "c = 24")
    case False
    have "(400 * a + 100 * b + 4 * c + d + 1) mod 100 = 4 * c + 4"
      using assms d False by (intro int_mod_pos_eq [where q = "4 * a + b"]) auto
    with False assms d 4 show ?thesis by (simp add: is_leap_def)
  next
    case c: True
    have 100: "(400 * a + 100 * b + 4 * c + d + 1) mod 100 = 0"
      using c d by (intro int_mod_pos_eq [where q = "4 * a + b + 1"]) auto
    have "(400 * a + 100 * b + 4 * c + d + 1) mod 400 = (if b = 3 then 0 else 100 * b + 100)"
      using assms c d
      by (intro int_mod_pos_eq [where q = "if b = 3 then a + 1 else a"]) auto
    with 4 100 c d assms show ?thesis by (auto simp: is_leap_def)
  qed
qed

lemma ymd2ord_decomposed:
  assumes "0 \<le> b" "b \<le> 3" "0 \<le> c" "c \<le> 24" "0 \<le> e" "e \<le> (3::int)"
  shows "ymd2ord (400 * a + 100 * b + 4 * c + e + 1) m d =
    146097 * a + 36524 * b + 1461 * c + 365 * e +
    days_before_month (e = 3 \<and> (c \<noteq> 24 \<or> b = 3)) m + d"
  by (simp add: ymd2ord_def days_before_year_decomposed [OF assms] is_leap_decomposed [OF assms])

lemma last_day_of_cycle:
  assumes "0 \<le> a" "a \<le> 24" "0 \<le> b" "b \<le> 3" "0 \<le> c" "c \<le> (24::int)" and l: "c \<noteq> 24 \<or> b = 3"
    and y: "y = 400 * a + 100 * b + 4 * c + 3 + 1"
    and lim: "146097 * a + 36524 * b + 1461 * c + 1461 \<le> 3652059"
  shows "1 \<le> y \<and> y \<le> 9999" and "31 \<le> days_in_month (is_leap y) 12"
    and "ymd2ord y 12 31 = 146097 * a + 36524 * b + 1461 * c + 1461"
proof -
  show "1 \<le> y \<and> y \<le> 9999" using assms by auto
  show "31 \<le> days_in_month (is_leap y) 12" by (simp add: days_in_month_simps)
  show "ymd2ord y 12 31 = 146097 * a + 36524 * b + 1461 * c + 1461"
    unfolding y using assms by (subst ymd2ord_decomposed) (auto simp: days_before_month_simps)
qed

theorem ord2ymd_correct:
  assumes n: "1 \<le> n" "n \<le> 3652059" and o: "ord2ymd n = (y, m, d)"
  shows "1 \<le> y \<and> y \<le> 9999 \<and> 1 \<le> m \<and> m \<le> 12 \<and> 1 \<le> d \<and> d \<le> days_in_month (is_leap y) m"
    and "ymd2ord y m d = n"
proof -
  define a r1 where "a = (n - 1) div 146097" and "r1 = (n - 1) mod 146097"
  define b r2 where "b = r1 div 36524" and "r2 = r1 mod 36524"
  define c r3 where "c = r2 div 1461" and "r3 = r2 mod 1461"
  define e r4 where "e = r3 div 365" and "r4 = r3 mod 365"
  note defs = a_def r1_def b_def r2_def c_def r3_def e_def r4_def
  have eqs: "n - 1 = 146097 * a + r1" "r1 = 36524 * b + r2" "r2 = 1461 * c + r3" "r3 = 365 * e + r4"
    and nn: "0 \<le> r1" "r1 < 146097" "0 \<le> r2" "r2 < 36524" "0 \<le> r3" "r3 < 1461" "0 \<le> r4" "r4 < 365"
    unfolding defs by simp_all
  have a: "0 \<le> a" "a \<le> 24" and b: "0 \<le> b" "b \<le> 4" and c: "0 \<le> c" "c \<le> 24" and e: "0 \<le> e" "e \<le> 4"
    using eqs nn n by linarith+
  have unf: "ord2ymd n = (let year = a * 400 + 1 + b * 100 + c * 4 + e in
      if e = 4 \<or> b = 4 then (year - 1, 12, 31)
      else (year, fst (month_day (e = 3 \<and> (c \<noteq> 24 \<or> b = 3)) r4), snd (month_day (e = 3 \<and> (c \<noteq> 24 \<or> b = 3)) r4)))"
    unfolding ord2ymd_def Let_def defs ..
  have "(1 \<le> y \<and> y \<le> 9999 \<and> 1 \<le> m \<and> m \<le> 12 \<and> 1 \<le> d \<and> d \<le> days_in_month (is_leap y) m) \<and>
    ymd2ord y m d = n"
  proof (cases "e = 4 \<or> b = 4")
    case True
    define b' c' where "b' = (if b = 4 then 3 else b)" and "c' = (if b = 4 then 24 else c)"
    have z: "b = 4 \<Longrightarrow> c = 0 \<and> e = 0 \<and> r4 = 0" using eqs nn b c e by auto
    have z': "e = 4 \<Longrightarrow> r4 = 0" using eqs nn by auto
    have l: "c' \<noteq> 24 \<or> b' = 3" using True eqs nn z by (auto simp: b'_def c'_def)
    have md: "y = 400 * a + 100 * b' + 4 * c' + 3 + 1" "m = 12" "d = 31"
      using o True z unfolding unf Let_def by (auto simp: b'_def c'_def)
    have nl: "n = 146097 * a + 36524 * b' + 1461 * c' + 1461"
      using True z z' eqs by (auto simp: b'_def c'_def)
    have bd: "0 \<le> b'" "b' \<le> 3" "0 \<le> c'" "c' \<le> 24" using b c by (auto simp: b'_def c'_def)
    note last_day_of_cycle [OF a bd l md(1)]
    with nl n(2) md show ?thesis by auto
  next
    case False
    let ?l = "e = 3 \<and> (c \<noteq> 24 \<or> b = 3)"
    from False b e have be: "b \<le> 3" "e \<le> 3" by auto
    obtain m' d' where md: "month_day ?l r4 = (m', d')" by fastforce
    have y: "y = 400 * a + 100 * b + 4 * c + e + 1" "m = m'" "d = d'"
      using o False md unfolding unf Let_def by auto
    have lp: "is_leap y \<longleftrightarrow> ?l" unfolding y using b c e be by (intro is_leap_decomposed) auto
    have "r4 < 365 + of_bool ?l" using nn by auto
    from month_day_correct [OF nn(7) this md] y(2,3)
    have *: "1 \<le> m" "m \<le> 12" "1 \<le> d" "d \<le> days_in_month ?l m" "days_before_month ?l m + d = r4 + 1"
      by auto
    have "ymd2ord y m d = n" unfolding y(1) using b c e be *(5) eqs
      by (subst ymd2ord_decomposed) auto
    moreover have "1 \<le> y" "y \<le> 9999" using y(1) a b c e be eqs nn n by linarith+
    ultimately show ?thesis using * lp by simp
  qed
  then show "1 \<le> y \<and> y \<le> 9999 \<and> 1 \<le> m \<and> m \<le> 12 \<and> 1 \<le> d \<and> d \<le> days_in_month (is_leap y) m"
    and "ymd2ord y m d = n" by auto
qed
section \<open>Reading back what was written\<close>

lemma of_char_digit_char [simp]: "0 \<le> n \<Longrightarrow> n < 10 \<Longrightarrow> of_char (digit_char n) = 48 + n"
  by (simp add: digit_char_def)

lemma code_digit_char [simp]: "0 \<le> n \<Longrightarrow> n < 10 \<Longrightarrow> code (digit_char n) = nat (48 + n)"
  using of_char_digit_char [of n] by (metis nat_int of_nat_of_char)

lemma is_digit_digit_char [simp]: "0 \<le> n \<Longrightarrow> n < 10 \<Longrightarrow> is_digit_char (digit_char n)"
  by (auto simp: is_digit_char_def nat_le_iff le_nat_iff)

lemma digit_value_digit_char [simp]: "0 \<le> n \<Longrightarrow> n < 10 \<Longrightarrow> digit_value (digit_char n) = n"
  by (simp add: digit_value_def)

lemma length_pad_digits [simp]: "length (pad_digits w n) = w"
  by (induction w arbitrary: n) auto

lemma pad_digits_digits: "c \<in> set (pad_digits w n) \<Longrightarrow> is_digit_char c"
  by (induction w arbitrary: n) auto

lemma int_of_digits_snoc: "int_of_digits (s @ [c]) = 10 * int_of_digits s + digit_value c"
  by (simp add: int_of_digits_def)

lemma int_of_digits_pad: "int_of_digits (pad_digits w n) = n mod 10 ^ w"
proof (induction w arbitrary: n)
  case 0
  show ?case by (simp add: int_of_digits_def)
next
  case (Suc w)
  have "n mod 10 ^ Suc w = 10 * (n div 10 mod 10 ^ w) + n mod 10"
    by (simp add: zmod_zmult2_eq)
  with Suc show ?case by (simp add: int_of_digits_snoc)
qed

lemma parse_digits_pad [simp]:
  "0 < w \<Longrightarrow> 0 \<le> n \<Longrightarrow> n < 10 ^ w \<Longrightarrow> parse_digits w (pad_digits w n) = Inr n"
  by (auto simp: parse_digits_def list_all_iff pad_digits_digits int_of_digits_pad)

lemma digit_not_mark: "is_digit_char c \<Longrightarrow> \<not> is_tz_mark c" "is_digit_char c \<Longrightarrow> c \<noteq> CHR ''Z''"
  "is_digit_char c \<Longrightarrow> c \<noteq> CHR ''-''" "is_digit_char c \<Longrightarrow> c \<noteq> CHR ''W''"
  by (auto simp: is_digit_char_def is_tz_mark_def)

lemma no_Z_pad [simp]: "CHR ''Z'' \<notin> set (pad_digits w n)"
  using pad_digits_digits [of "CHR ''Z''" w n] by (auto simp: is_digit_char_def)

lemma hms_loop_pad:
  assumes "0 \<le> h" "h < 100" "0 \<le> m" "m < 100" "0 \<le> s" "s < 100"
  shows "hms_loop 0 False (pad_digits 2 h @ '':'' @ pad_digits 2 m @ '':'' @ pad_digits 2 s @ r) =
    Inr ([h, m, s], r)"
  using assms
  by (simp add: hms_loop.simps [of 0] hms_loop.simps [of "Suc 0"] hms_loop.simps [of "Suc (Suc 0)"])

lemma parse_fraction_pad:
  assumes "0 \<le> us" "us < 1000000"
  shows "parse_fraction (if us = 0 then [] else ''.'' @ pad_digits 6 us) = Inr us"
    and "parse_fraction (CHR ''.'' # pad_digits 6 us) = Inr us"
  using assms by (auto simp: parse_fraction_def)

lemma parse_iso_time_text:
  assumes "0 \<le> h" "h < 100" "0 \<le> m" "m < 100" "0 \<le> s" "s < 100" and "parse_fraction f = Inr us"
    and f: "\<forall>c \<in> set f. \<not> is_tz_mark c"
  shows "parse_iso_time (time_text h m s f @ ''+00:00'') = Inr ((h, m, s, us), Some 0)"
proof -
  have nm: "\<forall>c \<in> set (time_text h m s f). \<not> is_tz_mark c"
    using f by (auto simp: time_text_def dest: pad_digits_digits digit_not_mark(1))
       (simp_all add: is_tz_mark_def)
  have plus: "is_tz_mark (CHR ''+'')" by (simp add: is_tz_mark_def)
  have tw: "takeWhile (\<lambda>c. \<not> is_tz_mark c) (time_text h m s f @ ''+00:00'') = time_text h m s f"
    and dw: "dropWhile (\<lambda>c. \<not> is_tz_mark c) (time_text h m s f @ ''+00:00'') = ''+00:00''"
    using nm plus by (simp_all add: takeWhile_append2 dropWhile_append2)
  have p: "parse_hms (time_text h m s f) = Inr (h, m, s, us)"
    using assms by (simp add: parse_hms_def time_text_def hms_loop_pad [simplified] Let_def)
  have z: "parse_hms ''00:00'' = Inr (0, 0, 0, 0)"
    by code_simp
  have "length (time_text h m s f @ ''+00:00'') \<ge> 2" by (simp add: time_text_def)
  with tw dw p z show ?thesis
    by (simp add: parse_iso_time_def Let_def time_us_def del: append.simps)
qed

lemma date_text_props:
  "length (date_text y m d) = 10" "date_text y m d ! 4 = CHR ''-''" "date_text y m d ! 5 \<noteq> CHR ''W''"
proof -
  show "length (date_text y m d) = 10" "date_text y m d ! 4 = CHR ''-''"
    by (simp_all add: date_text_def nth_append)
  have "pad_digits 2 (int m) ! 0 \<in> set (pad_digits 2 (int m))" by (intro nth_mem) simp
  then have "pad_digits 2 (int m) ! 0 \<noteq> CHR ''W''"
    by (intro digit_not_mark(4) pad_digits_digits)
  then show "date_text y m d ! 5 \<noteq> CHR ''W''" by (simp add: date_text_def nth_append)
qed

lemma parse_iso_date_text:
  assumes "1 \<le> y" "y \<le> 9999" "1 \<le> m" "m \<le> 12" "1 \<le> d" "d \<le> days_in_month (is_leap y) m"
  shows "parse_iso_date (date_text y m d) = Inr (ymd2ord y m d)"
proof -
  have "d \<le> 31"
    using assms(3,4,6) month_cases [OF assms(3,4)] by (auto simp: days_in_month_simps of_bool_def split: if_splits)
  then have d: "d < 100" by simp
  have "pad_digits 2 (int m) \<noteq> []"
    using length_pad_digits [of 2 "int m"] by (metis list.size(3) zero_neq_numeral)
  then obtain c cs where p: "pad_digits 2 (int m) = c # cs" by (cases "pad_digits 2 (int m)") auto
  then have "is_digit_char c" using pad_digits_digits [of c 2 "int m"] by simp
  then have w: "c \<noteq> CHR ''W''" by (rule digit_not_mark)
  have t1: "take (Suc 0) (drop 5 (date_text y m d)) \<noteq> ''W''"
    using p w by (simp add: date_text_def)
  have t2: "take 4 (date_text y m d) = pad_digits 4 y"
    "take 2 (drop 5 (date_text y m d)) = pad_digits 2 (int m)"
    "take (Suc 0) (drop 7 (date_text y m d)) = ''-''"
    "take 2 (drop 8 (date_text y m d)) = pad_digits 2 d"
    by (simp_all add: date_text_def)
  show ?thesis
    using assms d t1 t2 by (simp add: parse_iso_date_def date_text_props Let_def)
qed

lemma fromisoformat_text:
  assumes "1 \<le> y" "y \<le> 9999" "1 \<le> m" "m \<le> 12" "1 \<le> d" "d \<le> days_in_month (is_leap y) m"
    and "0 \<le> h" "h < 24" "0 \<le> mi" "mi < 60" "0 \<le> s" "s < 60" and "parse_fraction f = Inr us"
    and "\<forall>c \<in> set f. \<not> is_tz_mark c"
  shows "fromisoformat (date_text y m d @ ''T'' @ time_text h mi s f @ ''+00:00'') =
    Inr (Aware ((ymd2ord y m d - 1) * us_day + time_us (h, mi, s, us)) 0)"
proof -
  let ?s = "date_text y m d @ ''T'' @ time_text h mi s f @ ''+00:00''"
  have "iso_separator ?s = Inr 10"
    using date_text_props [of y m d] by (simp add: iso_separator_def nth_append)
  moreover have "take 10 ?s = date_text y m d" "drop (10 + 1) ?s = time_text h mi s f @ ''+00:00''"
    using date_text_props(1) [of y m d] by simp_all
  moreover have "length ?s \<ge> 7" using date_text_props(1) [of y m d] by simp
  moreover have "parse_iso_time (time_text h mi s f @ ''+00:00'') = Inr ((h, mi, s, us), Some 0)"
    using assms by (intro parse_iso_time_text) auto
  ultimately show ?thesis
    using parse_iso_date_text [OF assms(1-6)] assms(7-12) date_text_props(1) [of y m d]
    by (simp add: fromisoformat_def Let_def del: drop_append take_append append.simps)
qed

lemma replace_char_end: "c \<notin> set s \<Longrightarrow> replace_char c r (s @ [c]) = s @ r"
  by (induction s) (auto simp: replace_char_def)

lemma parse_time_text:
  assumes t: "valid_instant t" and o: "ord2ymd (t div us_day + 1) = (y, m, d)"
    and r: "r = t mod us_day" and f: "parse_fraction f = Inr (r mod us_second)"
    and fd: "\<forall>c \<in> set f. is_digit_char c \<or> c = CHR ''.''"
  shows "parse_time_str (date_text y m d @ ''T'' @
    time_text (r div us_second div 3600) (r div us_second div 60 mod 60)
      (r div us_second mod 60) f @ ''Z'') = Inr t"
proof -
  have day: "1 \<le> t div us_day + 1" "t div us_day + 1 \<le> 3652059"
    using t by (auto simp: valid_instant_def)
  note ymd = ord2ymd_correct [OF day o]
  have r0: "0 \<le> r" "r < us_day" using r by simp_all
  let ?h = "r div us_second div 3600" and ?mi = "r div us_second div 60 mod 60"
  let ?s = "r div us_second mod 60" and ?us = "r mod us_second"
  have hms: "0 \<le> ?h" "?h < 24" "0 \<le> ?mi" "?mi < 60" "0 \<le> ?s" "?s < 60"
    using r0 by (auto simp: pos_imp_zdiv_nonneg_iff)
  let ?body = "date_text y m d @ ''T'' @ time_text ?h ?mi ?s f"
  have nz: "CHR ''Z'' \<notin> set ?body"
    using fd by (auto simp: date_text_def time_text_def is_digit_char_def)
  have marks: "\<forall>c \<in> set f. \<not> is_tz_mark c"
    using fd digit_not_mark(1) by (auto simp: is_tz_mark_def)
  have tu: "time_us (?h, ?mi, ?s, ?us) = r"
  proof -
    define q where "q = r div us_second"
    have q: "0 \<le> q" using r0 by (simp add: q_def)
    have "q div 3600 = q div 60 div 60" by (simp flip: zdiv_zmult2_eq)
    then have "(q div 3600 * 60 + q div 60 mod 60) * 60 + q mod 60 = q" by simp
    moreover have "r = q * us_second + r mod us_second" by (simp add: q_def)
    ultimately show ?thesis using r0 q unfolding time_us_def q_def [symmetric]
      by (simp add: pos_imp_zdiv_nonneg_iff)
  qed
  have ok: "1 \<le> y" "y \<le> 9999" "1 \<le> m" "m \<le> 12" "1 \<le> d" "d \<le> days_in_month (is_leap y) m"
    using ymd(1) by auto
  have "fromisoformat (?body @ ''+00:00'') =
      Inr (Aware ((ymd2ord y m d - 1) * us_day + time_us (?h, ?mi, ?s, ?us)) 0)"
    using fromisoformat_text [OF ok hms f marks] by (simp only: append_assoc)
  also have "(ymd2ord y m d - 1) * us_day + time_us (?h, ?mi, ?s, ?us) = t"
    using ymd(2) r unfolding tu by simp
  finally have "fromisoformat (?body @ ''+00:00'') = Inr (Aware t 0)" .
  moreover have "replace_char (CHR ''Z'') ''+00:00'' (?body @ ''Z'') = ?body @ ''+00:00''"
    using replace_char_end [OF nz] by simp
  ultimately have "parse_time_str (?body @ ''Z'') = Inr t"
    using t by (simp add: parse_time_str_def to_utc_def instant_add_def)
  then show ?thesis by simp
qed

theorem parse_time_timestamp:
  assumes t: "valid_instant t"
  shows "parse_time_str (timestamp t) = Inr t" and "parse_time_str (timestamp_us t) = Inr t"
proof -
  obtain y m d where o: "ord2ymd (t div us_day + 1) = (y, m, d)" using prod_cases3 by blast
  define r where "r = t mod us_day"
  let ?us = "r mod us_second"
  have us: "0 \<le> ?us" "?us < 1000000" by auto
  have fd: "\<forall>c \<in> set (pad_digits 6 ?us). is_digit_char c" using pad_digits_digits by blast
  have "timestamp t = date_text y m d @ ''T'' @
    time_text (r div us_second div 3600) (r div us_second div 60 mod 60)
      (r div us_second mod 60) (if ?us = 0 then [] else ''.'' @ pad_digits 6 ?us) @ ''Z''"
    unfolding timestamp_def o date_text_def time_text_def r_def [symmetric] Let_def by simp
  then show "parse_time_str (timestamp t) = Inr t"
    using parse_time_text [OF t o r_def parse_fraction_pad(1) [OF us]] fd by simp
  have "timestamp_us t = date_text y m d @ ''T'' @
    time_text (r div us_second div 3600) (r div us_second div 60 mod 60)
      (r div us_second mod 60) (CHR ''.'' # pad_digits 6 ?us) @ ''Z''"
    unfolding timestamp_us_def o date_text_def time_text_def r_def [symmetric] Let_def by simp
  then show "parse_time_str (timestamp_us t) = Inr t"
    using parse_time_text [OF t o r_def parse_fraction_pad(2) [OF us]] fd by simp
qed

end
