(* ===== verification/Document.thy ===== *)
theory Document
  imports Canonicalize Datetime
begin

text \<open>
  \<^verbatim>\<open>packages/policy/src/pentai_policy/document.py\<close>: contract issues and the validator that
  canonicalizes an engagement manifest. The validator is one long function in the source; here each
  of its blocks is a definition, in the order of the source, and the last one composes them.

  Parameters, collected in the record \<open>policy_env\<close>: the digest library, the \<open>idna\<close> package, the
  \<open>jsonschema\<close> validator (the errors it yields for a schema and a document), the time zone database
  (\<open>ZoneInfo(key)\<close>, which may raise), the product of two floats and the text of CPython's TypeErrors. Iteration over a Python
  set, whose order the language leaves open, is in order of first occurrence.

  Results: a manifest found valid has no issue at all, no unresolved question, and all its allow
  assets have verified ownership, an explicit port, canonical paths and a unique identity; the
  capability effects are disjoint and the authorization window contains the present instant.
\<close>

section \<open>Environment and issues\<close>

text \<open>
  A time zone: the offset from UTC, in microseconds, at an instant, and of a wall clock time for
  each value of \<open>fold\<close>.
\<close>

record zone =
  utc_offset :: "instant \<Rightarrow> int"
  wall_offset :: "int \<Rightarrow> bool \<Rightarrow> int"

text \<open>An error of the schema validator: the text of its path, the parts of the path, the message.\<close>

record schema_error =
  err_path_text :: string
  err_path :: "string list"
  err_message :: string

record policy_env = hashing +
  idna_encode :: idna
  iter_errors :: "string \<Rightarrow> json \<Rightarrow> schema_error list"
  zone_info :: "string \<Rightarrow> zone result"
  float_times :: "rat \<Rightarrow> rat \<Rightarrow> rat"
  type_error_text :: string

record validation_issue =
  issue_code :: string
  issue_path :: string
  issue_message :: string
  issue_severity :: string

definition issue :: "string \<Rightarrow> string \<Rightarrow> string \<Rightarrow> validation_issue" where
  "issue c p m = \<lparr>issue_code = c, issue_path = p, issue_message = m, issue_severity = ''error''\<rparr>"

definition issue_as_dict :: "validation_issue \<Rightarrow> json" where
  "issue_as_dict i =
     JObj [(''code'', JStr (issue_code i)), (''path'', JStr (issue_path i)),
           (''message'', JStr (issue_message i)), (''severity'', JStr (issue_severity i))]"

record manifest_validation =
  mv_document :: "dict option"
  mv_issues :: "validation_issue list"

definition mv_valid :: "manifest_validation \<Rightarrow> bool" where
  "mv_valid v \<longleftrightarrow>
     mv_document v \<noteq> None \<and> \<not> list_ex (\<lambda>i. issue_severity i = ''error'') (mv_issues v)"

definition contract_issues :: "policy_env \<Rightarrow> json \<Rightarrow> string \<Rightarrow> validation_issue list" where
  "contract_issues env document schema_name =
     map (\<lambda>e. issue ''CONTRACT_INVALID'' (''/'' @ join_with ''/'' (err_path e)) (err_message e))
       (sort_key err_path_text (iter_errors env schema_name document))"

abbreviation nat_text :: "nat \<Rightarrow> string" where
  "nat_text n \<equiv> decimal (int n)"

definition dict_default :: "dict \<Rightarrow> string \<Rightarrow> json \<Rightarrow> json" where
  "dict_default d k v = (case map_of d k of None \<Rightarrow> v | Some x \<Rightarrow> x)"

text \<open>\<open>v in ids\<close> on a set of strings; an unhashable value raises.\<close>

definition in_ids :: "json \<Rightarrow> string list \<Rightarrow> bool result" where
  "in_ids v ids =
     (if hashable v then Inr (case v of JStr s \<Rightarrow> s \<in> set ids | _ \<Rightarrow> False) else Inl TypeError)"

definition supported_capabilities :: "string list" where
  "supported_capabilities = [''network.http.get'', ''network.http.head'', ''network.http.options'']"

definition supported_capabilities_v3 :: "string list" where
  "supported_capabilities_v3 = supported_capabilities @ [''ai.local.generate'']"

definition capability_method :: "json \<Rightarrow> json" where
  "capability_method c =
     (if c = JStr ''network.http.get'' then JStr ''GET''
      else if c = JStr ''network.http.head'' then JStr ''HEAD''
      else if c = JStr ''network.http.options'' then JStr ''OPTIONS''
      else JNull)"

definition path_contains :: "string \<Rightarrow> string \<Rightarrow> bool" where
  "path_contains parent child =
     (let parent = (if rstrip (\<lambda>c. c = CHR ''/'') parent = [] then ''/''
                    else rstrip (\<lambda>c. c = CHR ''/'') parent)
      in parent = ''/'' \<or> child = parent \<or> prefix (parent @ ''/'') child)"

section \<open>Questions, sources and provenance\<close>

definition required_fields :: "string list" where
  "required_fields =
     [''schema_version'', ''engagement'', ''sources'', ''scope'', ''techniques'',
      ''operational_limits'', ''network'', ''data_handling'', ''reporting'', ''agent_controls'',
      ''approvals'', ''unresolved_questions'']"

definition missing_fields :: "dict \<Rightarrow> string list" where
  "missing_fields d = sort (filter (\<lambda>f. \<not> dict_has d f) required_fields)"

definition schema_version_issues :: "string \<Rightarrow> dict \<Rightarrow> validation_issue list" where
  "schema_version_issues version d =
     (if dict_get d ''schema_version'' \<noteq> JStr version
      then [issue ''UNSUPPORTED_SCHEMA'' ''/schema_version'' (''Manifest v'' @ version @ '' is required'')]
      else [])"

definition question_issues :: "dict \<Rightarrow> validation_issue list" where
  "question_issues d =
     (case dict_get d ''unresolved_questions'' of
        JList qs \<Rightarrow>
          if qs \<noteq> [] then [issue ''AUTHORIZATION_AMBIGUOUS'' ''/unresolved_questions''
                             ''all authorization questions must be resolved''] else []
      | _ \<Rightarrow> [issue ''UNRESOLVED_QUESTIONS_INVALID'' ''/unresolved_questions'' ''must be an array''])"

type_synonym source_hashes = "(string \<times> string) list option"

record source_scan =
  scan_issues :: "validation_issue list"
  scan_ids :: "string list"
  scan_hashes :: "(string \<times> string) list"

definition source_step :: "source_hashes \<Rightarrow> source_scan \<Rightarrow> nat \<times> json \<Rightarrow> source_scan" where
  "source_step hashes st item =
     (let loc = ''/sources/'' @ nat_text (fst item) in
      case snd item of
        JObj source \<Rightarrow>
          (case (dict_get source ''source_id'', dict_get source ''content_hash'') of
             (JStr source_id, JStr digest) \<Rightarrow>
               st\<lparr>scan_issues := scan_issues st @
                    (if source_id \<in> set (scan_ids st)
                     then [issue ''PROVENANCE_AMBIGUOUS'' (loc @ ''/source_id'')
                             ''a source may be declared only once''] else []) @
                    (if hashes \<noteq> None \<and> map_of (the hashes) source_id \<noteq> Some digest
                     then [issue ''PROVENANCE_HASH_MISMATCH'' (loc @ ''/content_hash'')
                             ''source content no longer matches its recorded hash''] else []),
                  scan_ids := source_id # scan_ids st,
                  scan_hashes := (source_id, digest) # scan_hashes st\<rparr>
           | _ \<Rightarrow> st\<lparr>scan_issues := scan_issues st @
                      [issue ''PROVENANCE_MISSING'' loc ''source id and hash required'']\<rparr>)
      | _ \<Rightarrow> st\<lparr>scan_issues := scan_issues st @ [issue ''PROVENANCE_INVALID'' loc ''must be an object'']\<rparr>)"

definition scan_sources :: "source_hashes \<Rightarrow> dict \<Rightarrow> source_scan" where
  "scan_sources hashes d =
     (let empty = \<lparr>scan_issues = [], scan_ids = [], scan_hashes = []\<rparr> in
      case dict_get d ''sources'' of
        JList (s # ss) \<Rightarrow> foldl (source_step hashes) empty (enumerate 0 (s # ss))
      | _ \<Rightarrow> empty\<lparr>scan_issues := [issue ''PROVENANCE_MISSING'' ''/sources'' ''at least one source'']\<rparr>)"

text \<open>\<open>source_hashes.get(str(source_id)) != digest\<close> for an optional map of hashes.\<close>

definition hash_differs :: "(string \<times> string) list \<Rightarrow> string \<Rightarrow> json \<Rightarrow> bool" where
  "hash_differs hashes k digest \<longleftrightarrow>
     (case map_of hashes k of None \<Rightarrow> digest \<noteq> JNull | Some h \<Rightarrow> digest \<noteq> JStr h)"

definition link_step ::
  "policy_env \<Rightarrow> source_hashes \<Rightarrow> string list \<Rightarrow> string \<Rightarrow>
   (string \<times> string) list \<times> validation_issue list \<Rightarrow> nat \<times> json \<Rightarrow>
   ((string \<times> string) list \<times> validation_issue list) result" where
  "link_step env hashes ids field_path st item =
     (let loc = ''/field_provenance/'' @ field_path @ ''/'' @ nat_text (fst item) in
      case snd item of
        JObj link \<Rightarrow>
          (let source_id = dict_get link ''source_id''; digest = dict_get link ''content_hash'';
               key = (py_str (float_repr env) source_id, py_str (float_repr env) digest)
           in bindr (in_ids source_id ids) (\<lambda>known.
              Inr (key # fst st,
                   snd st @
                   (if key \<in> set (fst st)
                    then [issue ''PROVENANCE_AMBIGUOUS'' loc ''duplicate field provenance link''] else []) @
                   (if \<not> known
                    then [issue ''PROVENANCE_MISSING'' (loc @ ''/source_id'')
                            ''must reference a manifest source''] else []) @
                   (if hashes \<noteq> None \<and> hash_differs (the hashes) (fst key) digest
                    then [issue ''PROVENANCE_HASH_MISMATCH'' (loc @ ''/content_hash'')
                            ''field provenance does not match the imported source hash''] else []))))
      | _ \<Rightarrow> Inr st)"

definition field_provenance_issues ::
  "policy_env \<Rightarrow> source_hashes \<Rightarrow> string list \<Rightarrow> dict \<Rightarrow> validation_issue list result" where
  "field_provenance_issues env hashes ids d =
     (case dict_get d ''field_provenance'' of
        JObj provenance \<Rightarrow>
          mapr concat (traverse
            (\<lambda>(field_path, links).
               case links of
                 JList ls \<Rightarrow> mapr snd (foldr_result (link_step env hashes ids field_path) ([], [])
                                        (enumerate 0 ls))
               | _ \<Rightarrow> Inr []) provenance)
      | _ \<Rightarrow> Inr [])"

definition statement_step ::
  "policy_env \<Rightarrow> source_scan \<Rightarrow> (string \<times> string \<times> string) list \<times> validation_issue list \<Rightarrow> nat \<times> json \<Rightarrow>
   ((string \<times> string \<times> string) list \<times> validation_issue list) result" where
  "statement_step env sc st item =
     (let loc = ''/source_statements/'' @ nat_text (fst item); str = py_str (float_repr env) in
      case snd item of
        JObj statement \<Rightarrow>
          (let source_id = dict_get statement ''source_id'';
               digest = dict_get statement ''content_hash'';
               identity = (str source_id, str (dict_get statement ''field_path''),
                           str (dict_get statement ''statement''))
           in bindr (in_ids source_id (scan_ids sc)) (\<lambda>known.
              Inr (identity # fst st,
                   snd st @
                   (if identity \<in> set (fst st)
                    then [issue ''SOURCE_STATEMENT_AMBIGUOUS'' loc ''duplicate source statement''] else []) @
                   (if \<not> known
                    then [issue ''PROVENANCE_MISSING'' (loc @ ''/source_id'')
                            ''must reference a manifest source'']
                    else if hash_differs (scan_hashes sc) (str source_id) digest
                    then [issue ''PROVENANCE_HASH_MISMATCH'' (loc @ ''/content_hash'')
                            ''statement provenance does not match its manifest source''] else []))))
      | _ \<Rightarrow> Inr st)"

definition source_statement_issues ::
  "policy_env \<Rightarrow> source_scan \<Rightarrow> dict \<Rightarrow> validation_issue list result" where
  "source_statement_issues env sc d =
     (case dict_default d ''source_statements'' (JList []) of
        JList ss \<Rightarrow> mapr snd (foldr_result (statement_step env sc) ([], []) (enumerate 0 ss))
      | _ \<Rightarrow> Inr [])"

section \<open>Assets\<close>

text \<open>
  The canonical value of an asset by its type, with the URL it denotes, whether it allows IPv6 and
  the issues about \<open>include_apex\<close>.
\<close>

definition asset_canonical ::
  "policy_env \<Rightarrow> string \<Rightarrow> dict \<Rightarrow>
   (string \<times> canonical_url option \<times> bool \<times> validation_issue list) result" where
  "asset_canonical env loc asset =
     (let asset_type = dict_get asset ''type''; raw = dict_get asset ''canonical_value'';
          allows = (dict_get asset ''effect'' = JStr ''allow'');
          apex = dict_has asset ''include_apex'' in
      if \<not> is_str raw then Inl (canon_error ''canonical value must be a string'')
      else if asset_type = JStr ''domain''
      then bindr (canonicalize_domain (idna_encode env) raw) (\<lambda>canonical.
             Inr (canonical, None, False,
                  if apex then [issue ''ASSET_INVALID'' (loc @ ''/include_apex'')
                                  ''include_apex is valid only for wildcard domains''] else []))
      else if asset_type = JStr ''wildcard_domain''
      then bindr (canonicalize_wildcard_domain (idna_encode env) raw) (\<lambda>canonical.
             Inr (canonical, None, False,
                  if \<not> apex then [issue ''ASSET_AMBIGUOUS'' (loc @ ''/include_apex'')
                                    ''wildcard apex behavior must be explicit''] else []))
      else if asset_type = JStr ''url''
      then bindr (canonicalize_url (idna_encode env) raw) (\<lambda>u.
             Inr (cu_canonical_url u, Some u, False, []))
      else if \<not> hashable asset_type then Inl TypeError
      else if asset_type = JStr ''ipv4'' \<or> asset_type = JStr ''ipv6''
      then bindr (canonicalize_ip raw) (\<lambda>(family, value).
             guardr (asset_type \<noteq> JStr family) (canon_error ''IP family does not match asset type'') (
             Inr (value, None, asset_type = JStr ''ipv6'' \<and> allows, [])))
      else if asset_type = JStr ''cidr''
      then bindr (canonicalize_cidr raw) (\<lambda>c.
             Inr (cidr_canonical c, None, cidr_family c = ''ipv6'' \<and> allows, []))
      else Inl (canon_error ''unsupported asset type''))"

definition canonical_paths :: "json \<Rightarrow> string list result" where
  "canonical_paths v =
     bindr (elements v) (\<lambda>items. mapr (\<lambda>ps. sort (remdups ps)) (traverse canonicalize_path items))"

definition normalized_asset :: "dict \<Rightarrow> string \<Rightarrow> (dict \<times> json list \<times> string list \<times> string list) result" where
  "normalized_asset asset canonical =
     bindr (sorted_set (dict_default asset ''allowed_ports'' (JList []))) (\<lambda>ports.
     bindr (canonical_paths (dict_default asset ''allowed_paths'' (JList []))) (\<lambda>allowed.
     bindr (canonical_paths (dict_default asset ''denied_paths'' (JList []))) (\<lambda>denied.
     Inr (dict_put (dict_put (dict_put (dict_put asset
            ''canonical_value'' (JStr canonical))
            ''allowed_ports'' (JList ports))
            ''allowed_paths'' (JList (map JStr allowed)))
            ''denied_paths'' (JList (map JStr denied)), ports, allowed, denied))))"

definition asset_issues ::
  "string \<Rightarrow> canonical_url option \<Rightarrow> dict \<Rightarrow> json list \<Rightarrow> string list \<Rightarrow> string list \<Rightarrow>
   validation_issue list" where
  "asset_issues loc url normalized ports allowed denied =
     (let allows = (dict_get normalized ''effect'' = JStr ''allow'');
          overlap = filter (\<lambda>p. p \<in> set denied) allowed in
      (if allows \<and> ports = []
       then [issue ''PORT_AUTHORITY_MISSING'' (loc @ ''/allowed_ports'')
               ''allow rules must explicitly authorize at least one port''] else []) @
      (if allows \<and> dict_get normalized ''ownership_verified'' \<noteq> JBool True
       then [issue ''OWNERSHIP_UNVERIFIED'' (loc @ ''/ownership_verified'')
               ''allow rules require explicit ownership verification''] else []) @
      (if overlap \<noteq> []
       then [issue ''CONTRADICTORY_RULES'' loc
               (''paths cannot be both allowed and denied: '' @ join_with '', '' overlap)] else []) @
      (case url of
         None \<Rightarrow> []
       | Some u \<Rightarrow>
           (if allows \<and> \<not> py_in (JInt (cu_port u)) ports
            then [issue ''CONTRADICTORY_RULES'' (loc @ ''/allowed_ports'')
                    ''URL effective port must be explicitly allowed''] else []) @
           (if list_ex (\<lambda>p. \<not> path_contains (cu_path u) p) allowed
            then [issue ''SCOPE_AMBIGUOUS'' (loc @ ''/allowed_paths'')
                    ''URL allowed paths cannot broaden its canonical base path''] else [])))"

text \<open>
  One turn of the loop over the assets. The \<open>try\<close> block keeps what it has recorded when it
  raises; CanonicalizationError and TypeError become an issue, anything else leaves the function.
\<close>

record asset_acc =
  aa_issues :: "validation_issue list"
  aa_assets :: "json list"
  aa_seen :: "((string \<times> string) \<times> nat) list"
  aa_ids :: "string list"
  aa_ipv6 :: bool

fun exn_text :: "policy_env \<Rightarrow> exn \<Rightarrow> string option" where
  "exn_text env (CanonicalizationError m) = Some m"
| "exn_text env TypeError = Some (type_error_text env)"
| "exn_text env _ = None"

definition asset_failed :: "policy_env \<Rightarrow> string \<Rightarrow> asset_acc \<Rightarrow> exn \<Rightarrow> asset_acc result" where
  "asset_failed env loc acc e =
     (case exn_text env e of
        Some m \<Rightarrow> Inr (acc\<lparr>aa_issues := aa_issues acc @ [issue ''ASSET_INVALID'' loc m]\<rparr>)
      | None \<Rightarrow> Inl e)"

definition asset_admit ::
  "string \<Rightarrow> nat \<Rightarrow> string \<times> string \<Rightarrow> json \<Rightarrow> validation_issue list \<Rightarrow> asset_acc \<Rightarrow> asset_acc" where
  "asset_admit loc i key normalized found acc =
     acc\<lparr>aa_issues := aa_issues acc @ found @
           (case map_of (aa_seen acc) key of
              None \<Rightarrow> []
            | Some j \<Rightarrow> [issue ''CONTRADICTORY_RULES'' loc
                           (''duplicates asset declared at /scope/assets/'' @ nat_text j)]),
         aa_seen := (key, i) # aa_seen acc,
         aa_assets := aa_assets acc @ [normalized]\<rparr>"

definition asset_enter :: "policy_env \<Rightarrow> string list \<Rightarrow> string \<Rightarrow> dict \<Rightarrow> asset_acc \<Rightarrow> asset_acc result" where
  "asset_enter env ids loc asset acc =
     bindr (in_ids (dict_get asset ''source_reference'') ids) (\<lambda>known.
     let asset_id = py_str (float_repr env) (dict_get asset ''asset_id'') in
     Inr (acc\<lparr>aa_issues := aa_issues acc @
                (if \<not> known then [issue ''PROVENANCE_MISSING'' (loc @ ''/source_reference'')
                                   ''must reference an imported source''] else []) @
                (if asset_id \<in> set (aa_ids acc)
                 then [issue ''CONTRADICTORY_RULES'' (loc @ ''/asset_id'') ''asset id must be unique'']
                 else []),
              aa_ids := asset_id # aa_ids acc\<rparr>))"

definition asset_process ::
  "policy_env \<Rightarrow> string \<Rightarrow> nat \<Rightarrow> dict \<Rightarrow> asset_acc \<Rightarrow> asset_acc result" where
  "asset_process env loc i asset acc =
     (case asset_canonical env loc asset of
        Inl e \<Rightarrow> asset_failed env loc acc e
      | Inr (canonical, url, ipv6, apex) \<Rightarrow>
          (let acc = acc\<lparr>aa_issues := aa_issues acc @ apex, aa_ipv6 := aa_ipv6 acc \<or> ipv6\<rparr> in
           case normalized_asset asset canonical of
             Inl e \<Rightarrow> asset_failed env loc acc e
           | Inr (normalized, ports, allowed, denied) \<Rightarrow>
               Inr (asset_admit loc i
                      (py_str (float_repr env) (dict_get asset ''type''), canonical)
                      (JObj normalized)
                      (asset_issues loc url normalized ports allowed denied) acc)))"

definition asset_location :: "nat \<Rightarrow> string" where
  "asset_location i = ''/scope/assets/'' @ nat_text i"

definition asset_step ::
  "policy_env \<Rightarrow> string list \<Rightarrow> asset_acc \<Rightarrow> nat \<times> json \<Rightarrow> asset_acc result" where
  "asset_step env ids acc item =
     (let loc = asset_location (fst item) in
      case snd item of
        JObj asset \<Rightarrow> bindr (asset_enter env ids loc asset acc) (asset_process env loc (fst item) asset)
      | _ \<Rightarrow> Inr (acc\<lparr>aa_issues := aa_issues acc @ [issue ''ASSET_INVALID'' loc ''must be an object'']\<rparr>))"

definition empty_acc :: asset_acc where
  "empty_acc = \<lparr>aa_issues = [], aa_assets = [], aa_seen = [], aa_ids = [], aa_ipv6 = False\<rparr>"

definition ipv6_issues :: "dict \<Rightarrow> asset_acc \<Rightarrow> validation_issue list" where
  "ipv6_issues d acc =
     (case dict_get d ''network'' of
        JObj network \<Rightarrow>
          if aa_ipv6 acc \<and> dict_get network ''ipv6_mode'' = JStr ''disabled''
          then [issue ''CONTRADICTORY_RULES'' ''/network/ipv6_mode''
                  ''IPv6 scope cannot be allowed while IPv6 is disabled''] else []
      | _ \<Rightarrow> [])"

text \<open>The asset block: the document with the sorted canonical assets, and the issues.\<close>

definition scan_assets :: "policy_env \<Rightarrow> string list \<Rightarrow> dict \<Rightarrow> (dict \<times> validation_issue list) result" where
  "scan_assets env ids d =
     (let scope = dict_get d ''scope'';
          empty = Inr (d, [issue ''SCOPE_EMPTY'' ''/scope/assets'' ''at least one asset required'']) in
      case scope of
        JObj scope \<Rightarrow>
          (case dict_get scope ''assets'' of
             JList (a # as) \<Rightarrow>
               bindr (foldr_result (asset_step env ids) empty_acc (enumerate 0 (a # as))) (\<lambda>acc.
               bindr (sort_by (fields_key [''type'', ''canonical_value'', ''effect'', ''asset_id''])
                        (aa_assets acc)) (\<lambda>assets.
               Inr (dict_put d ''scope'' (JObj (dict_put scope ''assets'' (JList assets))),
                    aa_issues acc @ ipv6_issues d acc)))
           | _ \<Rightarrow> empty)
      | _ \<Rightarrow> empty)"

section \<open>Techniques\<close>

text \<open>\<open>str(item["capability"])\<close> of the conditional items that are dicts with that key.\<close>

definition conditional_names :: "policy_env \<Rightarrow> json list \<Rightarrow> string list" where
  "conditional_names env items =
     concat (map (\<lambda>item. case item of
        JObj d \<Rightarrow> (case map_of d ''capability'' of
            Some c \<Rightarrow> [py_str (float_repr env) c] | None \<Rightarrow> [])
      | _ \<Rightarrow> []) items)"

text \<open>\<open>", ".join(xs)\<close>: an item that is not text raises.\<close>

definition join_json :: "json list \<Rightarrow> string result" where
  "join_json xs = (if list_all is_str xs then Inr (join_with '', '' (map str_of xs)) else Inl TypeError)"

definition effect_issues :: "json list \<Rightarrow> json list \<Rightarrow> string list \<Rightarrow> validation_issue list" where
  "effect_issues allowed denied names =
     (if \<not> distinct names
      then [issue ''CONTRADICTORY_RULES'' ''/techniques/conditional_capabilities''
              ''a capability may have only one conditional rule''] else []) @
     (if list_ex (\<lambda>c. py_in c denied) allowed \<or> list_ex (\<lambda>n. JStr n \<in> set allowed) names \<or>
         list_ex (\<lambda>n. JStr n \<in> set denied) names
      then [issue ''CONTRADICTORY_RULES'' ''/techniques'' ''a capability may have only one effect'']
      else [])"

definition unsupported_issues ::
  "string list \<Rightarrow> json list \<Rightarrow> validation_issue list result" where
  "unsupported_issues supported capabilities =
     bindr (py_sorted (filter (\<lambda>c. \<not> py_in c (map JStr supported)) (dedup capabilities))) (\<lambda>unsupported.
     if unsupported = [] then Inr []
     else bindr (join_json unsupported) (\<lambda>names.
       Inr [issue ''UNSUPPORTED_CAPABILITY'' ''/techniques'' (''unsupported capabilities: '' @ names)]))"

definition method_issues :: "json list \<Rightarrow> json list \<Rightarrow> validation_issue list" where
  "method_issues allowed methods =
     concat (map (\<lambda>capability.
       if capability_method capability \<noteq> JNull \<and> \<not> py_in (capability_method capability) methods
       then [issue ''CONTRADICTORY_RULES'' ''/techniques/allowed_http_methods''
               (str_of capability @ '' requires '' @ str_of (capability_method capability))]
       else []) allowed)"

definition sort_field :: "dict \<Rightarrow> string \<Rightarrow> dict result" where
  "sort_field d k =
     (case dict_get d k of
        JList xs \<Rightarrow> bindr (sorted_set (JList xs)) (\<lambda>ys. Inr (dict_put d k (JList ys)))
      | _ \<Rightarrow> Inr d)"

definition hashed_field :: "dict \<Rightarrow> string \<Rightarrow> json list result" where
  "hashed_field d k = bindr (elements (dict_default d k (JList []))) py_set"

definition scan_techniques ::
  "policy_env \<Rightarrow> string list \<Rightarrow> dict \<Rightarrow> (dict \<times> validation_issue list) result" where
  "scan_techniques env supported d =
     (case dict_get d ''techniques'' of
        JObj techniques \<Rightarrow>
          bindr (hashed_field techniques ''allowed_capabilities'') (\<lambda>allowed.
          bindr (hashed_field techniques ''denied_capabilities'') (\<lambda>denied.
          bindr (elements (dict_default techniques ''conditional_capabilities'' (JList []))) (\<lambda>items.
          let names = conditional_names env items in
          bindr (unsupported_issues supported (allowed @ denied @ map JStr names)) (\<lambda>unsupported.
          bindr (hashed_field techniques ''allowed_http_methods'') (\<lambda>methods.
          bindr (foldr_result sort_field techniques
                   [''allowed_capabilities'', ''denied_capabilities'', ''allowed_http_methods'']) (\<lambda>sorted_techniques.
          Inr (dict_put d ''techniques'' (JObj sorted_techniques),
               effect_issues allowed denied names @ unsupported @
               (if allowed = []
                then [issue ''TECHNIQUES_INCOMPLETE'' ''/techniques/allowed_capabilities''
                        ''at least one explicitly allowed capability is required''] else []) @
               method_issues allowed methods)))))))
      | _ \<Rightarrow> Inr (d, []))"

section \<open>Limits, network, schedule, accounts and validity\<close>

definition positive_limits :: "string list" where
  "positive_limits =
     [''requests_per_second'', ''per_host_requests_per_second'', ''burst_limit'',
      ''concurrent_connections'', ''maximum_runtime_minutes'', ''maximum_total_requests'',
      ''maximum_response_bytes'']"

definition exceeds :: "json \<Rightarrow> json \<Rightarrow> bool" where
  "exceeds a b \<longleftrightarrow> (case (number a, number b) of (Some x, Some y) \<Rightarrow> x > y | _ \<Rightarrow> False)"

definition limit_issues :: "dict \<Rightarrow> validation_issue list" where
  "limit_issues d =
     (case dict_get d ''operational_limits'' of
        JObj limits \<Rightarrow>
          concat (map (\<lambda>f. case number (dict_get limits f) of
              Some x \<Rightarrow> if x \<le> 0 then [issue ''LIMITS_INVALID'' (''/operational_limits/'' @ f) ''must be > 0''] else []
            | None \<Rightarrow> [issue ''LIMITS_INVALID'' (''/operational_limits/'' @ f) ''must be > 0'']) positive_limits) @
          (if exceeds (dict_get limits ''per_host_requests_per_second'') (dict_get limits ''requests_per_second'')
           then [issue ''LIMITS_INVALID'' ''/operational_limits/per_host_requests_per_second''
                   ''per-host rate cannot exceed the global rate''] else [])
      | _ \<Rightarrow> [issue ''LIMITS_INVALID'' ''/operational_limits'' ''object required''])"

definition control_issues :: "dict \<Rightarrow> validation_issue list" where
  "control_issues d =
     (case (dict_get d ''operational_limits'', dict_get d ''agent_controls'') of
        (JObj limits, JObj controls) \<Rightarrow>
          if exceeds (dict_get controls ''maximum_runtime_minutes'') (dict_get limits ''maximum_runtime_minutes'')
          then [issue ''LIMITS_INVALID'' ''/agent_controls/maximum_runtime_minutes''
                  ''agent runtime cannot exceed the engagement runtime limit''] else []
      | _ \<Rightarrow> [])"

definition network_issues :: "dict \<Rightarrow> validation_issue list" where
  "network_issues d =
     (case dict_get d ''network'' of
        JObj network \<Rightarrow>
          (if dict_get network ''ipv6_mode'' = JStr ''disabled'' \<and>
              truthy (dict_get network ''registered_source_ipv6'')
           then [issue ''CONTRADICTORY_RULES'' ''/network/registered_source_ipv6''
                   ''registered IPv6 identities require approved_only IPv6 mode''] else []) @
          (if dict_get network ''dns_mode'' = JStr ''approved_resolver'' \<and>
              \<not> truthy (dict_get network ''approved_resolvers'')
           then [issue ''NETWORK_CONSTRAINTS_INCOMPLETE'' ''/network/approved_resolvers''
                   ''approved_resolver mode requires at least one resolver''] else [])
      | _ \<Rightarrow> [])"

text \<open>\<open>ZoneInfo(key)\<close>; a key that is not text raises TypeError.\<close>

definition zone_of :: "policy_env \<Rightarrow> json \<Rightarrow> zone result" where
  "zone_of env v = (case v of JStr k \<Rightarrow> zone_info env k | _ \<Rightarrow> Inl TypeError)"

definition compare_less :: "json \<Rightarrow> json \<Rightarrow> bool result" where
  "compare_less a b = (case py_less a b of None \<Rightarrow> Inl TypeError | Some r \<Rightarrow> Inr r)"

text \<open>Whether a testing window is invalid; KeyError (with its subclass) and TypeError count as such.\<close>

definition window_invalid :: "policy_env \<Rightarrow> json \<Rightarrow> bool result" where
  "window_invalid env window =
     catchr
       (bindr (index window ''timezone'') (\<lambda>tz.
        bindr (zone_of env tz) (\<lambda>_.
        bindr (index window ''start_time'') (\<lambda>start.
        bindr (index window ''end_time'') (\<lambda>end_time.
        mapr Not (compare_less start end_time))))))
       (\<lambda>e. if is_KeyError e \<or> e = TypeError then Inr True else Inl e)"

definition window_issues :: "policy_env \<Rightarrow> dict \<Rightarrow> validation_issue list result" where
  "window_issues env limits =
     bindr (elements (dict_default limits ''allowed_testing_windows'' (JList []))) (\<lambda>windows.
     mapr concat (traverse (\<lambda>(i, window).
       if \<not> is_dict window then Inr []
       else bindr (window_invalid env window) (\<lambda>bad.
         Inr (if bad then [issue ''TESTING_WINDOW_INVALID''
                (''/operational_limits/allowed_testing_windows/'' @ nat_text i)
                ''testing window end must follow its start''] else [])))
       (enumerate 0 windows)))"

definition blackout_invalid :: "json \<Rightarrow> bool result" where
  "blackout_invalid period =
     catchr
       (bindr (index period ''starts_at'') (\<lambda>s. bindr (parse_time s) (\<lambda>starts_at.
        bindr (index period ''ends_at'') (\<lambda>e. bindr (parse_time e) (\<lambda>ends_at.
        Inr (starts_at \<ge> ends_at))))))
       (\<lambda>e. if is_KeyError e \<or> e = TypeError \<or> is_ValueError e then Inr True else Inl e)"

definition blackout_issues :: "dict \<Rightarrow> validation_issue list result" where
  "blackout_issues limits =
     bindr (elements (dict_default limits ''blackout_periods'' (JList []))) (\<lambda>periods.
     mapr concat (traverse (\<lambda>(i, period).
       if \<not> is_dict period then Inr []
       else bindr (blackout_invalid period) (\<lambda>bad.
         Inr (if bad then [issue ''BLACKOUT_PERIOD_INVALID''
                (''/operational_limits/blackout_periods/'' @ nat_text i)
                ''blackout end must follow its timezone-aware start''] else [])))
       (enumerate 0 periods)))"

definition schedule_issues :: "policy_env \<Rightarrow> dict \<Rightarrow> validation_issue list result" where
  "schedule_issues env d =
     (case dict_get d ''operational_limits'' of
        JObj limits \<Rightarrow>
          bindr (window_issues env limits) (\<lambda>ws. bindr (blackout_issues limits) (\<lambda>bs. Inr (ws @ bs)))
      | _ \<Rightarrow> Inr [])"

definition account_issues :: "dict \<Rightarrow> validation_issue list" where
  "account_issues d =
     (case dict_get d ''account_controls'' of
        JObj controls \<Rightarrow>
          (let references = dict_default controls ''approved_account_references'' (JList []);
               mode = dict_get controls ''mode''
           in if (mode = JStr ''unauthenticated_only'' \<and> truthy references) \<or>
                 (mode = JStr ''approved_test_accounts'' \<and> \<not> truthy references)
              then [issue ''ACCOUNT_CONTROLS_INVALID'' ''/account_controls/approved_account_references''
                      ''account references must match the reviewed authentication mode''] else [])
      | _ \<Rightarrow> [])"

definition validity_issues :: "instant \<Rightarrow> dict \<Rightarrow> validation_issue list result" where
  "validity_issues now d =
     (case dict_get d ''engagement'' of
        JObj engagement \<Rightarrow>
          catchr
            (bindr (index (JObj engagement) ''effective_from'') (\<lambda>f. bindr (parse_time f) (\<lambda>not_before.
             bindr (index (JObj engagement) ''expires_at'') (\<lambda>t. bindr (parse_time t) (\<lambda>not_after.
             Inr (if not_after \<le> not_before
                  then [issue ''VALIDITY_INVALID'' ''/engagement/expires_at'' ''must follow effective_from'']
                  else if now < not_before
                  then [issue ''AUTHORIZATION_NOT_YET_VALID'' ''/engagement/effective_from''
                          ''authorization has not started'']
                  else if now \<ge> not_after
                  then [issue ''AUTHORIZATION_EXPIRED'' ''/engagement/expires_at''
                          ''authorization has expired'']
                  else []))))))
            (\<lambda>e. if is_KeyError e \<or> e = TypeError \<or> is_ValueError e
                  then Inr [issue ''VALIDITY_INVALID'' ''/engagement'' ''valid RFC3339 window required'']
                  else Inl e)
      | _ \<Rightarrow> Inr [])"

section \<open>The validator\<close>

definition manifest_issues ::
  "policy_env \<Rightarrow> string \<Rightarrow> string list \<Rightarrow> source_hashes \<Rightarrow> instant \<Rightarrow> dict \<Rightarrow>
   (dict \<times> validation_issue list) result" where
  "manifest_issues env version supported hashes now d =
     (let sc = scan_sources hashes d in
      bindr (field_provenance_issues env hashes (scan_ids sc) d) (\<lambda>provenance.
      bindr (source_statement_issues env sc d) (\<lambda>statements.
      bindr (scan_assets env (scan_ids sc) d) (\<lambda>(d1, assets).
      bindr (scan_techniques env supported d1) (\<lambda>(d2, techniques).
      bindr (schedule_issues env d2) (\<lambda>schedule.
      bindr (validity_issues now d2) (\<lambda>validity.
      Inr (d2, schema_version_issues version d @ question_issues d @ scan_issues sc @ provenance @
               statements @ assets @ techniques @ limit_issues d2 @ control_issues d2 @
               network_issues d2 @ schedule @ account_issues d2 @ validity))))))))"

definition validate_and_canonicalize ::
  "policy_env \<Rightarrow> string \<Rightarrow> string \<Rightarrow> string list \<Rightarrow> source_hashes \<Rightarrow> instant \<Rightarrow> dict \<Rightarrow>
   manifest_validation result" where
  "validate_and_canonicalize env schema_name version supported hashes now candidate =
     (let schema_issues = contract_issues env (JObj candidate) schema_name;
          missing = missing_fields candidate in
      if schema_issues \<noteq> [] then Inr \<lparr>mv_document = Some candidate, mv_issues = schema_issues\<rparr>
      else if missing \<noteq> []
      then Inr \<lparr>mv_document = None,
                mv_issues = map (\<lambda>f. issue ''MANIFEST_FIELD_MISSING'' (''/'' @ f) ''required field'') missing\<rparr>
      else bindr (manifest_issues env version supported hashes now candidate) (\<lambda>(d, issues).
        Inr \<lparr>mv_document = Some d, mv_issues = issues\<rparr>))"

definition validate_and_canonicalize_manifest ::
  "policy_env \<Rightarrow> source_hashes \<Rightarrow> instant \<Rightarrow> dict \<Rightarrow> manifest_validation result" where
  "validate_and_canonicalize_manifest env =
     validate_and_canonicalize env ''engagement-manifest-v2.schema.json'' ''2.0.0'' supported_capabilities"

definition validate_and_canonicalize_manifest_v3 ::
  "policy_env \<Rightarrow> source_hashes \<Rightarrow> instant \<Rightarrow> dict \<Rightarrow> manifest_validation result" where
  "validate_and_canonicalize_manifest_v3 env =
     validate_and_canonicalize env ''engagement-manifest-v3.schema.json'' ''3.0.0'' supported_capabilities_v3"

section \<open>Every issue is an error\<close>

definition errors_only :: "validation_issue list \<Rightarrow> bool" where
  "errors_only xs \<longleftrightarrow> list_all (\<lambda>i. issue_severity i = ''error'') xs"

lemma errors_only_simps [simp]:
  "errors_only []"
  "errors_only (issue c p m # xs) = errors_only xs"
  "errors_only (xs @ ys) \<longleftrightarrow> errors_only xs \<and> errors_only ys"
  by (auto simp: errors_only_def issue_def)

lemma errors_only_map [simp]: "errors_only (map (\<lambda>x. issue (c x) (p x) (m x)) xs)"
  by (induction xs) auto

lemma errors_only_concat: "(\<And>x. x \<in> set xs \<Longrightarrow> errors_only (f x)) \<Longrightarrow> errors_only (concat (map f xs))"
  by (induction xs) auto

lemma errors_only_traverse:
  assumes "mapr concat (traverse f xs) = Inr ys" and "\<And>x zs. f x = Inr zs \<Longrightarrow> errors_only zs"
  shows "errors_only ys"
proof -
  from assms(1) obtain zss where t: "traverse f xs = Inr zss" and ys: "ys = concat zss"
    by (auto simp: mapr_eq_Inr)
  have "errors_only z" if "z \<in> set zss" for z
    using t that assms(2) by (rule traverse_memE)
  then show ?thesis by (auto simp: ys errors_only_def list_all_iff)
qed

lemma source_step_errors: "errors_only (scan_issues st) \<Longrightarrow> errors_only (scan_issues (source_step h st x))"
  by (auto simp: source_step_def Let_def split: json.splits)

lemma scan_sources_errors: "errors_only (scan_issues (scan_sources h d))"
proof -
  have *: "errors_only (scan_issues (foldl (source_step h) \<lparr>scan_issues = [], scan_ids = [], scan_hashes = []\<rparr> xs))" for xs
    by (rule foldl_invariant [where I = "\<lambda>st. errors_only (scan_issues st)"]) (simp_all add: source_step_errors)
  show ?thesis
    unfolding scan_sources_def Let_def using * by (simp split: json.split list.split del: foldl_Cons)
qed

lemma field_provenance_errors: 
  assumes "field_provenance_issues env h ids d = Inr xs"
  shows "errors_only xs"
proof (cases "dict_get d ''field_provenance''")
  case (JObj provenance)
  have step: "errors_only (snd st) \<Longrightarrow> link_step env h ids fp st x = Inr st' \<Longrightarrow> errors_only (snd st')"
    for fp st x st'
    by (auto simp: link_step_def Let_def bindr_eq_Inr split: json.splits)
  have links: "errors_only (snd st')" if "foldr_result (link_step env h ids fp) ([], []) ys = Inr st'" for fp ys st'
    by (rule foldr_result_invariant [OF that, where I = "\<lambda>st. errors_only (snd st)"]) (auto intro: step)
  show ?thesis
    using assms JObj links
    by (simp only: field_provenance_issues_def json.case, elim errors_only_traverse)
       (fastforce simp: mapr_eq_Inr simp del: foldr_result.simps split: json.splits)
qed (use assms in \<open>simp_all add: field_provenance_issues_def\<close>)

lemma source_statement_errors: "source_statement_issues env sc d = Inr xs \<Longrightarrow> errors_only xs"
proof -
  have step: "errors_only (snd st) \<Longrightarrow> statement_step env sc st x = Inr st' \<Longrightarrow> errors_only (snd st')"
    for st x st'
    by (auto simp: statement_step_def Let_def bindr_eq_Inr split: json.splits)
  have "errors_only (snd st')" if "foldr_result (statement_step env sc) ([], []) ys = Inr st'" for ys st'
    by (rule foldr_result_invariant [OF that, where I = "\<lambda>st. errors_only (snd st)"]) (auto intro: step)
  then show "source_statement_issues env sc d = Inr xs \<Longrightarrow> errors_only xs"
    by (auto simp: source_statement_issues_def mapr_eq_Inr simp del: foldr_result.simps split: json.splits)
qed

lemma asset_canonical_errors:
  "asset_canonical env loc asset = Inr (c, u, v, xs) \<Longrightarrow> errors_only xs"
  by (auto simp: asset_canonical_def Let_def result_elims split: if_splits)

lemma asset_issues_errors: "errors_only (asset_issues loc u n ports as ds)"
  by (auto simp: asset_issues_def Let_def split: option.splits)

lemma asset_failed_eq_Inr:
  "asset_failed env loc acc e = Inr acc' \<longleftrightarrow>
     (\<exists>m. exn_text env e = Some m \<and>
          acc' = acc\<lparr>aa_issues := aa_issues acc @ [issue ''ASSET_INVALID'' loc m]\<rparr>)"
  by (auto simp: asset_failed_def split: option.splits)

lemma asset_process_cases:
  assumes "asset_process env loc i asset acc = Inr acc'"
  obtains (failed) m xs where "aa_issues acc' = aa_issues acc @ xs @ [issue ''ASSET_INVALID'' loc m]"
      and "errors_only xs"
  | (admitted) canonical url ipv6 apex n ports allowed denied where
      "asset_canonical env loc asset = Inr (canonical, url, ipv6, apex)"
      "normalized_asset asset canonical = Inr (n, ports, allowed, denied)"
      "acc' = asset_admit loc i (py_str (float_repr env) (dict_get asset ''type''), canonical) (JObj n)
         (asset_issues loc url n ports allowed denied)
         (acc\<lparr>aa_issues := aa_issues acc @ apex, aa_ipv6 := aa_ipv6 acc \<or> ipv6\<rparr>)"
proof (cases "asset_canonical env loc asset")
  case (Inl e)
  with assms failed [of "[]"] show ?thesis by (auto simp: asset_process_def asset_failed_eq_Inr)
next
  case (Inr r)
  obtain canonical url ipv6 apex where r: "r = (canonical, url, ipv6, apex)" by (cases r)
  show ?thesis
  proof (cases "normalized_asset asset canonical")
    case (Inl e)
    then show ?thesis
      using assms Inr r failed [of apex] asset_canonical_errors [of env loc asset canonical url ipv6 apex]
      by (auto simp: asset_process_def asset_failed_eq_Inr)
  next
    case (Inr q)
    obtain n ports allowed denied where "q = (n, ports, allowed, denied)" by (cases q)
    then show ?thesis
      using assms Inr \<open>asset_canonical env loc asset = Inr r\<close> r by (auto simp: asset_process_def intro: admitted)
  qed
qed

lemma asset_step_errors:
  assumes e: "errors_only (aa_issues acc)" and s: "asset_step env ids acc x = Inr acc'"
  shows "errors_only (aa_issues acc')"
proof (cases "snd x")
  case (JObj asset)
  with s obtain acc1 where 1: "asset_enter env ids (asset_location (fst x)) asset acc = Inr acc1"
    and 2: "asset_process env (asset_location (fst x)) (fst x) asset acc1 = Inr acc'"
    by (auto simp: asset_step_def bindr_eq_Inr Let_def)
  have e1: "errors_only (aa_issues acc1)"
    using 1 e by (auto simp: asset_enter_def bindr_eq_Inr Let_def)
  from 2 show ?thesis
  proof (cases rule: asset_process_cases)
    case failed
    with e1 show ?thesis by simp
  next
    case admitted
    with e1 show ?thesis
      by (auto simp: asset_admit_def asset_issues_errors dest: asset_canonical_errors split: option.splits)
  qed
qed (use assms in \<open>auto simp: asset_step_def\<close>)

lemma scan_assets_cases:
  assumes "scan_assets env ids d = Inr (d', xs)"
  obtains (empty) "d' = d" "xs = [issue ''SCOPE_EMPTY'' ''/scope/assets'' ''at least one asset required'']"
  | (scanned) scope raw acc assets where
      "dict_get d ''scope'' = JObj scope" "dict_get scope ''assets'' = JList raw" "raw \<noteq> []"
      "foldr_result (asset_step env ids) empty_acc (enumerate 0 raw) = Inr acc"
      "sort_by (fields_key [''type'', ''canonical_value'', ''effect'', ''asset_id'']) (aa_assets acc) = Inr assets"
      "d' = dict_put d ''scope'' (JObj (dict_put scope ''assets'' (JList assets)))"
      "xs = aa_issues acc @ ipv6_issues d acc"
proof (cases "\<exists>scope a as. dict_get d ''scope'' = JObj scope \<and> dict_get scope ''assets'' = JList (a # as)")
  case True
  then obtain scope a as where sc: "dict_get d ''scope'' = JObj scope" "dict_get scope ''assets'' = JList (a # as)"
    by blast
  from assms show ?thesis
    unfolding scan_assets_def Let_def sc json.case list.case bindr_eq_Inr
    by (elim exE conjE) (rule scanned [OF sc], auto simp del: foldr_result.simps enumerate_simps)
next
  case False
  with assms show ?thesis
    by (intro empty) (auto simp: scan_assets_def Let_def split: json.splits list.splits)
qed

lemma scan_assets_errors:
  assumes "scan_assets env ids d = Inr (d', xs)"
  shows "errors_only xs"
  using assms
proof (cases rule: scan_assets_cases)
  case (scanned scope raw acc assets)
  have "errors_only (aa_issues acc)"
    by (rule foldr_result_invariant [OF scanned(4), where I = "\<lambda>a. errors_only (aa_issues a)"])
       (auto simp: empty_acc_def intro: asset_step_errors)
  with scanned show ?thesis by (simp add: ipv6_issues_def split: json.split)
qed simp

lemma unsupported_errors: "unsupported_issues supp cs = Inr xs \<Longrightarrow> errors_only xs"
  by (auto simp: unsupported_issues_def bindr_eq_Inr split: if_splits)

lemma method_errors: "errors_only (method_issues as ms)"
  unfolding method_issues_def by (rule errors_only_concat) simp

lemma effect_errors: "errors_only (effect_issues as ds ns)"
  by (simp add: effect_issues_def)

lemma scan_techniques_cases:
  assumes "scan_techniques env supp d = Inr (d', xs)"
  obtains (absent) "d' = d" "xs = []" "\<not> is_dict (dict_get d ''techniques'')"
  | (scanned) techniques allowed denied items unsupported methods sorted_techniques where
      "dict_get d ''techniques'' = JObj techniques"
      "hashed_field techniques ''allowed_capabilities'' = Inr allowed"
      "hashed_field techniques ''denied_capabilities'' = Inr denied"
      "elements (dict_default techniques ''conditional_capabilities'' (JList [])) = Inr items"
      "unsupported_issues supp (allowed @ denied @ map JStr (conditional_names env items)) = Inr unsupported"
      "hashed_field techniques ''allowed_http_methods'' = Inr methods"
      "foldr_result sort_field techniques
         [''allowed_capabilities'', ''denied_capabilities'', ''allowed_http_methods''] = Inr sorted_techniques"
      "d' = dict_put d ''techniques'' (JObj sorted_techniques)"
      "xs = effect_issues allowed denied (conditional_names env items) @ unsupported @
         (if allowed = [] then [issue ''TECHNIQUES_INCOMPLETE'' ''/techniques/allowed_capabilities''
            ''at least one explicitly allowed capability is required''] else []) @
         method_issues allowed methods"
proof (cases "dict_get d ''techniques''")
  case (JObj techniques)
  from assms show ?thesis
    unfolding scan_techniques_def JObj json.case Let_def bindr_eq_Inr
    by (elim exE conjE) (rule scanned [OF JObj], auto simp del: foldr_result.simps)
qed (use assms absent in \<open>auto simp: scan_techniques_def\<close>)

lemma scan_techniques_errors:
  assumes "scan_techniques env supp d = Inr (d', xs)"
  shows "errors_only xs"
  using assms by (cases rule: scan_techniques_cases)
    (auto simp: effect_errors method_errors dest: unsupported_errors)

lemma plain_section_errors:
  "errors_only (schema_version_issues v d)" "errors_only (question_issues d)"
  "errors_only (limit_issues d)" "errors_only (control_issues d)"
  "errors_only (network_issues d)" "errors_only (account_issues d)"
  by (auto simp: schema_version_issues_def question_issues_def limit_issues_def control_issues_def
      network_issues_def account_issues_def Let_def intro!: errors_only_concat
      split: json.splits option.splits)

lemma window_errors: "window_issues env limits = Inr xs \<Longrightarrow> errors_only xs"
  unfolding window_issues_def bindr_eq_Inr
  by (elim exE conjE errors_only_traverse) (auto simp: bindr_eq_Inr split: if_splits)

lemma blackout_errors: "blackout_issues limits = Inr xs \<Longrightarrow> errors_only xs"
  unfolding blackout_issues_def bindr_eq_Inr
  by (elim exE conjE errors_only_traverse) (auto simp: bindr_eq_Inr split: if_splits)

lemma schedule_errors: "schedule_issues env d = Inr xs \<Longrightarrow> errors_only xs"
  by (auto simp: schedule_issues_def bindr_eq_Inr split: json.splits dest: window_errors blackout_errors)

lemma validity_errors: "validity_issues now d = Inr xs \<Longrightarrow> errors_only xs"
  by (auto simp: validity_issues_def catchr_def bindr_eq_Inr bindr_eq_Inl split: json.splits sum.splits if_splits)

lemma manifest_issues_errors: "manifest_issues env v supp h now d = Inr (d', xs) \<Longrightarrow> errors_only xs"
  by (auto simp: manifest_issues_def Let_def bindr_eq_Inr plain_section_errors scan_sources_errors
      dest: field_provenance_errors source_statement_errors scan_assets_errors scan_techniques_errors
        schedule_errors validity_errors)

lemma valid_iff_no_issues:
  assumes "validate_and_canonicalize env sn v supp h now cand = Inr mv"
  shows "mv_valid mv \<longleftrightarrow> mv_issues mv = []"
proof -
  have "errors_only (mv_issues mv)"
    using assms manifest_issues_errors
    by (auto simp: validate_and_canonicalize_def Let_def bindr_eq_Inr contract_issues_def split: if_splits)
  moreover have "mv_issues mv = [] \<Longrightarrow> mv_document mv \<noteq> None"
    using assms by (auto simp: validate_and_canonicalize_def Let_def bindr_eq_Inr split: if_splits)
  ultimately show ?thesis
    by (cases "mv_issues mv") (auto simp: mv_valid_def errors_only_def list_ex_iff list_all_iff)
qed

lemma valid_manifestE:
  assumes "validate_and_canonicalize env sn v supp h now cand = Inr mv" and "mv_valid mv"
  obtains d where "mv_document mv = Some d"
    and "manifest_issues env v supp h now cand = Inr (d, [])"
    and "contract_issues env (JObj cand) sn = []" and "missing_fields cand = []"
proof -
  have "mv_issues mv = []" using valid_iff_no_issues [OF assms(1)] assms(2) by simp
  with assms(1) that show ?thesis
    by (auto simp: validate_and_canonicalize_def Let_def bindr_eq_Inr split: if_splits)
qed

section \<open>What a valid manifest guarantees\<close>

definition canonical_path_list :: "json \<Rightarrow> bool" where
  "canonical_path_list v =
     (case v of
        JList xs \<Rightarrow> list_all (\<lambda>x. case x of JStr p \<Rightarrow> canonicalize_path_str p = Inr p | _ \<Rightarrow> False) xs
      | _ \<Rightarrow> False)"

fun items_of :: "json \<Rightarrow> json list" where
  "items_of (JList xs) = xs"
| "items_of _ = []"

definition asset_ok :: "string list \<Rightarrow> json \<Rightarrow> bool" where
  "asset_ok ids a =
     (case a of
        JObj x \<Rightarrow>
          str_of (dict_get x ''source_reference'') \<in> set ids \<and> is_str (dict_get x ''source_reference'') \<and>
          canonical_path_list (dict_get x ''allowed_paths'') \<and>
          canonical_path_list (dict_get x ''denied_paths'') \<and>
          \<not> list_ex (\<lambda>p. p \<in> set (items_of (dict_get x ''denied_paths''))) (items_of (dict_get x ''allowed_paths'')) \<and>
          (dict_get x ''effect'' \<noteq> JStr ''allow'' \<or>
           dict_get x ''ownership_verified'' = JBool True \<and> items_of (dict_get x ''allowed_ports'') \<noteq> [])
      | _ \<Rightarrow> False)"

fun asset_field :: "string \<Rightarrow> json \<Rightarrow> json" where
  "asset_field k (JObj x) = dict_get x k"
| "asset_field k _ = JNull"

definition asset_key :: "policy_env \<Rightarrow> json \<Rightarrow> string \<times> string" where
  "asset_key env a = (py_str (float_repr env) (asset_field ''type'' a), str_of (asset_field ''canonical_value'' a))"

definition asset_id_text :: "policy_env \<Rightarrow> json \<Rightarrow> string" where
  "asset_id_text env a = py_str (float_repr env) (asset_field ''asset_id'' a)"

lemma canonical_paths_canonical:
  assumes "canonical_paths v = Inr ps"
  shows "canonical_path_list (JList (map JStr ps))"
proof -
  have "canonicalize_path_str p = Inr p" if p: "p \<in> set ps" for p
  proof -
    from assms obtain items qs where t: "traverse canonicalize_path items = Inr qs" and q: "set ps = set qs"
      by (auto simp: canonical_paths_def bindr_eq_Inr mapr_eq_Inr)
    from p q have "p \<in> set qs" by simp
    with t obtain x where "canonicalize_path x = Inr p" by (rule traverse_memE)
    then show ?thesis
      by (auto simp: canonicalize_path_def split: json.splits dest: canonicalize_path_idem)
  qed
  then show ?thesis by (auto simp: canonical_path_list_def list_all_iff)
qed

lemma normalized_asset_fields:
  assumes "normalized_asset asset canonical = Inr (n, ports, allowed, denied)"
  shows "canonical_path_list (JList (map JStr allowed))" "canonical_path_list (JList (map JStr denied))"
    and "dict_get n ''allowed_ports'' = JList ports" "dict_get n ''allowed_paths'' = JList (map JStr allowed)"
    and "dict_get n ''denied_paths'' = JList (map JStr denied)"
    and "dict_get n ''canonical_value'' = JStr canonical"
    and "k \<notin> {''canonical_value'', ''allowed_ports'', ''allowed_paths'', ''denied_paths''} \<Longrightarrow>
      dict_get n k = dict_get asset k"
  using assms by (auto simp: normalized_asset_def bindr_eq_Inr canonical_paths_canonical)

text \<open>A turn of the asset loop that leaves no issue.\<close>

lemma asset_step_clean:
  assumes "asset_step env ids acc x = Inr acc'" and clean: "aa_issues acc' = []"
  shows "\<exists>a. aa_assets acc' = aa_assets acc @ [a] \<and> asset_ok ids a \<and>
    aa_seen acc' = (asset_key env a, fst x) # aa_seen acc \<and> asset_key env a \<notin> fst ` set (aa_seen acc) \<and>
    aa_ids acc' = asset_id_text env a # aa_ids acc \<and> asset_id_text env a \<notin> set (aa_ids acc) \<and>
    aa_issues acc = []"
proof (cases "snd x")
  case (JObj asset)
  let ?loc = "asset_location (fst x)"
  from assms JObj obtain acc1 where 1: "asset_enter env ids ?loc asset acc = Inr acc1"
    and 2: "asset_process env ?loc (fst x) asset acc1 = Inr acc'"
    by (auto simp: asset_step_def bindr_eq_Inr Let_def)
  from 2 show ?thesis
  proof (cases rule: asset_process_cases)
    case failed
    with clean show ?thesis by simp
  next
    case (admitted canonical url ipv6 apex n ports allowed denied)
    note n = normalized_asset_fields [OF admitted(2)]
    have none: "aa_issues acc1 = []" "asset_issues ?loc url n ports allowed denied = []"
      "map_of (aa_seen acc1) (py_str (float_repr env) (dict_get asset ''type''), canonical) = None"
      using clean admitted(3) by (auto simp: asset_admit_def split: option.splits)
    have ent: "aa_issues acc = []" "in_ids (dict_get asset ''source_reference'') ids = Inr True"
      "aa_seen acc1 = aa_seen acc" "aa_assets acc1 = aa_assets acc"
      "aa_ids acc1 = py_str (float_repr env) (dict_get asset ''asset_id'') # aa_ids acc"
      "py_str (float_repr env) (dict_get asset ''asset_id'') \<notin> set (aa_ids acc)"
      using 1 none(1) by (auto simp: asset_enter_def bindr_eq_Inr Let_def split: if_splits)
    have ref: "is_str (dict_get asset ''source_reference'')" "str_of (dict_get asset ''source_reference'') \<in> set ids"
      using ent(2) by (auto simp: in_ids_def split: if_splits json.splits)
    have iss: "\<not> (\<exists>p \<in> set allowed. p \<in> set denied)"
      "dict_get n ''effect'' = JStr ''allow'' \<Longrightarrow> dict_get n ''ownership_verified'' = JBool True \<and> ports \<noteq> []"
      using none(2) by (auto simp: asset_issues_def Let_def filter_empty_conv split: if_splits)
    have "asset_ok ids (JObj n)"
      using n ref iss by (auto simp: asset_ok_def list_ex_iff)
    moreover have "asset_key env (JObj n) = (py_str (float_repr env) (dict_get asset ''type''), canonical)"
      "asset_id_text env (JObj n) = py_str (float_repr env) (dict_get asset ''asset_id'')"
      using n by (auto simp: asset_key_def asset_id_text_def)
    ultimately show ?thesis
      using admitted(3) none ent
      by (auto simp: asset_admit_def map_of_eq_None_iff)
  qed
qed (use assms in \<open>auto simp: asset_step_def\<close>)

definition clean_acc :: "policy_env \<Rightarrow> string list \<Rightarrow> asset_acc \<Rightarrow> bool" where
  "clean_acc env ids acc \<longleftrightarrow>
     list_all (asset_ok ids) (aa_assets acc) \<and>
     map (asset_key env) (aa_assets acc) = rev (map fst (aa_seen acc)) \<and> distinct (map fst (aa_seen acc)) \<and>
     map (asset_id_text env) (aa_assets acc) = rev (aa_ids acc) \<and> distinct (aa_ids acc)"

lemma scan_assets_fold:
  assumes "foldr_result (asset_step env ids) acc xs = Inr acc'" and "aa_issues acc' = []"
    and "clean_acc env ids acc"
  shows "clean_acc env ids acc' \<and> length (aa_assets acc') = length (aa_assets acc) + length xs \<and> aa_issues acc = []"
  using assms
proof (induction xs arbitrary: acc)
  case (Cons x xs)
  from Cons.prems(1) obtain acc1 where 1: "asset_step env ids acc x = Inr acc1"
    and 2: "foldr_result (asset_step env ids) acc1 xs = Inr acc'"
    by (auto simp: bindr_eq_Inr)
  have "aa_issues acc1 = []"
    using foldr_result_invariant [OF 2, where I = "\<lambda>a. aa_issues a \<noteq> []"] asset_step_clean Cons.prems(2)
    by blast
  then obtain a where a: "aa_assets acc1 = aa_assets acc @ [a]" "asset_ok ids a"
    "aa_seen acc1 = (asset_key env a, fst x) # aa_seen acc" "asset_key env a \<notin> fst ` set (aa_seen acc)"
    "aa_ids acc1 = asset_id_text env a # aa_ids acc" "asset_id_text env a \<notin> set (aa_ids acc)" "aa_issues acc = []"
    using asset_step_clean [OF 1] by blast
  then have "clean_acc env ids acc1" using Cons.prems(3) by (auto simp: clean_acc_def)
  from Cons.IH [OF 2 Cons.prems(2) this] a show ?case by simp
qed simp

lemma scan_techniques_keeps:
  "scan_techniques env supp d = Inr (d', xs) \<Longrightarrow> k \<noteq> ''techniques'' \<Longrightarrow> dict_get d' k = dict_get d k"
  by (erule scan_techniques_cases) auto

lemma scan_assets_keeps:
  "scan_assets env ids d = Inr (d', xs) \<Longrightarrow> k \<noteq> ''scope'' \<Longrightarrow> dict_get d' k = dict_get d k"
  by (erule scan_assets_cases) auto

text \<open>
  C8. A manifest that validation finds valid has as many assets as were submitted, and each of them refers to a
  declared source, has canonical and disjoint allowed and denied paths and, when it allows, has
  verified ownership and at least one explicit port. Asset identifiers are unique, and no two
  assets have the same type and canonical value.
\<close>

theorem valid_manifest_assets:
  assumes v: "validate_and_canonicalize env sn version supp hashes now cand = Inr mv" and "mv_valid mv"
  shows "\<exists>d scope scope' assets raw. mv_document mv = Some d \<and>
    dict_get cand ''scope'' = JObj scope \<and> dict_get scope ''assets'' = JList raw \<and>
    dict_get d ''scope'' = JObj scope' \<and> dict_get scope' ''assets'' = JList assets \<and>
    assets \<noteq> [] \<and> length assets = length raw \<and>
    list_all (asset_ok (scan_ids (scan_sources hashes cand))) assets \<and>
    distinct (map (asset_key env) assets) \<and> distinct (map (asset_id_text env) assets)"
proof -
  let ?ids = "scan_ids (scan_sources hashes cand)"
  from valid_manifestE [OF assms] obtain d where d: "mv_document mv = Some d"
    "manifest_issues env version supp hashes now cand = Inr (d, [])" by blast
  then obtain d1 where s1: "scan_assets env ?ids cand = Inr (d1, [])" and s2: "scan_techniques env supp d1 = Inr (d, [])"
    by (auto simp: manifest_issues_def Let_def bindr_eq_Inr)
  from s1 show ?thesis
  proof (cases rule: scan_assets_cases)
    case (scanned scope raw acc assets)
    have "clean_acc env ?ids acc \<and> length (aa_assets acc) = length raw"
      using scan_assets_fold [OF scanned(4)] scanned(7) by (simp add: empty_acc_def clean_acc_def)
    moreover have m: "mset assets = mset (aa_assets acc)" by (rule sort_by_mset [OF scanned(5)])
    ultimately have "list_all (asset_ok ?ids) assets" "length assets = length raw"
      "distinct (map (asset_key env) assets)" "distinct (map (asset_id_text env) assets)"
      using mset_eq_length [OF m] mset_eq_setD [OF m]
      by (auto simp: clean_acc_def list_all_iff) (metis distinct_rev m mset_eq_imp_distinct_iff mset_map)+
    moreover have "dict_get d ''scope'' = JObj (dict_put scope ''assets'' (JList assets))"
      using scan_techniques_keeps [OF s2, of "''scope''"] scanned(6) by simp
    ultimately show ?thesis using d(1) scanned(1-3) by (intro exI conjI) auto
  qed simp
qed

text \<open>The items of a technique field, whatever iterable it is.\<close>

definition members :: "dict \<Rightarrow> string \<Rightarrow> json list" where
  "members d k = (case elements (dict_default d k (JList [])) of Inr xs \<Rightarrow> xs | Inl _ \<Rightarrow> [])"

lemma members_put [simp]:
  "members (dict_put d k (JList ys)) k' = (if k = k' then ys else members d k')"
  by (simp add: members_def dict_default_def)

lemma hashed_field_members:
  assumes "hashed_field d k = Inr ys"
  shows "set ys \<subseteq> set (members d k)" and "x \<in> set (members d k) \<Longrightarrow> \<exists>y \<in> set ys. py_eq x y"
  using assms dedup_subset dedup_cover
  by (auto simp: hashed_field_def members_def bindr_eq_Inr py_set_def split: if_splits)

lemma sort_field_members:
  assumes "sort_field d k = Inr d'"
  shows "set (members d' k') \<subseteq> set (members d k')"
    and "JStr s \<in> set (members d' k') \<longleftrightarrow> JStr s \<in> set (members d k')"
proof -
  have "set (members d' k') \<subseteq> set (members d k') \<and>
      (JStr s \<in> set (members d' k') \<longleftrightarrow> JStr s \<in> set (members d k'))"
  proof (cases "dict_get d k")
    case (JList xs)
    with assms obtain ys where ys: "sorted_set (JList xs) = Inr ys" and d': "d' = dict_put d k (JList ys)"
      by (auto simp: sort_field_def bindr_eq_Inr)
    have "members d k = xs"
      using JList by (auto simp: members_def dict_get_def dict_default_def split: option.splits)
    then show ?thesis
      using sorted_set_mem [OF ys] d' by (fastforce split: if_splits)
  qed (use assms in \<open>auto simp: sort_field_def\<close>)
  then show "set (members d' k') \<subseteq> set (members d k')"
    and "JStr s \<in> set (members d' k') \<longleftrightarrow> JStr s \<in> set (members d k')" by auto
qed

lemma sort_field_keeps: "sort_field d k = Inr d' \<Longrightarrow> k \<noteq> k' \<Longrightarrow> members d' k' = members d k'"
  by (auto simp: sort_field_def bindr_eq_Inr split: json.splits)

lemma sort_fields_members:
  assumes "foldr_result sort_field d ks = Inr d'"
  shows "set (members d' k') \<subseteq> set (members d k')"
    and "JStr s \<in> set (members d' k') \<longleftrightarrow> JStr s \<in> set (members d k')"
    and "k' \<notin> set ks \<Longrightarrow> members d' k' = members d k'"
proof -
  have "set (members d' k') \<subseteq> set (members d k') \<and>
    (JStr s \<in> set (members d' k') \<longleftrightarrow> JStr s \<in> set (members d k')) \<and>
    (k' \<notin> set ks \<longrightarrow> members d' k' = members d k')"
    using assms
  proof (induction ks arbitrary: d)
    case (Cons k ks)
    then obtain d1 where 1: "sort_field d k = Inr d1" and 2: "foldr_result sort_field d1 ks = Inr d'"
      by (auto simp: bindr_eq_Inr)
    show ?case
      using Cons.IH [OF 2] sort_field_members(1) [OF 1, of k'] sort_field_members(2) [OF 1, where k' = k' and s = s]
        sort_field_keeps [OF 1, of k']
      by auto
  qed simp
  then show "set (members d' k') \<subseteq> set (members d k')"
    and "JStr s \<in> set (members d' k') \<longleftrightarrow> JStr s \<in> set (members d k')"
    and "k' \<notin> set ks \<Longrightarrow> members d' k' = members d k'" by auto
qed

lemma unsupported_none:
  assumes "unsupported_issues supp cs = Inr []" and "c \<in> set cs"
  shows "\<exists>s \<in> set supp. c = JStr s"
proof -
  from assms(1) have "filter (\<lambda>c. \<not> py_in c (map JStr supp)) (dedup cs) = []"
    by (auto simp: unsupported_issues_def bindr_eq_Inr py_sorted_Nil split: if_splits)
  moreover obtain y where "y \<in> set (dedup cs)" "py_eq c y" using dedup_cover [OF assms(2)] by blast
  ultimately show ?thesis by (fastforce simp: filter_empty_conv py_in_iff)
qed

lemma method_issues_none:
  assumes "method_issues allowed methods = []" and "c \<in> set allowed" and "capability_method c = JStr m"
  shows "JStr m \<in> set methods"
  using assms unfolding method_issues_def concat_eq_Nil_conv by (fastforce split: if_splits)

text \<open>
  C9. In a valid manifest every capability with an effect (allowed, denied or conditional) is one of the
  supported ones; an allowed capability is neither denied nor conditional, and the HTTP method it needs
  is allowed; at least one capability is allowed, and no capability has two conditional rules or is both
  denied and conditional.
\<close>

theorem valid_manifest_techniques:
  assumes v: "validate_and_canonicalize env sn version supp hashes now cand = Inr mv" and "mv_valid mv"
    and "mv_document mv = Some d" and "dict_get d ''techniques'' = JObj t"
  shows "members t ''allowed_capabilities'' \<noteq> [] \<and>
    (let conditional = conditional_names env (members t ''conditional_capabilities'') in
     (\<forall>c \<in> set (members t ''allowed_capabilities'').
        (\<exists>s \<in> set supp. c = JStr s \<and> s \<notin> set conditional) \<and>
        c \<notin> set (members t ''denied_capabilities'') \<and>
        (capability_method c \<noteq> JNull \<longrightarrow> capability_method c \<in> set (members t ''allowed_http_methods''))) \<and>
     (\<forall>c \<in> set (members t ''denied_capabilities''). \<exists>s \<in> set supp. c = JStr s \<and> s \<notin> set conditional) \<and>
     set conditional \<subseteq> set supp \<and> distinct conditional)"
proof -
  from valid_manifestE [OF assms(1,2)] assms(3)
  have "manifest_issues env version supp hashes now cand = Inr (d, [])" by fastforce
  then obtain d1 where "scan_techniques env supp d1 = Inr (d, [])"
    by (auto simp: manifest_issues_def Let_def bindr_eq_Inr)
  then show ?thesis
  proof (cases rule: scan_techniques_cases)
    case absent
    with assms(4) show ?thesis by simp
  next
    case (scanned t0 allowed denied items unsupported methods)
    with assms(4) have t: "foldr_result sort_field t0
        [''allowed_capabilities'', ''denied_capabilities'', ''allowed_http_methods''] = Inr t" by simp
    note mem = sort_fields_members [OF t]
    have items: "members t ''conditional_capabilities'' = items"
      using mem(3) [of "''conditional_capabilities''"] scanned(4) by (simp add: members_def)
    have none: "unsupported = []" "allowed \<noteq> []" "distinct (conditional_names env items)"
      "\<not> list_ex (\<lambda>c. py_in c denied) allowed"
      "\<not> list_ex (\<lambda>n. JStr n \<in> set allowed) (conditional_names env items)"
      "\<not> list_ex (\<lambda>n. JStr n \<in> set denied) (conditional_names env items)"
      "method_issues allowed methods = []"
      using scanned(9) by (auto simp: effect_issues_def split: if_splits)
    have supp: "\<exists>s \<in> set supp. c = JStr s" if "c \<in> set allowed \<union> set denied" for c
      using unsupported_none [of supp _ c] scanned(5) none(1) that by auto
    have cond: "set (conditional_names env items) \<subseteq> set supp"
      using unsupported_none [of supp _ "JStr _"] scanned(5) none(1) by fastforce
    have str: "c \<in> set allowed \<and> (\<exists>s. c = JStr s)" if "c \<in> set (members t ''allowed_capabilities'')" for c
      using mem(1) [of "''allowed_capabilities''"] that hashed_field_members(2) [OF scanned(2), of c] supp by fastforce
    have strd: "c \<in> set denied \<and> (\<exists>s. c = JStr s)" if "c \<in> set (members t ''denied_capabilities'')" for c
      using mem(1) [of "''denied_capabilities''"] that hashed_field_members(2) [OF scanned(3), of c] supp by fastforce
    have meth: "capability_method c \<in> set (members t ''allowed_http_methods'')"
      if "c \<in> set allowed" "capability_method c \<noteq> JNull" for c
    proof -
      obtain m where m: "capability_method c = JStr m"
        using \<open>capability_method c \<noteq> JNull\<close> by (auto simp: capability_method_def split: if_splits)
      have "JStr m \<in> set methods" using method_issues_none [OF none(7) _ m] \<open>c \<in> set allowed\<close> by blast
      then have "JStr m \<in> set (members t0 ''allowed_http_methods'')"
        using hashed_field_members(1) [OF scanned(6)] by auto
      with m mem(2) show ?thesis by simp
    qed
    obtain c where c: "c \<in> set allowed" using none(2) by (cases allowed) auto
    then obtain s where "JStr s \<in> set (members t0 ''allowed_capabilities'')"
      using supp hashed_field_members(1) [OF scanned(2)] by blast
    then have "JStr s \<in> set (members t ''allowed_capabilities'')" using mem(2) by simp
    then have "members t ''allowed_capabilities'' \<noteq> []" by (cases "members t ''allowed_capabilities''") auto
    moreover have "s \<notin> set (conditional_names env items)" if "JStr s \<in> set allowed \<union> set denied" for s
      using none(5,6) that by (auto simp: list_ex_iff)
    moreover have "c \<notin> set denied" if "c \<in> set allowed" for c
      using none(4) that py_eq_refl [of c] by (fastforce simp: list_ex_iff py_in_iff)
    ultimately show ?thesis
      unfolding Let_def items using none(3) str strd supp cond meth by (intro conjI ballI) blast+
  qed
qed

text \<open>
  A valid manifest has the required schema version and no unresolved question, and the present
  instant lies in its authorization window, whose ends are timestamps with an offset.
\<close>

theorem valid_manifest_window:
  assumes "validate_and_canonicalize env sn version supp hashes now cand = Inr mv" and "mv_valid mv"
  shows "\<exists>d. mv_document mv = Some d \<and> dict_get d ''schema_version'' = JStr version \<and>
    dict_get d ''unresolved_questions'' = JList [] \<and>
    (\<forall>e. dict_get d ''engagement'' = JObj e \<longrightarrow>
       (\<exists>not_before not_after. parse_time (dict_get e ''effective_from'') = Inr not_before \<and>
          parse_time (dict_get e ''expires_at'') = Inr not_after \<and>
          not_before \<le> now \<and> now < not_after))"
proof -
  from valid_manifestE [OF assms] obtain d where d: "mv_document mv = Some d"
    "manifest_issues env version supp hashes now cand = Inr (d, [])" by blast
  then obtain d1 where s1: "scan_assets env (scan_ids (scan_sources hashes cand)) cand = Inr (d1, [])"
    and s2: "scan_techniques env supp d1 = Inr (d, [])" and q: "question_issues cand = []"
    and v: "validity_issues now d = Inr []" and ver: "schema_version_issues version cand = []"
    by (auto simp: manifest_issues_def Let_def bindr_eq_Inr)
  have keep: "dict_get d k = dict_get cand k" if "k \<noteq> ''scope''" "k \<noteq> ''techniques''" for k
    using scan_assets_keeps [OF s1] scan_techniques_keeps [OF s2] that by simp
  have "dict_get d ''unresolved_questions'' = JList []" "dict_get d ''schema_version'' = JStr version"
    using q ver keep by (auto simp: question_issues_def schema_version_issues_def split: json.splits if_splits)
  moreover have "\<exists>f t. parse_time (dict_get e ''effective_from'') = Inr f \<and>
      parse_time (dict_get e ''expires_at'') = Inr t \<and> f \<le> now \<and> now < t"
    if "dict_get d ''engagement'' = JObj e" for e
    using v that
    by (auto simp: validity_issues_def catchr_def bindr_eq_Inr index_eq_Inr dict_get_def
        split: sum.splits if_splits option.splits)
  ultimately show ?thesis using d(1) by blast
qed

end
