(* ===== verification/Compiler.thy ===== *)
theory Compiler
  imports Document
begin

text \<open>
  \<^verbatim>\<open>packages/policy/src/pentai_policy/compiler.py\<close>: from a reviewed manifest to the policy the
  evaluator reads. Every asset gives one rule and one deny rule for each of its denied paths;
  identifiers are name-based, so the same manifest always gives the same policy.

  Results: the compiled policy denies by default, carries the window and the hash of the manifest and
  a content hash over the rest of it; every asset rule comes from an asset of the manifest, an allow
  rule only from an asset that allows; a denied path outranks the rule of its own asset.
\<close>

section \<open>Rules of an asset\<close>

definition compiler_namespace :: string where
  "compiler_namespace = ''825e6af6-8030-43c2-8968-933d894b14b5''"

definition stable_id :: "policy_env \<Rightarrow> string \<Rightarrow> json \<Rightarrow> json" where
  "stable_id env kind value =
     JStr (uuid5 env compiler_namespace (kind @ '':'' @ content_hash env value))"

text \<open>\<open>int(text)\<close>: optional sign and decimal digits with single underscores between digits.\<close>

definition py_int :: "string \<Rightarrow> int result" where
  "py_int s =
     (let t = strip s;
          digits = (if t \<noteq> [] \<and> hd t \<in> {CHR ''+'', CHR ''-''} then tl t else t);
          parts = split_on (CHR ''_'') digits in
      if list_all isdecimal parts
      then Inr ((if prefix ''-'' t then -1 else 1) * int_of_digits (concat parts))
      else Inl (ValueError ''invalid literal for int() with base 10''))"

text \<open>A method of \<open>str\<close> on a value that is not text.\<close>

definition text_of :: "json \<Rightarrow> string result" where
  "text_of v = (case v of JStr s \<Rightarrow> Inr s | _ \<Rightarrow> Inl AttributeError)"

definition truth :: "json \<Rightarrow> json" where
  "truth v = JBool (truthy v)"

definition asset_matcher :: "policy_env \<Rightarrow> json \<Rightarrow> (dict \<times> int) result" where
  "asset_matcher env asset =
     bindr (index asset ''type'') (\<lambda>kind.
     if kind = JStr ''url''
     then bindr (index asset ''canonical_value'') (\<lambda>value.
          bindr (canonicalize_url (idna_encode env) value) (\<lambda>target.
          Inr ([(''scheme'', JStr (cu_scheme target)),
                (''host'', host_json (cu_host_kind target) (cu_host_value target)),
                (''port'', JInt (cu_port target)), (''path'', JStr (cu_path target))],
               5000 + int (length (cu_path target)))))
     else guardr (\<not> hashable kind) TypeError (
     if kind = JStr ''domain'' \<or> kind = JStr ''wildcard_domain''
     then bindr (index asset ''canonical_value'') (\<lambda>value.
          bindr (get asset ''include_apex'' (JBool False)) (\<lambda>apex.
          bindr (text_of value) (\<lambda>text.
          Inr ([(''value'', value), (''include_apex'', truth apex)],
               (if kind = JStr ''domain'' then 4000 else 3000) + int (length (split_on (CHR ''.'') text))))))
     else if kind = JStr ''cidr''
     then bindr (index asset ''canonical_value'') (\<lambda>value.
          bindr (text_of value) (\<lambda>text.
          case split_on (CHR ''/'') text of
            _ # bits # _ \<Rightarrow> bindr (py_int bits) (\<lambda>n. Inr ([(''value'', value)], 2000 + n))
          | _ \<Rightarrow> Inl IndexError))
     else bindr (index asset ''canonical_value'') (\<lambda>value. Inr ([(''value'', value)], 4000))))"

definition rule_json ::
  "json \<Rightarrow> json \<Rightarrow> json \<Rightarrow> dict \<Rightarrow> int \<Rightarrow> json list \<Rightarrow> json list \<Rightarrow> json \<Rightarrow> json" where
  "rule_json rule_id effect kind matcher specificity ports paths source =
     JObj [(''rule_id'', rule_id), (''effect'', effect), (''asset_type'', kind), (''matcher'', JObj matcher),
           (''specificity'', JInt specificity), (''allowed_ports'', JList ports),
           (''allowed_paths'', JList paths), (''source_references'', JList [source])]"

definition deny_rule ::
  "policy_env \<Rightarrow> json \<Rightarrow> json \<Rightarrow> dict \<Rightarrow> int \<Rightarrow> json list \<Rightarrow> json \<Rightarrow> json \<Rightarrow> json result" where
  "deny_rule env seed kind matcher specificity ports source denied_path =
     (case denied_path of
        JStr p \<Rightarrow>
          Inr (rule_json
            (stable_id env ''asset-path-deny'' (JObj [(''parent'', seed), (''denied_path'', denied_path)]))
            (JStr ''deny'') kind (dict_put matcher ''path_prefix'' denied_path)
            (specificity + 100 + int (length p)) ports [denied_path] source)
      | _ \<Rightarrow> Inl TypeError)"

definition asset_rules_of :: "policy_env \<Rightarrow> json \<Rightarrow> json list result" where
  "asset_rules_of env asset =
     bindr (asset_matcher env asset) (\<lambda>(matcher, specificity).
     bindr (index asset ''asset_id'') (\<lambda>asset_id.
     bindr (index asset ''effect'') (\<lambda>effect.
     bindr (index asset ''type'') (\<lambda>kind.
     let seed = JObj [(''asset_id'', asset_id), (''effect'', effect), (''type'', kind),
                      (''matcher'', JObj matcher)] in
     bindr (bindr (get asset ''allowed_ports'' (JList [])) sorted_set) (\<lambda>ports.
     bindr (bindr (get asset ''allowed_paths'' (JList [])) sorted_set) (\<lambda>paths.
     bindr (index asset ''source_reference'') (\<lambda>source.
     bindr (bindr (get asset ''denied_paths'' (JList [])) sorted_set) (\<lambda>denied.
     bindr (traverse (deny_rule env seed kind matcher specificity ports source) denied) (\<lambda>denies.
     Inr (rule_json (stable_id env ''asset-rule'' seed) effect kind matcher specificity ports paths source
          # denies))))))))))"

section \<open>Rules of capabilities\<close>

type_synonym effect_entry = "json \<times> string \<times> json list"

definition conditional_entry :: "json \<Rightarrow> effect_entry result" where
  "conditional_entry item =
     bindr (index item ''capability'') (\<lambda>capability.
     bindr (bindr (get item ''conditions'' (JList [])) elements) (\<lambda>conditions.
     bindr (traverse (\<lambda>c. mapr (\<lambda>a. JObj [(''description'', c), (''approval_type'', a)])
                            (index item ''approval_type'')) conditions) (\<lambda>cs.
     Inr (capability, ''conditional'', cs))))"

definition iterated :: "json \<Rightarrow> string \<Rightarrow> json list result" where
  "iterated d k = bindr (index d k) elements"

definition capability_entries :: "json \<Rightarrow> effect_entry list result" where
  "capability_entries techniques =
     bindr (iterated techniques ''allowed_capabilities'') (\<lambda>allowed.
     bindr (iterated techniques ''denied_capabilities'') (\<lambda>denied.
     bindr (iterated techniques ''conditional_capabilities'') (\<lambda>conditional.
     bindr (traverse conditional_entry conditional) (\<lambda>entries.
     Inr (map (\<lambda>c. (c, ''allow'', [])) allowed @ map (\<lambda>c. (c, ''deny'', [])) denied @ entries)))))"

definition entry_key :: "policy_env \<Rightarrow> effect_entry \<Rightarrow> json result" where
  "entry_key env e =
     (let (capability, effect, conditions) = e
      in Inr (JList [capability, JStr effect, JStr (content_hash env (JList conditions))]))"

definition rule_sources :: "json list \<Rightarrow> json list result" where
  "rule_sources rules =
     bindr (traverse (\<lambda>r. iterated r ''source_references'') rules) (\<lambda>sss. sorted_set (JList (concat sss)))"

definition capability_rule :: "policy_env \<Rightarrow> json list \<Rightarrow> effect_entry \<Rightarrow> json result" where
  "capability_rule env asset_rules e =
     (let (capability, effect, conditions) = e;
          seed = JObj [(''capability'', capability), (''effect'', JStr effect), (''conditions'', JList conditions)] in
      bindr (rule_sources asset_rules) (\<lambda>sources.
      Inr (JObj [(''rule_id'', stable_id env ''capability-rule'' seed), (''capability'', capability),
                 (''effect'', JStr effect), (''conditions'', JList conditions),
                 (''source_references'', JList sources)])))"

definition capability_rules_of :: "policy_env \<Rightarrow> json \<Rightarrow> json list \<Rightarrow> json list result" where
  "capability_rules_of env techniques asset_rules =
     bindr (capability_entries techniques) (\<lambda>entries.
     bindr (sort_by (entry_key env) entries) (\<lambda>entries.
     traverse (capability_rule env asset_rules) entries))"

section \<open>The policy\<close>

text \<open>\<open>v * 60\<close>.\<close>

fun times_sixty :: "policy_env \<Rightarrow> json \<Rightarrow> json result" where
  "times_sixty env (JInt i) = Inr (JInt (i * 60))"
| "times_sixty env (JBool b) = Inr (JInt (if b then 60 else 0))"
| "times_sixty env (JFloat r) = Inr (JFloat (float_times env r 60))"
| "times_sixty env (JStr s) = Inr (JStr (concat (replicate 60 s)))"
| "times_sixty env (JList xs) = Inr (JList (concat (replicate 60 xs)))"
| "times_sixty env _ = Inl TypeError"

definition budgets_of :: "policy_env \<Rightarrow> json \<Rightarrow> json result" where
  "budgets_of env limits =
     bindr (index limits ''requests_per_second'') (\<lambda>global_rps.
     bindr (index limits ''per_host_requests_per_second'') (\<lambda>per_host_rps.
     bindr (index limits ''burst_limit'') (\<lambda>burst.
     bindr (index limits ''concurrent_connections'') (\<lambda>concurrent.
     bindr (index limits ''maximum_total_requests'') (\<lambda>total.
     bindr (bindr (index limits ''maximum_runtime_minutes'') (times_sixty env)) (\<lambda>runtime.
     bindr (get limits ''maximum_request_body_bytes'' (JInt 0)) (\<lambda>body.
     bindr (index limits ''maximum_response_bytes'') (\<lambda>response.
     Inr (JObj [(''global_rps'', global_rps), (''per_host_rps'', per_host_rps), (''burst'', burst),
                (''concurrent_connections'', concurrent), (''maximum_total_requests'', total),
                (''maximum_runtime_seconds'', runtime), (''maximum_request_body_bytes'', body),
                (''maximum_response_bytes'', response)])))))))))"

definition network_constraints_of :: "json \<Rightarrow> json result" where
  "network_constraints_of network =
     bindr (get network ''route_profile_id'' JNull) (\<lambda>profile.
     bindr (if truthy profile then Inr profile else index network ''route_mode'') (\<lambda>route.
     bindr (bindr (iterated network ''registered_source_ipv4'') py_sorted) (\<lambda>ipv4.
     bindr (bindr (iterated network ''registered_source_ipv6'') py_sorted) (\<lambda>ipv6.
     bindr (index network ''ipv6_mode'') (\<lambda>ipv6_mode.
     bindr (index network ''dns_mode'') (\<lambda>dns_mode.
     Inr (JObj [(''route_profile_id'', route), (''registered_source_ipv4'', JList ipv4),
                (''registered_source_ipv6'', JList ipv6), (''ipv6_mode'', ipv6_mode),
                (''dns_mode'', dns_mode), (''pause_on_identity_change'', JBool True)])))))))"

definition testing_schedule_of :: "json \<Rightarrow> dict result" where
  "testing_schedule_of limits =
     (case limits of
        JObj d \<Rightarrow>
          if \<not> dict_has d ''allowed_testing_windows'' then Inr []
          else bindr (bindr (iterated limits ''allowed_testing_windows'')
                 (sort_by (fields_key [''timezone'', ''start_time'', ''end_time'', ''days'']))) (\<lambda>windows.
               bindr (bindr (elements (dict_default d ''blackout_periods'' (JList [])))
                 (sort_by (fields_key [''starts_at'', ''ends_at'', ''reason'']))) (\<lambda>periods.
               Inr [(''testing_schedule'',
                     JObj [(''allowed_windows'', JList windows), (''blackout_periods'', JList periods)])]))
      | _ \<Rightarrow> Inl TypeError)"

definition account_constraints_of :: "dict \<Rightarrow> dict result" where
  "account_constraints_of manifest =
     (case dict_get manifest ''account_controls'' of
        JObj controls \<Rightarrow>
          bindr (index (JObj controls) ''mode'') (\<lambda>mode.
          bindr (bindr (iterated (JObj controls) ''approved_account_references'') py_sorted) (\<lambda>refs.
          Inr [(''account_constraints'',
                JObj [(''mode'', mode), (''approved_account_references'', JList refs)])]))
      | _ \<Rightarrow> Inr [])"

abbreviation compiler_version :: string where
  "compiler_version \<equiv> ''1.2.0''"

text \<open>The policy without its content hash.\<close>

definition policy_body ::
  "policy_env \<Rightarrow> string \<Rightarrow> dict \<Rightarrow> string \<Rightarrow> json list \<Rightarrow> json list \<Rightarrow> dict result" where
  "policy_body env schema_version manifest manifest_hash asset_rules capability_rules =
     bindr (index (JObj manifest) ''operational_limits'') (\<lambda>limits.
     bindr (index (JObj manifest) ''network'') (\<lambda>network.
     bindr (index (JObj manifest) ''engagement'') (\<lambda>engagement.
     bindr (index engagement ''id'') (\<lambda>engagement_id.
     bindr (index engagement ''effective_from'') (\<lambda>not_before.
     bindr (index engagement ''expires_at'') (\<lambda>not_after.
     bindr (sort_by (\<lambda>r. index r ''rule_id'') asset_rules) (\<lambda>sorted_assets.
     bindr (sort_by (\<lambda>r. index r ''rule_id'') capability_rules) (\<lambda>sorted_capabilities.
     bindr (budgets_of env limits) (\<lambda>budgets.
     bindr (network_constraints_of network) (\<lambda>constraints.
     bindr (testing_schedule_of limits) (\<lambda>schedule.
     bindr (account_constraints_of manifest) (\<lambda>accounts.
     Inr ([(''schema_version'', JStr schema_version),
           (''policy_id'', stable_id env ''policy'' (JObj [(''manifest_hash'', JStr manifest_hash)])),
           (''engagement_id'', engagement_id), (''manifest_hash'', JStr manifest_hash),
           (''compiler'', JObj [(''name'', JStr ''pentai-policy-compiler''),
              (''version'', JStr compiler_version), (''canonicalization_version'', JStr ''1.0.0'')]),
           (''validity'', JObj [(''not_before'', not_before), (''not_after'', not_after),
              (''revocation_epoch'', JInt 0)]),
           (''asset_rules'', JList sorted_assets), (''capability_rules'', JList sorted_capabilities),
           (''budgets'', budgets), (''network_constraints'', constraints),
           (''approval_requirements'', JList []), (''default_effect'', JStr ''deny'')] @
          schedule @ accounts)))))))))))))"

definition compile_with :: "policy_env \<Rightarrow> string \<Rightarrow> dict \<Rightarrow> string \<Rightarrow> dict result" where
  "compile_with env schema_version manifest manifest_hash =
     guardr (truthy (dict_get manifest ''unresolved_questions''))
       (CompilationError ''AUTHORIZATION_AMBIGUOUS'') (
     bindr (bindr (index (JObj manifest) ''scope'') (\<lambda>scope. iterated scope ''assets'')) (\<lambda>assets.
     bindr (anyr (\<lambda>asset. mapr (\<lambda>e. e = JStr ''allow'') (index asset ''effect'')) assets) (\<lambda>some_allow.
     guardr (\<not> some_allow) (CompilationError ''SCOPE_EMPTY'') (
     bindr (mapr concat (traverse (asset_rules_of env) assets)) (\<lambda>asset_rules.
     bindr (index (JObj manifest) ''techniques'') (\<lambda>techniques.
     bindr (capability_rules_of env techniques asset_rules) (\<lambda>capability_rules.
     bindr (policy_body env schema_version manifest manifest_hash asset_rules capability_rules) (\<lambda>policy.
     Inr (policy @ [(''content_hash'', JStr (content_hash env (JObj policy)))])))))))))"

definition compile_manifest :: "policy_env \<Rightarrow> dict \<Rightarrow> string \<Rightarrow> dict result" where
  "compile_manifest env = compile_with env ''1.0.0''"

text \<open>\<open>x in v\<close> for any container.\<close>

definition py_contains :: "json \<Rightarrow> json \<Rightarrow> bool result" where
  "py_contains v x =
     (case v of
        JList xs \<Rightarrow> Inr (py_in x xs)
      | JObj d \<Rightarrow> if hashable x then Inr (is_str x \<and> dict_has d (str_of x)) else Inl TypeError
      | JStr s \<Rightarrow> if is_str x then Inr (sublist (str_of x) s) else Inl TypeError
      | _ \<Rightarrow> Inl TypeError)"

definition method_missing :: "json \<Rightarrow> json \<Rightarrow> bool result" where
  "method_missing techniques capability =
     bindr (text_of capability) (\<lambda>c.
     if \<not> prefix ''network.http.'' c then Inr False
     else bindr (index techniques ''allowed_http_methods'') (\<lambda>methods.
          mapr Not (py_contains methods (capability_method capability))))"

definition capability_policy_invalid :: "json \<Rightarrow> bool result" where
  "capability_policy_invalid techniques =
     bindr (index techniques ''allowed_capabilities'') (\<lambda>allowed.
     bindr (index techniques ''denied_capabilities'') (\<lambda>denied.
     bindr (bindr (iterated techniques ''conditional_capabilities'')
              (traverse (\<lambda>item. index item ''capability''))) (\<lambda>conditional.
     case (allowed, denied) of
       (JList a, JList b) \<Rightarrow>
         (let capabilities = a @ b @ conditional in
          bindr (anyr (\<lambda>c. mapr Not (in_ids c supported_capabilities_v3)) capabilities) (\<lambda>unsupported.
          if unsupported then Inr True
          else bindr (py_set capabilities) (\<lambda>unique.
            if length capabilities \<noteq> length unique then Inr True
            else anyr (method_missing techniques) a)))
     | _ \<Rightarrow> Inl TypeError)))"

definition compile_manifest_v2 :: "policy_env \<Rightarrow> dict \<Rightarrow> string \<Rightarrow> dict result" where
  "compile_manifest_v2 env manifest manifest_hash =
     guardr (contract_issues env (JObj manifest) ''engagement-manifest-v3.schema.json'' \<noteq> [])
       (CompilationError ''MANIFEST_VERSION_UNSUPPORTED'') (
     bindr (index (JObj manifest) ''techniques'') (\<lambda>techniques.
     bindr (capability_policy_invalid techniques) (\<lambda>bad.
     guardr bad (CompilationError ''CAPABILITY_POLICY_INVALID'') (
     bindr (compile_with env ''2.0.0'' manifest manifest_hash) (\<lambda>policy.
     guardr (contract_issues env (JObj policy) ''policy-ir-v2.schema.json'' \<noteq> [])
       (CompilationError ''POLICY_CONTRACT_INVALID'') (Inr policy))))))"

end
