(* ===== verification/Evaluator.thy ===== *)
theory Evaluator
  imports Compiler
begin

text \<open>
  \<^verbatim>\<open>packages/policy/src/pentai_policy/evaluator.py\<close>: the policy decision point. The long function
  \<open>evaluate\<close> is split at its blank lines: the gates on the policy and the clock, the target and the
  account, the capability, the asset rules; each block returns the arguments of the \<open>_decision\<close> call
  it ends with, or passes on.

  Results: path matching is matching of segment prefixes; an allow decision implies every gate; a
  deny rule of highest specificity wins; no match means deny; the schedule deadline lies in the
  future, outside blackouts and before the next one.
\<close>

section \<open>Paths and assets\<close>

definition path_matches :: "string \<Rightarrow> string \<Rightarrow> bool" where
  "path_matches pre path =
     (let pre = (if rstrip (\<lambda>c. c = CHR ''/'') pre = [] then ''/''
                 else rstrip (\<lambda>c. c = CHR ''/'') pre)
      in pre = ''/'' \<or> path = pre \<or> prefix (pre @ ''/'') path)"

text \<open>A prefix that is not text has no method \<open>rstrip\<close>.\<close>

definition path_matches_json :: "json \<Rightarrow> string \<Rightarrow> bool result" where
  "path_matches_json pre path = mapr (\<lambda>p. path_matches p path) (text_of pre)"

text \<open>\<open>ip_network(v)\<close>: an integer denotes the network of one address.\<close>

definition network_of :: "json \<Rightarrow> ip_network result" where
  "network_of v =
     (let of_int = (\<lambda>n. if 0 \<le> n \<and> n < 2 ^ 32 then Inr \<lparr>net_address = IPv4 n, net_prefix = 32\<rparr>
            else if 0 \<le> n \<and> n < 2 ^ 128 then Inr \<lparr>net_address = IPv6 n, net_prefix = 128\<rparr>
            else Inl address_error)
      in case v of
           JStr s \<Rightarrow> (case parse_network s of None \<Rightarrow> Inl address_error | Some n \<Rightarrow> Inr n)
         | JInt n \<Rightarrow> of_int n
         | JBool b \<Rightarrow> of_int (if b then 1 else 0)
         | _ \<Rightarrow> Inl address_error)"

definition address_of :: "string \<Rightarrow> ip_address result" where
  "address_of s = (case parse_ip s of None \<Rightarrow> Inl address_error | Some a \<Rightarrow> Inr a)"

definition url_rule_matches :: "json \<Rightarrow> canonical_url \<Rightarrow> bool result" where
  "url_rule_matches matcher target =
     bindr (index matcher ''scheme'') (\<lambda>scheme.
     if scheme \<noteq> JStr (cu_scheme target) then Inr False
     else bindr (index matcher ''host'') (\<lambda>host.
     if \<not> py_eq host (host_json (cu_host_kind target) (cu_host_value target)) then Inr False
     else bindr (index matcher ''port'') (\<lambda>port.
     if \<not> py_eq port (JInt (cu_port target)) then Inr False
     else bindr (index matcher ''path'') (\<lambda>path. path_matches_json path (cu_path target)))))"

definition wildcard_matches :: "json \<Rightarrow> canonical_url \<Rightarrow> bool result" where
  "wildcard_matches matcher target =
     (if cu_host_kind target \<noteq> ''domain'' then Inr False
      else bindr (index matcher ''value'') (\<lambda>base.
           bindr (get matcher ''include_apex'' JNull) (\<lambda>apex.
           if truthy apex \<and> base = JStr (cu_host_value target) then Inr True
           else (case base of
                   JStr b \<Rightarrow> Inr (suffix (''.'' @ b) (cu_host_value target))
                 | _ \<Rightarrow> Inl TypeError))))"

definition asset_matches :: "json \<Rightarrow> canonical_url \<Rightarrow> bool result" where
  "asset_matches rule target =
     bindr (index rule ''matcher'') (\<lambda>matcher.
     bindr (index rule ''asset_type'') (\<lambda>kind.
     bindr (get matcher ''path_prefix'' JNull) (\<lambda>path_prefix.
     bindr (if path_prefix = JNull then Inr True else path_matches_json path_prefix (cu_path target)) (\<lambda>inside.
     if \<not> inside then Inr False
     else if kind = JStr ''url'' then url_rule_matches matcher target
     else if kind = JStr ''domain''
     then mapr (\<lambda>v. cu_host_kind target = ''domain'' \<and> v = JStr (cu_host_value target)) (index matcher ''value'')
     else if kind = JStr ''wildcard_domain'' then wildcard_matches matcher target
     else if \<not> hashable kind then Inl TypeError
     else if kind = JStr ''ipv4'' \<or> kind = JStr ''ipv6''
     then mapr (\<lambda>v. kind = JStr (cu_host_kind target) \<and> v = JStr (cu_host_value target)) (index matcher ''value'')
     else if kind = JStr ''cidr'' \<and> cu_host_kind target \<in> {''ipv4'', ''ipv6''}
     then bindr (address_of (cu_host_value target)) (\<lambda>a.
          bindr (bindr (index matcher ''value'') network_of) (\<lambda>n. Inr (in_network a n)))
     else Inr False))))"

section \<open>Testing schedules\<close>

definition weekdays :: "string list" where
  "weekdays = [''monday'', ''tuesday'', ''wednesday'', ''thursday'', ''friday'', ''saturday'', ''sunday'']"

text \<open>Day 1 of year 1 is a Monday.\<close>

definition weekday_name :: "int \<Rightarrow> string" where
  "weekday_name local_time = weekdays ! nat (local_time div us_day mod 7)"

definition clock_text :: "int \<Rightarrow> string" where
  "clock_text local_time =
     (let m = local_time mod us_day div (60 * us_second)
      in pad_digits 2 (m div 60) @ '':'' @ pad_digits 2 (m mod 60))"

definition time_fromisoformat :: "json \<Rightarrow> int result" where
  "time_fromisoformat v =
     (case v of
        JStr s \<Rightarrow>
          bindr (parse_iso_time (if prefix ''T'' s then tl s else s)) (\<lambda>((h, m, sec, us), _).
          if h < 24 \<and> m < 60 \<and> sec < 60 then Inr (time_us (h, m, sec, us)) else Inl iso_error)
      | _ \<Rightarrow> Inl TypeError)"

text \<open>The instants at which a wall clock time occurs, for each value of \<open>fold\<close>.\<close>

definition wall_instants :: "zone \<Rightarrow> int \<Rightarrow> instant list result" where
  "wall_instants zone wall =
     mapr concat (traverse (\<lambda>fold.
       bindr (to_utc wall (wall_offset zone wall fold)) (\<lambda>candidate.
       bindr (instant_add candidate (utc_offset zone candidate)) (\<lambda>back.
       Inr (if back = wall then [candidate] else [])))) [False, True])"

definition min_instant :: "instant list \<Rightarrow> instant option" where
  "min_instant ts = (case ts of [] \<Rightarrow> None | t # us \<Rightarrow> Some (fold min us t))"

definition window_end :: "policy_env \<Rightarrow> json \<Rightarrow> instant \<Rightarrow> instant option result" where
  "window_end env window instant =
     bindr (bindr (index window ''timezone'') (zone_of env)) (\<lambda>zone.
     bindr (instant_add instant (utc_offset zone instant)) (\<lambda>local_time.
     let current = JStr (clock_text local_time) in
     bindr (index window ''days'') (\<lambda>days.
     bindr (py_contains days (JStr (weekday_name local_time))) (\<lambda>today.
     if \<not> today then Inr None
     else bindr (index window ''start_time'') (\<lambda>start.
     bindr (compare_less current start) (\<lambda>early.
     if early then Inr None
     else bindr (index window ''end_time'') (\<lambda>end_time.
     bindr (compare_less current end_time) (\<lambda>open_now.
     if \<not> open_now then Inr None
     else bindr (time_fromisoformat end_time) (\<lambda>local_end.
     bindr (wall_instants zone (local_time div us_day * us_day + local_end)) (\<lambda>candidates.
     Inr (min_instant (filter (\<lambda>c. c > instant) candidates))))))))))))"

text \<open>
  The blackout loop: \<open>None\<close> inside a blackout, otherwise the starts of those to come. The end of a
  period is read only when it has started.
\<close>

fun blackout_scan :: "instant \<Rightarrow> instant list \<Rightarrow> json list \<Rightarrow> instant list option result" where
  "blackout_scan instant starts [] = Inr (Some starts)"
| "blackout_scan instant starts (period # periods) =
     bindr (bindr (index period ''starts_at'') parse_time) (\<lambda>starts_at.
     if starts_at \<le> instant
     then bindr (bindr (index period ''ends_at'') parse_time) (\<lambda>ends_at.
          if instant < ends_at then Inr None else blackout_scan instant starts periods)
     else blackout_scan instant (starts @ [starts_at]) periods)"

fun deadline_of :: "instant \<Rightarrow> instant list \<Rightarrow> instant list \<Rightarrow> instant option" where
  "deadline_of instant [] starts = None"
| "deadline_of instant (e # ends) starts =
     (let latest = fold max ends e;
          deadline = (case min_instant starts of None \<Rightarrow> latest | Some s \<Rightarrow> min latest s)
      in if deadline > instant then Some deadline else None)"

definition testing_schedule_deadline :: "policy_env \<Rightarrow> json \<Rightarrow> instant \<Rightarrow> instant option result" where
  "testing_schedule_deadline env schedule instant =
     catchr
       (bindr (iterated schedule ''blackout_periods'') (\<lambda>periods.
        bindr (blackout_scan instant [] periods) (\<lambda>scan.
        case scan of
          None \<Rightarrow> Inr None
        | Some starts \<Rightarrow>
            bindr (iterated schedule ''allowed_windows'') (\<lambda>windows.
            bindr (traverse (\<lambda>w. window_end env w instant) windows) (\<lambda>ends.
            Inr (deadline_of instant (map the (filter (\<lambda>e. e \<noteq> None) ends)) starts))))))
       (\<lambda>e. if is_KeyError e \<or> e = TypeError \<or> is_ValueError e then Inr None else Inl e)"

definition testing_schedule_allows :: "policy_env \<Rightarrow> json \<Rightarrow> instant \<Rightarrow> bool result" where
  "testing_schedule_allows env schedule instant =
     mapr (\<lambda>d. d \<noteq> None) (testing_schedule_deadline env schedule instant)"

section \<open>Decisions\<close>

definition evaluator_namespace :: string where
  "evaluator_namespace = ''9b879065-2de4-4fd7-b03c-5fe2bccdfcca''"

abbreviation evaluator_version :: string where
  "evaluator_version \<equiv> ''1.0.0''"

definition runtime_checks :: "json list" where
  "runtime_checks =
     map JStr [''policy_status'', ''clock'', ''route_identity'', ''source_ip'', ''dns'', ''destination_ip'',
               ''sni_host'', ''port'', ''redirect'', ''rate'', ''response_size'']"

abbreviation nil_uuid :: json where
  "nil_uuid \<equiv> JStr ''00000000-0000-0000-0000-000000000000''"

definition decision ::
  "policy_env \<Rightarrow> dict \<Rightarrow> string \<Rightarrow> string \<Rightarrow> string list \<Rightarrow> json list \<Rightarrow> dict result" where
  "decision env intent policy_hash outcome reasons rule_ids =
     bindr (sorted_set (JList rule_ids)) (\<lambda>evaluated.
     let seed = JObj [(''intent'', JObj intent), (''policy_hash'', JStr policy_hash),
                      (''outcome'', JStr outcome), (''reason_codes'', JList (map JStr reasons)),
                      (''evaluated_rule_ids'', JList evaluated)] in
     Inr [(''schema_version'', JStr ''1.0.0''),
          (''decision_id'', JStr (uuid5 env evaluator_namespace (content_hash env seed))),
          (''intent_id'', dict_default intent ''intent_id'' nil_uuid),
          (''assessment_id'', dict_default intent ''assessment_id'' nil_uuid),
          (''policy_hash'', JStr policy_hash), (''outcome'', JStr outcome),
          (''reason_codes'', JList (map JStr reasons)), (''evaluated_rule_ids'', JList evaluated),
          (''runtime_checks_required'', JList (if outcome = ''allow'' then runtime_checks else [])),
          (''decided_at'', dict_default intent ''created_at'' (JStr ''1970-01-01T00:00:00Z'')),
          (''evaluator'', JObj [(''name'', JStr ''pentai-policy-evaluator''),
             (''version'', JStr evaluator_version), (''canonicalization_version'', JStr ''1.0.0'')])])"

text \<open>Outcome, reason and rules of a decision.\<close>

type_synonym verdict = "string \<times> string \<times> json list"

abbreviation denied :: "string \<Rightarrow> json list \<Rightarrow> verdict" where
  "denied reason rules \<equiv> (''deny'', reason, rules)"

definition stored_hash :: "policy_env \<Rightarrow> dict \<Rightarrow> string" where
  "stored_hash env policy =
     py_str (float_repr env) (dict_default policy ''content_hash'' (JStr (replicate 64 (CHR ''0''))))"

definition unsigned_policy :: "dict \<Rightarrow> dict" where
  "unsigned_policy policy = filter (\<lambda>(k, _). k \<noteq> ''content_hash'' \<and> k \<noteq> ''signature'') policy"

definition signed_hash :: "policy_env \<Rightarrow> dict \<Rightarrow> string" where
  "signed_hash env policy =
     (let signer = (case dict_default policy ''signature'' (JObj []) of
                      JObj s \<Rightarrow> dict_get s ''key_id'' | _ \<Rightarrow> JNull)
      in content_hash env
           (JObj [(''policy'', JObj (unsigned_policy policy)), (''signer_key_id'', signer)]))"

text \<open>The gates on the policy, the intent and the clock, up to the testing schedule.\<close>

definition clock_gate :: "policy_env \<Rightarrow> dict \<Rightarrow> dict \<Rightarrow> instant \<Rightarrow> verdict option result" where
  "clock_gate env intent policy now =
     bindr (bindr (index (JObj policy) ''validity'') (\<lambda>v. bindr (index v ''not_before'') parse_time)) (\<lambda>not_before.
     if now < not_before then Inr (Some (denied ''POLICY_INACTIVE'' []))
     else bindr (bindr (index (JObj policy) ''validity'') (\<lambda>v. bindr (index v ''not_after'') parse_time)) (\<lambda>not_after.
     if now \<ge> not_after then Inr (Some (denied ''POLICY_EXPIRED'' []))
     else bindr (bindr (index (JObj intent) ''created_at'') parse_time) (\<lambda>created_at.
     if now < created_at then Inr (Some (denied ''TESTING_WINDOW_CLOSED'' []))
     else bindr (bindr (index (JObj intent) ''expires_at'') parse_time) (\<lambda>expires_at.
     if now \<ge> expires_at then Inr (Some (denied ''TESTING_WINDOW_CLOSED'' []))
     else (case dict_get policy ''testing_schedule'' of
             JObj schedule \<Rightarrow>
               bindr (testing_schedule_allows env (JObj schedule) now) (\<lambda>allows.
               Inr (if allows then None else Some (denied ''TESTING_WINDOW_CLOSED'' [])))
           | _ \<Rightarrow> Inr None)))))"

definition policy_gate :: "policy_env \<Rightarrow> dict \<Rightarrow> dict \<Rightarrow> bool \<Rightarrow> bool \<Rightarrow> verdict option result" where
  "policy_gate env intent policy active revoked =
     (if signed_hash env policy \<noteq> stored_hash env policy \<or>
         dict_get intent ''policy_hash'' \<noteq> JStr (stored_hash env policy)
      then Inr (Some (denied ''POLICY_HASH_MISMATCH'' []))
      else if contract_issues env (JObj intent) ''action-intent-v1.schema.json'' \<noteq> []
      then Inr (Some (denied ''DEFAULT_DENY'' []))
      else bindr (index (JObj intent) ''assessment_id'') (\<lambda>assessment.
        Inr (if \<not> py_eq assessment (dict_get policy ''engagement_id'') then Some (denied ''DEFAULT_DENY'' [])
             else if revoked then Some (denied ''POLICY_REVOKED'' [])
             else if \<not> active then Some (denied ''POLICY_INACTIVE'' [])
             else None)))"

text \<open>The target: the canonical form of its URL, which must be the target itself.\<close>

definition target_of :: "policy_env \<Rightarrow> dict \<Rightarrow> canonical_url option result" where
  "target_of env intent =
     catchr
       (bindr (bindr (index (JObj intent) ''target'') (\<lambda>t. index t ''canonical_url'')) (\<lambda>u.
        mapr (\<lambda>c. if py_eq (asdict c) (dict_get intent ''target'') then Some c else None)
          (canonicalize_url (idna_encode env) u)))
       (\<lambda>e. if is_CanonicalizationError e \<or> is_KeyError e \<or> e = TypeError then Inr None else Inl e)"

definition account_denied :: "dict \<Rightarrow> dict \<Rightarrow> bool result" where
  "account_denied intent policy =
     (case dict_get policy ''account_constraints'' of
        JObj constraints \<Rightarrow>
          (let account = dict_get intent ''account_reference''; mode = dict_get constraints ''mode'' in
           if mode = JStr ''unauthenticated_only'' \<and> truthy account then Inr True
           else if mode = JStr ''approved_test_accounts''
           then (if \<not> truthy account then Inr True
                 else mapr Not (py_contains
                        (dict_default constraints ''approved_account_references'' (JList [])) account))
           else Inr False)
      | _ \<Rightarrow> Inr False)"

definition rules_for :: "dict \<Rightarrow> dict \<Rightarrow> json list result" where
  "rules_for intent policy =
     bindr (iterated (JObj policy) ''capability_rules'') (\<lambda>rules.
     filterr (\<lambda>rule. mapr (\<lambda>c. py_eq c (dict_get intent ''capability'')) (index rule ''capability'')) rules)"

definition has_effect :: "string \<Rightarrow> json \<Rightarrow> bool result" where
  "has_effect effect rule = mapr (\<lambda>e. e = JStr effect) (index rule ''effect'')"

definition rule_id :: "json \<Rightarrow> json result" where
  "rule_id rule = index rule ''rule_id''"

definition capability_gate :: "dict \<Rightarrow> dict \<Rightarrow> verdict option result" where
  "capability_gate intent policy =
     bindr (rules_for intent policy) (\<lambda>rules.
     bindr (anyr (has_effect ''deny'') rules) (\<lambda>some_deny.
     if rules = [] \<or> some_deny
     then mapr (\<lambda>ids. Some (denied ''CAPABILITY_DENIED'' ids)) (traverse rule_id rules)
     else bindr (anyr (has_effect ''conditional'') rules) (\<lambda>some_conditional.
     if some_conditional
     then mapr (\<lambda>ids. Some (denied ''APPROVAL_MISSING'' ids)) (traverse rule_id rules)
     else bindr (index (JObj intent) ''capability'') (\<lambda>capability.
     guardr (\<not> hashable capability) TypeError (
     bindr (get (dict_default intent ''http'' (JObj [])) ''method'' JNull) (\<lambda>http_method.
     if \<not> py_eq http_method (capability_method capability)
     then mapr (\<lambda>ids. Some (denied ''METHOD_DENIED'' ids)) (traverse rule_id rules)
     else Inr None))))))"

definition max_specificity :: "json list \<Rightarrow> json result" where
  "max_specificity rules =
     bindr (traverse (\<lambda>r. index r ''specificity'') rules) (\<lambda>ss.
     foldr_result (\<lambda>m s. mapr (\<lambda>l. if l then s else m) (compare_less m s)) (hd ss) (tl ss))"

text \<open>The loop over the applicable rules: the first port or path that is not allowed decides.\<close>

fun limits_gate :: "canonical_url \<Rightarrow> json list \<Rightarrow> string option result" where
  "limits_gate target [] = Inr None"
| "limits_gate target (rule # rules) =
     bindr (get rule ''allowed_ports'' (JList [])) (\<lambda>ports.
     bindr (if truthy ports then py_contains ports (JInt (cu_port target)) else Inr True) (\<lambda>port_ok.
     if \<not> port_ok then Inr (Some ''PORT_DENIED'')
     else bindr (get rule ''allowed_paths'' (JList [])) (\<lambda>paths.
     bindr (if truthy paths then bindr (elements paths) (anyr (\<lambda>p. path_matches_json p (cu_path target)))
            else Inr True) (\<lambda>path_ok.
     if \<not> path_ok then Inr (Some ''PATH_DENIED'') else limits_gate target rules))))"

definition asset_verdict :: "dict \<Rightarrow> canonical_url \<Rightarrow> verdict result" where
  "asset_verdict policy target =
     bindr (iterated (JObj policy) ''asset_rules'') (\<lambda>rules.
     bindr (filterr (\<lambda>rule. asset_matches rule target) rules) (\<lambda>found.
     if found = [] then Inr (denied ''TARGET_OUT_OF_SCOPE'' [])
     else bindr (max_specificity found) (\<lambda>top.
     bindr (filterr (\<lambda>rule. bindr (index rule ''specificity'') (\<lambda>s. mapr Not (compare_less s top))) found) (\<lambda>applicable.
     bindr (traverse rule_id applicable) (\<lambda>ids.
     bindr (anyr (has_effect ''deny'') applicable) (\<lambda>some_deny.
     if some_deny then Inr (denied ''EXPLICIT_DENY'' ids)
     else bindr (anyr (\<lambda>rule. mapr Not (has_effect ''allow'' rule)) applicable) (\<lambda>other.
     if other then Inr (denied ''DEFAULT_DENY'' ids)
     else bindr (limits_gate target applicable) (\<lambda>refused.
     Inr (case refused of Some reason \<Rightarrow> denied reason ids | None \<Rightarrow> (''allow'', ''EXPLICIT_ALLOW'', ids))))))))))"

definition target_verdict :: "policy_env \<Rightarrow> dict \<Rightarrow> dict \<Rightarrow> verdict result" where
  "target_verdict env intent policy =
     bindr (target_of env intent) (\<lambda>target.
     case target of
       None \<Rightarrow> Inr (denied ''TARGET_AMBIGUOUS'' [])
     | Some target \<Rightarrow>
         bindr (account_denied intent policy) (\<lambda>bad_account.
         if bad_account then Inr (denied ''ACCOUNT_DENIED'' [])
         else bindr (capability_gate intent policy) (\<lambda>refused.
         case refused of Some v \<Rightarrow> Inr v | None \<Rightarrow> asset_verdict policy target)))"

definition verdict_of :: "policy_env \<Rightarrow> dict \<Rightarrow> dict \<Rightarrow> bool \<Rightarrow> bool \<Rightarrow> instant \<Rightarrow> verdict result" where
  "verdict_of env intent policy active revoked now =
     bindr (policy_gate env intent policy active revoked) (\<lambda>refused.
     case refused of
       Some v \<Rightarrow> Inr v
     | None \<Rightarrow>
         bindr (clock_gate env intent policy now) (\<lambda>refused.
         case refused of Some v \<Rightarrow> Inr v | None \<Rightarrow> target_verdict env intent policy))"

definition evaluate :: "policy_env \<Rightarrow> dict \<Rightarrow> dict \<Rightarrow> bool \<Rightarrow> bool \<Rightarrow> instant \<Rightarrow> dict result" where
  "evaluate env intent policy active revoked now =
     bindr (verdict_of env intent policy active revoked now) (\<lambda>(outcome, reason, rules).
     decision env intent (stored_hash env policy) outcome [reason] rules)"

section \<open>Paths match by segments\<close>

definition path_segments :: "string \<Rightarrow> string list" where
  "path_segments p = filter (\<lambda>s. s \<noteq> []) (split_on (CHR ''/'') p)"

lemma path_segments_path_of:
  assumes g: "\<forall>s \<in> set segs. good_segment s"
  shows "path_segments (path_of segs tr) = segs"
proof (cases "segs = []")
  case True
  then show ?thesis by (simp add: path_segments_def path_of_def)
next
  case False
  have "filter (\<lambda>s. s \<noteq> []) segs = segs"
    using g by (auto simp: filter_id_conv good_segment_def)
  then show ?thesis by (simp add: path_segments_def split_on_path_of [OF g False])
qed

lemma rstrip_path_of:
  assumes g: "\<forall>s \<in> set segs. good_segment s"
  shows "rstrip (\<lambda>c. c = CHR ''/'') (path_of segs tr) = (if segs = [] then [] else ''/'' @ join_with ''/'' segs)"
proof (cases "segs = []")
  case True
  then show ?thesis by (simp add: path_of_def rstrip_def)
next
  case False
  obtain xs x where x: "join_with ''/'' segs = xs @ [x]"
    using join_good_eq_Nil [OF g] False by (cases "join_with ''/'' segs" rule: rev_cases) auto
  moreover have "x \<noteq> CHR ''/''" using join_with_good_last [OF g] x by (auto simp: suffix_def)
  ultimately show ?thesis using False by (auto simp: path_of_def rstrip_def)
qed

lemma slash_free_eq:
  assumes "CHR ''/'' \<notin> set a" "CHR ''/'' \<notin> set b"
  shows "a @ CHR ''/'' # s = b @ CHR ''/'' # t \<longleftrightarrow> a = b \<and> s = t"
  using assms by (induction a arbitrary: b) (case_tac b; auto)+

text \<open>Every segment closed by a slash.\<close>

definition slashed :: "string list \<Rightarrow> string" where
  "slashed segs = concat (map (\<lambda>s. s @ ''/'') segs)"

lemma join_slashed: "segs \<noteq> [] \<Longrightarrow> join_with ''/'' segs @ ''/'' = slashed segs"
  by (induction "''/''" segs rule: join_with.induct) (auto simp: slashed_def)

lemma slashed_prefix:
  assumes "\<forall>s \<in> set ps. CHR ''/'' \<notin> set s" "\<forall>s \<in> set qs. CHR ''/'' \<notin> set s"
  shows "prefix (slashed ps) (slashed qs) \<longleftrightarrow> prefix ps qs"
  using assms
proof (induction ps arbitrary: qs)
  case Nil
  then show ?case by (simp add: slashed_def)
next
  case (Cons p ps)
  show ?case
  proof (cases qs)
    case Nil
    then show ?thesis by (simp add: slashed_def)
  next
    case (Cons q qs')
    have "prefix (p @ CHR ''/'' # slashed ps) (q @ CHR ''/'' # slashed qs') \<longleftrightarrow>
        p = q \<and> prefix (slashed ps) (slashed qs')"
    proof -
      have "(\<exists>r. q @ CHR ''/'' # slashed qs' = p @ CHR ''/'' # (slashed ps @ r)) \<longleftrightarrow>
          q = p \<and> (\<exists>r. slashed qs' = slashed ps @ r)"
        using slash_free_eq [of q p] Cons.prems Cons by auto
      then show ?thesis by (auto simp: prefix_def)
    qed
    then show ?thesis
      using Cons.IH [of qs'] Cons.prems Cons by (simp add: slashed_def)
  qed
qed

lemma path_matches_path_of:
  assumes p: "\<forall>s \<in> set ps. good_segment s" and q: "\<forall>s \<in> set qs. good_segment s"
  shows "path_matches (path_of ps tp) (path_of qs tq) \<longleftrightarrow> prefix ps qs"
proof (cases "ps = []")
  case True
  then show ?thesis using rstrip_path_of [OF p, of tp] by (simp add: path_matches_def)
next
  case False
  let ?p = "''/'' @ join_with ''/'' ps"
  have r: "rstrip (\<lambda>c. c = CHR ''/'') (path_of ps tp) = ?p" using rstrip_path_of [OF p] False by simp
  have pne: "join_with ''/'' ps \<noteq> []" using join_good_eq_Nil [OF p] False by simp
  have sp: "prefix (slashed ps) (slashed qs) \<longleftrightarrow> prefix ps qs"
    by (rule slashed_prefix) (use p q in \<open>auto simp: good_segment_def\<close>)
  have "path_of qs tq = ?p \<or> prefix (?p @ ''/'') (path_of qs tq) \<longleftrightarrow> prefix ps qs"
  proof (cases "qs = []")
    case True
    then show ?thesis using pne False by (auto simp: path_of_def)
  next
    case qs: False
    show ?thesis
    proof (cases tq)
      case True
      have "suffix ''/'' (path_of qs tq)" using suffix_path_of [OF q] True by simp
      moreover have "\<not> suffix ''/'' ?p" using suffix_path_of [OF p, of False] False by (simp add: path_of_def)
      ultimately have "path_of qs tq \<noteq> ?p" by auto
      then show ?thesis
        using sp True qs False by (auto simp: path_of_def join_slashed)
    next
      case f: False
      have "path_of qs tq = ?p \<or> prefix (?p @ ''/'') (path_of qs tq) \<longleftrightarrow>
          prefix (?p @ ''/'') (path_of qs tq @ ''/'')"
        by (auto simp: prefix_snoc)
      also have "\<dots> \<longleftrightarrow> prefix (slashed ps) (slashed qs)"
        using f qs False by (simp add: path_of_def join_slashed)
      finally show ?thesis using sp by simp
    qed
  qed
  then show ?thesis using r pne by (simp add: path_matches_def Let_def)
qed

text \<open>
  C10. On canonical paths the textual prefix test of the evaluator is the prefix order on path
  segments: \<open>/admin\<close> matches \<open>/admin\<close>, \<open>/admin/\<close> and \<open>/admin/x\<close>, and never \<open>/administrator\<close>.
\<close>

theorem path_matches_segments:
  assumes "canonicalize_path_str a = Inr p" and "canonicalize_path_str b = Inr q"
  shows "path_matches p q \<longleftrightarrow> prefix (path_segments p) (path_segments q)"
proof -
  from assms(1) obtain ps tp where p: "\<forall>s \<in> set ps. good_segment s" "p = path_of ps tp"
    by (rule canonicalize_path_shape)
  from assms(2) obtain qs tq where q: "\<forall>s \<in> set qs. good_segment s" "q = path_of qs tq"
    by (rule canonicalize_path_shape)
  show ?thesis
    using path_matches_path_of [OF p(1) q(1)] path_segments_path_of p q by simp
qed

theorem path_matches_segments_witness:
  "path_matches ''/admin'' ''/admin/x/'' \<and> prefix (path_segments ''/admin'') (path_segments ''/admin/x/'') \<and>
   \<not> path_matches ''/admin'' ''/administrator''"
proof -
  have 1: "canonicalize_path_str ''/admin'' = Inr ''/admin''" by code_simp
  have 2: "canonicalize_path_str ''/admin/x/'' = Inr ''/admin/x/''" by code_simp
  have 3: "canonicalize_path_str ''/administrator'' = Inr ''/administrator''" by code_simp
  have "prefix (path_segments ''/admin'') (path_segments ''/admin/x/'')"
    "\<not> prefix (path_segments ''/admin'') (path_segments ''/administrator'')" by code_simp+
  then show ?thesis using path_matches_segments [OF 1 2] path_matches_segments [OF 1 3] by simp
qed

section \<open>Deadlines of testing schedules\<close>

lemma fold_min_le: "fold min us t \<le> (t::int) \<and> (\<forall>u \<in> set us. fold min us t \<le> u)"
proof (induction us arbitrary: t)
  case (Cons u us)
  from Cons.IH [of "min u t"] show ?case by auto
qed simp

lemma fold_max_mem: "fold max us (t::int) \<in> insert t (set us)"
  by (induction us arbitrary: t) (auto simp: max_def)

lemma min_instant_None [simp]: "min_instant ts = None \<longleftrightarrow> ts = []"
  by (simp add: min_instant_def split: list.split)

lemma min_instant_le: "min_instant ts = Some m \<Longrightarrow> t \<in> set ts \<Longrightarrow> m \<le> t"
  using fold_min_le by (auto simp: min_instant_def split: list.splits)

lemma deadline_ofD:
  assumes "deadline_of now ends starts = Some t"
  shows "now < t" and "\<exists>e \<in> set ends. t \<le> e" and "s \<in> set starts \<Longrightarrow> t \<le> s"
proof -
  obtain e es where es: "ends = e # es" using assms by (cases ends) auto
  let ?d = "case min_instant starts of None \<Rightarrow> fold max es e | Some s \<Rightarrow> min (fold max es e) s"
  have t: "t = ?d" "now < t" using assms by (auto simp: es Let_def split: if_splits)
  then show "now < t" by simp
  have "t \<le> fold max es e" using t(1) by (auto split: option.splits)
  then show "\<exists>e \<in> set ends. t \<le> e" using fold_max_mem [of es e] by (auto simp: es)
  show "t \<le> s" if "s \<in> set starts"
    using t(1) that min_instant_le [of starts _ s] by (fastforce split: option.splits)
qed

lemma blackout_scan_Some:
  assumes "blackout_scan now starts ps = Inr (Some starts')" and "p \<in> set ps"
  shows "set starts \<subseteq> set starts' \<and>
    (\<exists>s. bindr (index p ''starts_at'') parse_time = Inr s \<and>
      (now < s \<and> s \<in> set starts' \<or>
       s \<le> now \<and> (\<exists>e. bindr (index p ''ends_at'') parse_time = Inr e \<and> e \<le> now)))"
  using assms
proof (induction now starts ps rule: blackout_scan.induct)
  case (2 now starts q ps)
  have mono: "set xs \<subseteq> set ys" if "blackout_scan n xs qs = Inr (Some ys)" for n xs qs ys
    using that
    by (induction n xs qs rule: blackout_scan.induct) (auto simp: bindr_eq_Inr split: if_splits)
  obtain s where s: "bindr (index q ''starts_at'') parse_time = Inr s"
    using "2.prems"(1) by (auto simp: bindr_eq_Inr)
  show ?case
  proof (cases "s \<le> now")
    case True
    with "2.prems"(1) s obtain e where e: "bindr (index q ''ends_at'') parse_time = Inr e" "\<not> now < e"
      and rest: "blackout_scan now starts ps = Inr (Some starts')"
      by (auto simp: bindr_eq_Inr split: if_splits)
    show ?thesis
      using "2.IH"(1) [OF s True e rest] "2.prems"(2) mono [OF rest] s e True by auto
  next
    case False
    with "2.prems"(1) s have rest: "blackout_scan now (starts @ [s]) ps = Inr (Some starts')" by simp
    show ?thesis
      using "2.IH"(2) [OF s False rest] "2.prems"(2) mono [OF rest] s False by auto
  qed
qed simp

lemma testing_schedule_deadlineD:
  assumes "testing_schedule_deadline env schedule now = Inr (Some t)"
  obtains periods starts windows ends where
    "iterated schedule ''blackout_periods'' = Inr periods"
    "blackout_scan now [] periods = Inr (Some starts)"
    "iterated schedule ''allowed_windows'' = Inr windows"
    "traverse (\<lambda>w. window_end env w now) windows = Inr ends"
    "deadline_of now (map the (filter (\<lambda>e. e \<noteq> None) ends)) starts = Some t"
  using assms
  by (auto simp: testing_schedule_deadline_def catchr_eq_Inr bindr_eq_Inr split: if_splits option.splits)

text \<open>
  C11. A deadline returned for a testing schedule lies strictly in the future, is not later than the
  end of some window that is open now, and up to it no instant falls into a blackout period of
  the schedule.
\<close>

theorem deadline_avoids_blackouts:
  assumes "testing_schedule_deadline env schedule now = Inr (Some t)"
  shows "now < t \<and>
    (\<exists>windows w e. iterated schedule ''allowed_windows'' = Inr windows \<and> w \<in> set windows \<and>
       window_end env w now = Inr (Some e) \<and> t \<le> e) \<and>
    (\<exists>periods. iterated schedule ''blackout_periods'' = Inr periods \<and>
       (\<forall>p \<in> set periods. \<exists>s. bindr (index p ''starts_at'') parse_time = Inr s \<and>
          (\<forall>x e. now \<le> x \<and> x < t \<and> bindr (index p ''ends_at'') parse_time = Inr e \<longrightarrow> \<not> (s \<le> x \<and> x < e))))"
proof -
  from assms obtain periods starts windows ends where
    p: "iterated schedule ''blackout_periods'' = Inr periods" "blackout_scan now [] periods = Inr (Some starts)"
    and w: "iterated schedule ''allowed_windows'' = Inr windows" "traverse (\<lambda>w. window_end env w now) windows = Inr ends"
    and d: "deadline_of now (map the (filter (\<lambda>e. e \<noteq> None) ends)) starts = Some t"
    by (rule testing_schedule_deadlineD)
  from deadline_ofD(2) [OF d] obtain e where e: "Some e \<in> set ends" "t \<le> e" by auto
  from traverse_memE [OF w(2) e(1)] obtain x where x: "x \<in> set windows" "window_end env x now = Inr (Some e)" .
  have "\<exists>s. bindr (index q ''starts_at'') parse_time = Inr s \<and>
      (\<forall>x e. now \<le> x \<and> x < t \<and> bindr (index q ''ends_at'') parse_time = Inr e \<longrightarrow> \<not> (s \<le> x \<and> x < e))"
    if q: "q \<in> set periods" for q
    using blackout_scan_Some [OF p(2) q] deadline_ofD(3) [OF d] by fastforce
  with deadline_ofD(1) [OF d] e(2) x w(1) p(1) show ?thesis by blast
qed

section \<open>What an allow decision implies\<close>

definition rule_specificity :: "json \<Rightarrow> int option" where
  "rule_specificity rule = (case index rule ''specificity'' of Inr (JInt n) \<Rightarrow> Some n | _ \<Rightarrow> None)"

lemma rule_specificity_eq: "rule_specificity rule = Some n \<longleftrightarrow> index rule ''specificity'' = Inr (JInt n)"
  by (auto simp: rule_specificity_def split: sum.splits json.splits)

lemma compare_less_JInt [simp]: "compare_less (JInt a) (JInt b) = Inr (a < b)"
  by (simp add: compare_less_def)

lemma decision_outcome:
  "decision env intent h outcome reasons ids = Inr d \<Longrightarrow> dict_get d ''outcome'' = JStr outcome"
  by (auto simp: decision_def bindr_eq_Inr Let_def dict_get_def)

lemma evaluate_outcome:
  assumes "evaluate env intent policy active revoked now = Inr d"
  obtains outcome reason ids where "verdict_of env intent policy active revoked now = Inr (outcome, reason, ids)"
    and "dict_get d ''outcome'' = JStr outcome"
  using assms by (auto simp: evaluate_def bindr_eq_Inr dest: decision_outcome)

lemma policy_gate_cases:
  assumes "policy_gate env intent policy active revoked = Inr r"
  shows "r = None \<and> active \<and> \<not> revoked \<and> signed_hash env policy = stored_hash env policy \<and>
      dict_get intent ''policy_hash'' = JStr (stored_hash env policy) \<and>
      contract_issues env (JObj intent) ''action-intent-v1.schema.json'' = [] \<and>
      py_eq (dict_get intent ''assessment_id'') (dict_get policy ''engagement_id'') \<or>
    (\<exists>reason ids. r = Some (denied reason ids))"
  using assms unfolding policy_gate_def
  by (auto elim!: bindrE dest!: index_dict_get simp del: index.simps split: if_splits)

lemma clock_gate_cases:
  assumes "clock_gate env intent policy now = Inr r"
  shows "r = None \<and>
      (\<exists>validity not_before not_after. index (JObj policy) ''validity'' = Inr validity \<and>
         bindr (index validity ''not_before'') parse_time = Inr not_before \<and>
         bindr (index validity ''not_after'') parse_time = Inr not_after \<and> not_before \<le> now \<and> now < not_after) \<and>
      (\<exists>created expires. parse_time (dict_get intent ''created_at'') = Inr created \<and>
         parse_time (dict_get intent ''expires_at'') = Inr expires \<and> created \<le> now \<and> now < expires) \<and>
      (\<forall>schedule. dict_get policy ''testing_schedule'' = JObj schedule \<longrightarrow>
         testing_schedule_allows env (JObj schedule) now = Inr True) \<or>
    (\<exists>reason ids. r = Some (denied reason ids))"
proof (cases "\<exists>reason ids. r = Some (denied reason ids)")
  case False
  from assms obtain nb where 1: "bindr (index (JObj policy) ''validity'') (\<lambda>v. bindr (index v ''not_before'') parse_time) = Inr nb"
    by (auto simp: clock_gate_def elim!: bindrE)
  from assms False 1 obtain na where 2: "nb \<le> now"
    "bindr (index (JObj policy) ''validity'') (\<lambda>v. bindr (index v ''not_after'') parse_time) = Inr na"
    by (auto simp: clock_gate_def elim!: bindrE split: if_splits)
  from assms False 1 2 obtain cr where 3: "now < na" "bindr (index (JObj intent) ''created_at'') parse_time = Inr cr"
    by (auto simp: clock_gate_def elim!: bindrE split: if_splits)
  from assms False 1 2 3 obtain ex where 4: "cr \<le> now" "bindr (index (JObj intent) ''expires_at'') parse_time = Inr ex"
    by (auto simp: clock_gate_def elim!: bindrE split: if_splits)
  from assms False 1 2 3 4 have 5: "now < ex"
    "r = None \<and> (\<forall>schedule. dict_get policy ''testing_schedule'' = JObj schedule \<longrightarrow>
         testing_schedule_allows env (JObj schedule) now = Inr True)"
    by (auto simp: clock_gate_def elim!: bindrE split: if_splits json.splits)
  from 1 2 obtain v where "index (JObj policy) ''validity'' = Inr v"
    "bindr (index v ''not_before'') parse_time = Inr nb" "bindr (index v ''not_after'') parse_time = Inr na"
    by (auto elim!: bindrE simp del: index.simps)
  moreover have "parse_time (dict_get intent ''created_at'') = Inr cr" "parse_time (dict_get intent ''expires_at'') = Inr ex"
    using 3 4 by (auto elim!: bindrE simp del: index.simps dest!: index_dict_get)
  ultimately show ?thesis using 2 3 4 5 by blast
qed blast

lemma has_effect_False: "has_effect e rule = Inr False \<Longrightarrow> \<exists>v. index rule ''effect'' = Inr v \<and> v \<noteq> JStr e"
  by (auto simp: has_effect_def mapr_eq_Inr)

lemma capability_gate_cases:
  assumes "capability_gate intent policy = Inr r"
  shows "r = None \<and> (\<exists>rules. rules_for intent policy = Inr rules \<and> rules \<noteq> [] \<and>
      (\<forall>rule \<in> set rules. \<exists>v. index rule ''effect'' = Inr v \<and> v \<noteq> JStr ''deny'' \<and> v \<noteq> JStr ''conditional'')) \<and>
      (\<exists>http. get (dict_default intent ''http'' (JObj [])) ''method'' JNull = Inr http \<and>
         py_eq http (capability_method (dict_get intent ''capability''))) \<or>
    (\<exists>reason ids. r = Some (denied reason ids))"
proof (cases "\<exists>reason ids. r = Some (denied reason ids)")
  case False
  from assms obtain rules deny where 1: "rules_for intent policy = Inr rules" "anyr (has_effect ''deny'') rules = Inr deny"
    by (auto simp: capability_gate_def elim!: bindrE)
  from assms False 1 obtain cond where 2: "rules \<noteq> []" "\<not> deny" "anyr (has_effect ''conditional'') rules = Inr cond"
    by (auto simp: capability_gate_def elim!: bindrE maprE split: if_splits)
  from assms False 1 2 obtain cap http where 3: "\<not> cond" "index (JObj intent) ''capability'' = Inr cap"
    "get (dict_default intent ''http'' (JObj [])) ''method'' JNull = Inr http"
    by (auto simp: capability_gate_def simp del: index.simps elim!: bindrE guardrE maprE split: if_splits)
  from assms False 1 2 3 have 4: "py_eq http (capability_method cap)" "r = None"
    by (auto simp: capability_gate_def simp del: index.simps elim!: bindrE guardrE maprE split: if_splits)
  have "\<exists>v. index rule ''effect'' = Inr v \<and> v \<noteq> JStr ''deny'' \<and> v \<noteq> JStr ''conditional''"
    if m: "rule \<in> set rules" for rule
  proof -
    have e: "has_effect ''deny'' rule = Inr False" "has_effect ''conditional'' rule = Inr False"
      using anyr_Inr_iff [of "has_effect ''deny''" rules rule] anyr_Inr_iff [of "has_effect ''conditional''" rules rule] 1 2 3 m
      by simp_all
    from has_effect_False [OF e(1)] obtain v where v: "index rule ''effect'' = Inr v" "v \<noteq> JStr ''deny''" by blast
    with e(2) have "v \<noteq> JStr ''conditional''" by (simp add: has_effect_def del: index.simps)
    with v show ?thesis by blast
  qed
  moreover have "dict_get intent ''capability'' = cap" by (rule index_dict_get [OF 3(2)])
  ultimately show ?thesis using 1(1) 2(1) 3(3) 4 by (intro disjI1 conjI exI [of _ rules] exI [of _ http]) auto
qed blast

lemma limits_gate_None:
  "limits_gate target rules = Inr None \<Longrightarrow> rule \<in> set rules \<Longrightarrow> limits_gate target [rule] = Inr None"
proof (induction rules)
  case (Cons r rules)
  then have "limits_gate target rules = Inr None" "limits_gate target [r] = Inr None"
    by (auto elim!: bindrE split: if_splits)
  with Cons show ?case by auto
qed simp

lemma asset_verdict_cases:
  assumes "asset_verdict policy target = Inr (outcome, reason, ids)"
  shows "outcome = ''deny'' \<or> outcome = ''allow'' \<and>
    (\<exists>rules found top. iterated (JObj policy) ''asset_rules'' = Inr rules \<and>
       found = filter (\<lambda>rule. asset_matches rule target = Inr True) rules \<and> found \<noteq> [] \<and>
       max_specificity found = Inr top \<and>
       (\<forall>rule \<in> set found. \<forall>s. index rule ''specificity'' = Inr s \<and> compare_less s top = Inr False \<longrightarrow>
          index rule ''effect'' = Inr (JStr ''allow'') \<and> limits_gate target [rule] = Inr None))"
proof (cases "outcome = ''deny''")
  case False
  from assms obtain rules found where r: "iterated (JObj policy) ''asset_rules'' = Inr rules"
    and f: "filterr (\<lambda>rule. asset_matches rule target) rules = Inr found"
    unfolding asset_verdict_def by (elim bindrE)
  with assms False have ne: "found \<noteq> []" by (auto simp: asset_verdict_def)
  with assms r f obtain top applicable ids' deny where t: "max_specificity found = Inr top"
    and a: "filterr (\<lambda>rule. bindr (index rule ''specificity'') (\<lambda>s. mapr Not (compare_less s top))) found = Inr applicable"
    and i: "traverse rule_id applicable = Inr ids'" and dn: "anyr (has_effect ''deny'') applicable = Inr deny"
    by (simp add: asset_verdict_def) (elim bindrE)
  from assms r f ne t a i dn False have nd: "\<not> deny" by (auto simp: asset_verdict_def)
  with assms r f ne t a i dn obtain other where o': "anyr (\<lambda>rule. mapr Not (has_effect ''allow'' rule)) applicable = Inr other"
    by (simp add: asset_verdict_def) (elim bindrE)
  with assms r f ne t a i dn nd False have "\<not> other" by (auto simp: asset_verdict_def)
  with o' have o: "anyr (\<lambda>rule. mapr Not (has_effect ''allow'' rule)) applicable = Inr False" by simp
  from assms r f ne t a i dn nd o obtain refused where "limits_gate target applicable = Inr refused"
    by (simp add: asset_verdict_def) (elim bindrE)
  with assms r f ne t a i dn nd o False have l: "limits_gate target applicable = Inr None" and out: "outcome = ''allow''"
    by (auto simp: asset_verdict_def split: option.splits)
  have "index rule ''effect'' = Inr (JStr ''allow'') \<and> limits_gate target [rule] = Inr None"
    if "rule \<in> set found" "index rule ''specificity'' = Inr s" "compare_less s top = Inr False" for rule s
  proof -
    have m: "rule \<in> set applicable" using filterr_eq_filter [OF a] that by auto
    from anyr_Inr_iff [OF o m] show ?thesis
      using limits_gate_None [OF l m] by (auto simp: mapr_eq_Inr has_effect_def)
  qed
  then show ?thesis using r ne t out filterr_eq_filter [OF f] by blast
qed simp

lemma target_verdict_cases:
  assumes "target_verdict env intent policy = Inr (outcome, reason, ids)"
  shows "outcome = ''deny'' \<or>
    (\<exists>target. target_of env intent = Inr (Some target) \<and> account_denied intent policy = Inr False \<and>
       capability_gate intent policy = Inr None \<and> asset_verdict policy target = Inr (outcome, reason, ids))"
proof -
  from assms obtain t where t: "target_of env intent = Inr t"
    by (auto simp: target_verdict_def bindr_eq_Inr)
  show ?thesis
  proof (cases t)
    case None
    with assms t show ?thesis by (auto simp: target_verdict_def)
  next
    case (Some target)
    from assms obtain b where b: "account_denied intent policy = Inr b"
      by (auto simp: target_verdict_def bindr_eq_Inr t Some)
    show ?thesis
    proof (cases b)
      case True
      with assms t Some b show ?thesis by (auto simp: target_verdict_def)
    next
      case False
      with assms t Some b obtain r where "capability_gate intent policy = Inr r"
        by (auto simp: target_verdict_def bindr_eq_Inr)
      with capability_gate_cases [OF this] assms t Some b False show ?thesis
        by (auto simp: target_verdict_def)
    qed
  qed
qed

lemma verdict_cases:
  assumes "verdict_of env intent policy active revoked now = Inr (outcome, reason, ids)"
  shows "outcome = ''deny'' \<or>
    policy_gate env intent policy active revoked = Inr None \<and> clock_gate env intent policy now = Inr None \<and>
    target_verdict env intent policy = Inr (outcome, reason, ids)"
proof -
  from assms obtain r where r: "policy_gate env intent policy active revoked = Inr r"
    by (auto simp: verdict_of_def bindr_eq_Inr)
  show ?thesis
  proof (cases r)
    case (Some v)
    with policy_gate_cases [OF r] assms r show ?thesis by (auto simp: verdict_of_def)
  next
    case None
    with assms r obtain q where q: "clock_gate env intent policy now = Inr q"
      by (auto simp: verdict_of_def bindr_eq_Inr)
    with clock_gate_cases [OF q] assms r None show ?thesis by (cases q) (auto simp: verdict_of_def)
  qed
qed

lemma target_of_Some:
  assumes "target_of env intent = Inr (Some target)"
  shows "\<exists>t. dict_get intent ''target'' = JObj t \<and> canonicalize_url (idna_encode env) (dict_get t ''canonical_url'') = Inr target \<and>
    py_eq (asdict target) (JObj t)"
proof -
  from assms obtain t u where t: "index (JObj intent) ''target'' = Inr t" "index t ''canonical_url'' = Inr u"
    "canonicalize_url (idna_encode env) u = Inr target" "py_eq (asdict target) (dict_get intent ''target'')"
    by (auto simp: target_of_def catchr_eq_Inr simp del: index.simps elim!: bindrE maprE split: if_splits)
  from t(2) obtain d where d: "t = JObj d" "dict_get d ''canonical_url'' = u"
    by (cases t) (auto dest: index_dict_get simp del: index.simps(1))
  from index_dict_get [OF t(1)] t d show ?thesis by auto
qed

lemma allow_verdict:
  assumes "verdict_of env intent policy active revoked now = Inr (''allow'', reason, ids)"
  obtains target where "policy_gate env intent policy active revoked = Inr None"
    and "clock_gate env intent policy now = Inr None" and "target_of env intent = Inr (Some target)"
    and "account_denied intent policy = Inr False" and "capability_gate intent policy = Inr None"
    and "asset_verdict policy target = Inr (''allow'', reason, ids)"
  using verdict_cases [OF assms] target_verdict_cases by fastforce

text \<open>
  C3. A decision that allows implies every gate of authorization: the policy is active, not revoked
  and intact, the intent names its hash and its engagement, the present instant lies in the validity
  of the policy and in that of the intent and in the testing schedule, and the account is admitted.
\<close>

theorem allow_implies_gates:
  assumes "evaluate env intent policy active revoked now = Inr d" and "dict_get d ''outcome'' = JStr ''allow''"
  shows "active \<and> \<not> revoked \<and> signed_hash env policy = stored_hash env policy \<and>
    dict_get intent ''policy_hash'' = JStr (stored_hash env policy) \<and>
    py_eq (dict_get intent ''assessment_id'') (dict_get policy ''engagement_id'') \<and>
    (\<exists>validity not_before not_after. index (JObj policy) ''validity'' = Inr validity \<and>
       bindr (index validity ''not_before'') parse_time = Inr not_before \<and>
       bindr (index validity ''not_after'') parse_time = Inr not_after \<and> not_before \<le> now \<and> now < not_after) \<and>
    (\<exists>created expires. parse_time (dict_get intent ''created_at'') = Inr created \<and>
       parse_time (dict_get intent ''expires_at'') = Inr expires \<and> created \<le> now \<and> now < expires) \<and>
    (\<forall>schedule. dict_get policy ''testing_schedule'' = JObj schedule \<longrightarrow>
       testing_schedule_allows env (JObj schedule) now = Inr True) \<and>
    account_denied intent policy = Inr False"
proof -
  obtain reason ids where "verdict_of env intent policy active revoked now = Inr (''allow'', reason, ids)"
    by (rule evaluate_outcome [OF assms(1)]) (use assms(2) in auto)
  then obtain target where *: "policy_gate env intent policy active revoked = Inr None"
    "clock_gate env intent policy now = Inr None" "account_denied intent policy = Inr False"
    by (rule allow_verdict)
  show ?thesis using policy_gate_cases [OF *(1)] clock_gate_cases [OF *(2)] *(3) by simp
qed

text \<open>
  C4. A decision that allows has a target in canonical form, a capability with rules none of which
  denies it or makes it conditional, an HTTP method that is the one of the capability, and an asset
  rule of highest specificity among those matching the target that allows it, admits its port and
  its path.
\<close>

theorem allow_implies_rules:
  assumes "evaluate env intent policy active revoked now = Inr d" and "dict_get d ''outcome'' = JStr ''allow''"
  shows "\<exists>t target rules top caps.
    dict_get intent ''target'' = JObj t \<and>
    canonicalize_url (idna_encode env) (dict_get t ''canonical_url'') = Inr target \<and> py_eq (asdict target) (JObj t) \<and>
    rules_for intent policy = Inr caps \<and> caps \<noteq> [] \<and>
    (\<forall>c \<in> set caps. \<exists>v. index c ''effect'' = Inr v \<and> v \<noteq> JStr ''deny'' \<and> v \<noteq> JStr ''conditional'') \<and>
    iterated (JObj policy) ''asset_rules'' = Inr rules \<and>
    filter (\<lambda>rule. asset_matches rule target = Inr True) rules \<noteq> [] \<and>
    max_specificity (filter (\<lambda>rule. asset_matches rule target = Inr True) rules) = Inr top \<and>
    (\<forall>rule \<in> set rules. \<forall>s. asset_matches rule target = Inr True \<and> index rule ''specificity'' = Inr s \<and>
       compare_less s top = Inr False \<longrightarrow>
       index rule ''effect'' = Inr (JStr ''allow'') \<and> limits_gate target [rule] = Inr None)"
proof -
  obtain reason ids where "verdict_of env intent policy active revoked now = Inr (''allow'', reason, ids)"
    by (rule evaluate_outcome [OF assms(1)]) (use assms(2) in auto)
  then obtain target where t: "target_of env intent = Inr (Some target)"
    "capability_gate intent policy = Inr None" "asset_verdict policy target = Inr (''allow'', reason, ids)"
    by (rule allow_verdict)
  from target_of_Some [OF t(1)] obtain tt where tt: "dict_get intent ''target'' = JObj tt"
    "canonicalize_url (idna_encode env) (dict_get tt ''canonical_url'') = Inr target" "py_eq (asdict target) (JObj tt)"
    by blast
  from capability_gate_cases [OF t(2)] obtain caps where c: "rules_for intent policy = Inr caps" "caps \<noteq> []"
    "\<forall>c \<in> set caps. \<exists>v. index c ''effect'' = Inr v \<and> v \<noteq> JStr ''deny'' \<and> v \<noteq> JStr ''conditional''"
    by auto
  from asset_verdict_cases [OF t(3)] obtain rules found top where a: "iterated (JObj policy) ''asset_rules'' = Inr rules"
    "found = filter (\<lambda>rule. asset_matches rule target = Inr True) rules" "found \<noteq> []" "max_specificity found = Inr top"
    "\<forall>rule \<in> set found. \<forall>s. index rule ''specificity'' = Inr s \<and> compare_less s top = Inr False \<longrightarrow>
       index rule ''effect'' = Inr (JStr ''allow'') \<and> limits_gate target [rule] = Inr None"
    by auto
  show ?thesis
    using tt c a by (intro exI [of _ tt] exI [of _ target] exI [of _ rules] exI [of _ top] exI [of _ caps]) auto
qed

section \<open>Deny precedence\<close>

lemma max_specificity_int:
  assumes "\<forall>r \<in> set rules. \<exists>n. rule_specificity r = Some n" and "rules \<noteq> []"
  shows "\<exists>n. max_specificity rules = Inr (JInt n) \<and> (\<exists>r \<in> set rules. rule_specificity r = Some n) \<and>
    (\<forall>r \<in> set rules. \<forall>m. rule_specificity r = Some m \<longrightarrow> m \<le> n)"
proof -
  define f where "f r = the (rule_specificity r)" for r
  have f: "index r ''specificity'' = Inr (JInt (f r))" "rule_specificity r = Some (f r)" if "r \<in> set rules" for r
    using assms(1) that by (auto simp: f_def simp flip: rule_specificity_eq)
  have t: "traverse (\<lambda>r. index r ''specificity'') rs = Inr (map (JInt \<circ> f) rs)" if "set rs \<subseteq> set rules" for rs
    using that f by (induction rs) auto
  let ?step = "\<lambda>m s. mapr (\<lambda>l. if l then s else m) (compare_less m s)"
  have fold: "foldr_result ?step (JInt a) (map JInt bs) = Inr (JInt (fold max bs a))" for a bs
    by (induction bs arbitrary: a) (auto simp: max_def)
  obtain r rs where rs: "rules = r # rs" using assms(2) by (cases rules) auto
  have "max_specificity rules = Inr (JInt (fold max (map f rs) (f r)))"
    using t [of rules] fold [of "f r" "map f rs"] by (simp add: max_specificity_def rs)
  moreover have "fold max (map f rs) (f r) \<in> f ` set rules"
    using fold_max_mem [of "map f rs" "f r"] by (auto simp: rs)
  moreover have "a \<le> fold max bs a \<and> (\<forall>b \<in> set bs. b \<le> fold max bs a)" for a :: int and bs
  proof (induction bs arbitrary: a)
    case (Cons b bs)
    from Cons.IH [of "max b a"] show ?case by auto
  qed simp
  from this [of "f r" "map f rs"] have "\<forall>q \<in> set rules. f q \<le> fold max (map f rs) (f r)" by (auto simp: rs)
  ultimately show ?thesis using f by (intro exI [of _ "fold max (map f rs) (f r)"]) auto
qed

lemma outcome_two:
  assumes "evaluate env intent policy active revoked now = Inr d" and "dict_get d ''outcome'' \<noteq> JStr ''deny''"
  obtains reason ids target where "dict_get d ''outcome'' = JStr ''allow''"
    and "target_of env intent = Inr (Some target)" and "asset_verdict policy target = Inr (''allow'', reason, ids)"
proof -
  obtain outcome reason ids where v: "verdict_of env intent policy active revoked now = Inr (outcome, reason, ids)"
    and d: "dict_get d ''outcome'' = JStr outcome"
    by (rule evaluate_outcome [OF assms(1)])
  have nd: "outcome \<noteq> ''deny''" using d assms(2) by simp
  with verdict_cases [OF v] have "target_verdict env intent policy = Inr (outcome, reason, ids)" by simp
  from target_verdict_cases [OF this] nd obtain target where t: "target_of env intent = Inr (Some target)"
    "asset_verdict policy target = Inr (outcome, reason, ids)" by auto
  with asset_verdict_cases [OF t(2)] nd d show ?thesis by (auto intro: that)
qed

text \<open>
  C2. Deny precedence: a rule that matches the target and denies it overrides every matching allow
  rule of equal or lower specificity. If no matching allow rule is more specific than some matching
  deny rule, the decision denies.
\<close>

theorem deny_precedence:
  assumes "evaluate env intent policy active revoked now = Inr d"
    and "target_of env intent = Inr (Some target)" and "iterated (JObj policy) ''asset_rules'' = Inr rules"
    and "list_all (\<lambda>r. rule_specificity r \<noteq> None) rules"
    and "r \<in> set rules" and "asset_matches r target = Inr True" and "index r ''effect'' = Inr (JStr ''deny'')"
    and "rule_specificity r = Some n"
    and "\<forall>q \<in> set rules. asset_matches q target = Inr True \<and> index q ''effect'' = Inr (JStr ''allow'') \<longrightarrow>
      the (rule_specificity q) \<le> n"
  shows "dict_get d ''outcome'' = JStr ''deny''"
proof (rule ccontr)
  assume nd: "dict_get d ''outcome'' \<noteq> JStr ''deny''"
  obtain reason ids where "asset_verdict policy target = Inr (''allow'', reason, ids)"
    by (rule outcome_two [OF assms(1) nd]) (use assms(2) in auto)
  from asset_verdict_cases [OF this] assms(3) obtain found top where
    found: "found = filter (\<lambda>rule. asset_matches rule target = Inr True) rules" "found \<noteq> []"
    and top: "max_specificity found = Inr top"
    and ok: "\<forall>rule \<in> set found. \<forall>s. index rule ''specificity'' = Inr s \<and> compare_less s top = Inr False \<longrightarrow>
          index rule ''effect'' = Inr (JStr ''allow'')"
    by auto
  have "\<forall>x \<in> set found. \<exists>n. rule_specificity x = Some n" using assms(4) found(1) by (auto simp: list_all_iff)
  from max_specificity_int [OF this found(2)] top obtain m q where m: "top = JInt m" "q \<in> set found"
    "rule_specificity q = Some m" "\<forall>x \<in> set found. \<forall>k. rule_specificity x = Some k \<longrightarrow> k \<le> m" by auto
  have "index q ''effect'' = Inr (JStr ''allow'')" using ok m by (auto simp: rule_specificity_eq)
  with assms(9) m(2,3) found(1) have "m \<le> n" by auto
  moreover have "r \<in> set found" using assms(5,6) found(1) by simp
  moreover from this m(4) assms(8) have "n \<le> m" by blast
  ultimately have "index r ''effect'' = Inr (JStr ''allow'')" using ok m(1) assms(8) by (auto simp: rule_specificity_eq)
  with assms(7) show False by simp
qed

text \<open>
  C5. Default deny: whatever the policy and the intent are, a decision either allows or denies, and
  when no asset rule matches the target it denies.
\<close>

theorem default_deny:
  assumes "evaluate env intent policy active revoked now = Inr d"
  shows "dict_get d ''outcome'' \<in> {JStr ''allow'', JStr ''deny''} \<and>
    (\<forall>target rules. target_of env intent = Inr (Some target) \<and> iterated (JObj policy) ''asset_rules'' = Inr rules \<and>
       (\<forall>r \<in> set rules. asset_matches r target \<noteq> Inr True) \<longrightarrow> dict_get d ''outcome'' = JStr ''deny'')"
proof (cases "dict_get d ''outcome'' = JStr ''deny''")
  case False
  obtain reason ids target where a: "dict_get d ''outcome'' = JStr ''allow''" "target_of env intent = Inr (Some target)"
    "asset_verdict policy target = Inr (''allow'', reason, ids)"
    by (rule outcome_two [OF assms False])
  from asset_verdict_cases [OF a(3)] obtain rules where "iterated (JObj policy) ''asset_rules'' = Inr rules"
    "filter (\<lambda>rule. asset_matches rule target = Inr True) rules \<noteq> []" by auto
  with a(1,2) show ?thesis by (auto simp: filter_empty_conv)
qed simp

end
