(* ===== verification/Policy_Flow.thy ===== *)
theory Policy_Flow
  imports Evaluator
begin

text \<open>
  The compiler and the evaluator together: what an allow decision of a policy says about the
  manifest the policy was compiled from.
\<close>

section \<open>The rules of an asset\<close>

lemma asset_matcher_no_prefix:
  "asset_matcher env asset = Inr (m, n) \<Longrightarrow> map_of m ''path_prefix'' = None"
  by (auto simp: asset_matcher_def elim!: bindrE guardrE split: if_splits list.splits)

lemma asset_rules_ofE:
  assumes "asset_rules_of env asset = Inr rs"
  obtains matcher n effect kind ports paths source denied denies seed where
    "asset_matcher env asset = Inr (matcher, n)" "index asset ''effect'' = Inr effect" "index asset ''type'' = Inr kind"
    "bindr (get asset ''allowed_ports'' (JList [])) sorted_set = Inr ports"
    "bindr (get asset ''allowed_paths'' (JList [])) sorted_set = Inr paths"
    "bindr (get asset ''denied_paths'' (JList [])) sorted_set = Inr denied"
    "traverse (deny_rule env seed kind matcher n ports source) denied = Inr denies"
    "rs = rule_json (stable_id env ''asset-rule'' seed) effect kind matcher n ports paths source # denies"
  using assms unfolding asset_rules_of_def Let_def
  by (elim bindrE) (auto elim!: bindrE intro: that simp del: index.simps get.simps)

lemma rule_json_index [simp]:
  "index (rule_json i e k m n ports paths s) ''effect'' = Inr e"
  "index (rule_json i e k m n ports paths s) ''asset_type'' = Inr k"
  "index (rule_json i e k m n ports paths s) ''matcher'' = Inr (JObj m)"
  "index (rule_json i e k m n ports paths s) ''specificity'' = Inr (JInt n)"
  "get (rule_json i e k m n ports paths s) ''allowed_ports'' v = Inr (JList ports)"
  "get (rule_json i e k m n ports paths s) ''allowed_paths'' v = Inr (JList paths)"
  by (simp_all add: rule_json_def)

lemma index_put:
  "index (JObj (dict_put d k v)) k' = (if k = k' then Inr v else index (JObj d) k')"
  "get (JObj (dict_put d k v)) k' x = (if k = k' then Inr v else get (JObj d) k' x)"
  by simp_all

lemma url_rule_matches_put:
  "url_rule_matches (JObj (dict_put m ''path_prefix'' v)) target = url_rule_matches (JObj m) target"
  "wildcard_matches (JObj (dict_put m ''path_prefix'' v)) target = wildcard_matches (JObj m) target"
  by (simp_all add: url_rule_matches_def wildcard_matches_def index_put del: index.simps get.simps cong: if_cong)

text \<open>The deny rule of a path matches where the rule of its asset does and the path lies below.\<close>

lemma deny_rule_matches:
  assumes "asset_matches (rule_json i e k m n ports paths s) target = Inr True"
    and "map_of m ''path_prefix'' = None" and "path_matches p (cu_path target)"
  shows "asset_matches (rule_json i' e' k (dict_put m ''path_prefix'' (JStr p)) n' ports' paths' s') target = Inr True"
proof -
  have "asset_matches (rule_json i' e' k (dict_put m ''path_prefix'' (JStr p)) n' ports' paths' s') target =
      asset_matches (rule_json i e k m n ports paths s) target"
    using assms(2,3)
    by (simp add: asset_matches_def url_rule_matches_put path_matches_json_def text_of_def index_put
        del: index.simps(1) get.simps(1) cong: if_cong) (simp add: index_put)
  with assms(1) show ?thesis by simp
qed

lemma path_matches_json_True: "path_matches_json v q = Inr True \<longleftrightarrow> (\<exists>p. v = JStr p \<and> path_matches p q)"
  by (cases v) (auto simp: path_matches_json_def text_of_def)

lemma limits_gateD:
  assumes "limits_gate target [rule_json i e k m n ports paths s] = Inr None"
  shows "ports = [] \<or> py_in (JInt (cu_port target)) ports"
    and "paths = [] \<or> (\<exists>p. JStr p \<in> set paths \<and> path_matches p (cu_path target))"
proof -
  show "ports = [] \<or> py_in (JInt (cu_port target)) ports"
    using assms by (auto simp: py_contains_def elim!: bindrE split: if_splits)
  have "anyr (\<lambda>p. path_matches_json p (cu_path target)) paths = Inr True" if "paths \<noteq> []"
    using assms that by (auto simp: py_contains_def elim!: bindrE split: if_splits)
  from anyr_Inr_True [OF this] show "paths = [] \<or> (\<exists>p. JStr p \<in> set paths \<and> path_matches p (cu_path target))"
    by (auto simp: path_matches_json_True)
qed

section \<open>The rules of a compiled policy\<close>

lemma compile_withE:
  assumes "compile_with env sv manifest mh = Inr p"
  obtains scope assets rss techniques caps body where
    "\<not> truthy (dict_get manifest ''unresolved_questions'')"
    "index (JObj manifest) ''scope'' = Inr scope" "iterated scope ''assets'' = Inr assets"
    "anyr (\<lambda>asset. mapr (\<lambda>e. e = JStr ''allow'') (index asset ''effect'')) assets = Inr True"
    "traverse (asset_rules_of env) assets = Inr rss"
    "index (JObj manifest) ''techniques'' = Inr techniques"
    "capability_rules_of env techniques (concat rss) = Inr caps"
    "policy_body env sv manifest mh (concat rss) caps = Inr body"
    "p = body @ [(''content_hash'', JStr (content_hash env (JObj body)))]"
  using assms unfolding compile_with_def
  by (elim bindrE guardrE maprE) (auto intro: that simp del: index.simps)

lemma policy_bodyE:
  assumes "policy_body env sv manifest mh rules caps = Inr body"
  obtains rules' caps' engagement not_before not_after where
    "map_of body ''asset_rules'' = Some (JList rules')" "set rules' = set rules"
    "map_of body ''capability_rules'' = Some (JList caps')" "set caps' = set caps"
    "index (JObj manifest) ''engagement'' = Inr engagement"
    "index engagement ''effective_from'' = Inr not_before" "index engagement ''expires_at'' = Inr not_after"
    "map_of body ''validity'' = Some (JObj [(''not_before'', not_before), (''not_after'', not_after), (''revocation_epoch'', JInt 0)])"
    "map_of body ''default_effect'' = Some (JStr ''deny'')" "map_of body ''manifest_hash'' = Some (JStr mh)"
proof -
  from assms obtain rules' caps' engagement not_before not_after where
    s: "sort_by (\<lambda>r. index r ''rule_id'') rules = Inr rules'" "sort_by (\<lambda>r. index r ''rule_id'') caps = Inr caps'"
    "index (JObj manifest) ''engagement'' = Inr engagement"
    "index engagement ''effective_from'' = Inr not_before" "index engagement ''expires_at'' = Inr not_after"
    and b: "map_of body ''asset_rules'' = Some (JList rules')" "map_of body ''capability_rules'' = Some (JList caps')"
    "map_of body ''validity'' = Some (JObj [(''not_before'', not_before), (''not_after'', not_after), (''revocation_epoch'', JInt 0)])"
    "map_of body ''default_effect'' = Some (JStr ''deny'')" "map_of body ''manifest_hash'' = Some (JStr mh)"
    unfolding policy_body_def
  proof (elim bindrE, goal_cases)
    case (1 x xa xb xc xd xe xf xg xh xi xj xk)
    from 1(14) show ?case
      by (intro 1(1) [OF 1(8,9,4,6,7)]) auto
  qed
  then show ?thesis by (intro that [OF b(1) sort_by_set [OF s(1)] b(2) sort_by_set [OF s(2)] s(3-5) b(3-5)])
qed

lemma asset_rule_source:
  assumes "traverse (asset_rules_of env) assets = Inr rss" and "r \<in> set (concat rss)"
  obtains a rs where "a \<in> set assets" "asset_rules_of env a = Inr rs" "r \<in> set rs" "set rs \<subseteq> set (concat rss)"
proof -
  from assms(2) obtain rs where rs: "rs \<in> set rss" "r \<in> set rs" by auto
  from traverse_memE [OF assms(1) rs(1)] obtain a where "a \<in> set assets" "asset_rules_of env a = Inr rs" .
  then show ?thesis using rs by (intro that) auto
qed

lemma deny_rule_eq_Inr:
  "deny_rule env seed kind m n ports s v = Inr r \<longleftrightarrow>
     (\<exists>p. v = JStr p \<and> r = rule_json (stable_id env ''asset-path-deny'' (JObj [(''parent'', seed), (''denied_path'', v)]))
        (JStr ''deny'') kind (dict_put m ''path_prefix'' v) (n + 100 + int (length p)) ports [v] s)"
  by (auto simp: deny_rule_def split: json.splits)

lemma rule_json_specificity [simp]: "rule_specificity (rule_json i e k m n ports paths s) = Some n"
  by (simp add: rule_specificity_eq)

lemma compiled_rule_specificity:
  assumes "asset_rules_of env a = Inr rs" and "r \<in> set rs"
  shows "rule_specificity r \<noteq> None"
  using assms(1)
proof (cases rule: asset_rules_ofE)
  case (1 matcher n effect kind ports paths source denied denies seed)
  show ?thesis
  proof (cases "r \<in> set denies")
    case True
    show ?thesis by (rule traverse_memE [OF 1(7) True]) (auto simp: deny_rule_eq_Inr)
  qed (use 1(8) assms(2) in auto)
qed

lemma sorted_default_members:
  assumes "bindr (get (JObj a) k (JList [])) sorted_set = Inr ys"
  shows "set ys \<subseteq> set (members a k)" "x \<in> set (members a k) \<Longrightarrow> \<exists>y \<in> set ys. py_eq x y"
proof -
  have "sorted_set (dict_default a k (JList [])) = Inr ys"
    using assms by (simp add: dict_default_def)
  then obtain xs where "elements (dict_default a k (JList [])) = Inr xs" "set ys \<subseteq> set xs"
    "\<forall>x \<in> set xs. \<exists>y \<in> set ys. py_eq x y" by (rule sorted_set_elements)
  then show "set ys \<subseteq> set (members a k)" "x \<in> set (members a k) \<Longrightarrow> \<exists>y \<in> set ys. py_eq x y"
    by (auto simp: members_def)
qed

section \<open>What an asset covers\<close>

text \<open>
  Whether an asset of a manifest covers a target, said of the members of the asset alone, for each of
  its types: a URL covers the paths below its own on the same scheme, host and port; a domain covers
  its host, a wildcard domain the hosts below it and, when it says so, itself; an address covers itself,
  and a network the addresses from its own up to its size.
\<close>

definition same_site :: "canonical_url \<Rightarrow> canonical_url \<Rightarrow> bool" where
  "same_site u target \<longleftrightarrow>
     cu_scheme u = cu_scheme target \<and> cu_host_kind u = cu_host_kind target \<and>
     cu_host_value u = cu_host_value target \<and> cu_port u = cu_port target"

definition network_spans :: "string \<Rightarrow> string \<Rightarrow> bool" where
  "network_spans value host =
     (case (parse_network value, parse_ip host) of
        (Some n, Some a) \<Rightarrow>
          ip_family a = ip_family (net_address n) \<and> ip_number (net_address n) \<le> ip_number a \<and>
          ip_number a < ip_number (net_address n) + host_size a (net_prefix n)
      | _ \<Rightarrow> False)"

definition asset_covers :: "policy_env \<Rightarrow> dict \<Rightarrow> canonical_url \<Rightarrow> bool" where
  "asset_covers env a target =
     (let host = cu_host_value target; host_kind = cu_host_kind target in
      case (dict_get a ''type'', dict_get a ''canonical_value'') of
        (JStr kind, JStr value) \<Rightarrow>
          if kind = ''url''
          then (case canonicalize_url_str (idna_encode env) value of
                  Inl _ \<Rightarrow> False
                | Inr u \<Rightarrow> same_site u target \<and> path_matches (cu_path u) (cu_path target))
          else if kind = ''domain'' then host_kind = ''domain'' \<and> host = value
          else if kind = ''wildcard_domain''
          then host_kind = ''domain'' \<and>
            (suffix (''.'' @ value) host \<or> truthy (dict_get a ''include_apex'') \<and> host = value)
          else if kind \<in> {''ipv4'', ''ipv6''} then host_kind = kind \<and> host = value
          else kind = ''cidr'' \<and> host_kind \<in> {''ipv4'', ''ipv6''} \<and> network_spans value host
      | _ \<Rightarrow> False)"

lemma py_eq_JInt [simp]: "py_eq (JInt a) (JInt b) \<longleftrightarrow> a = b"
  by (simp add: py_eq_def)

lemma py_eq_host_json [simp]: "py_eq (host_json k v) (host_json k' v') \<longleftrightarrow> k = k' \<and> v = v'"
  by (simp add: py_eq_def host_json_def)

lemma in_network_spans:
  assumes "parse_network value = Some n" and "parse_ip host = Some a" and "in_network a n"
  shows "network_spans value host"
proof -
  let ?k = "host_size a (net_prefix n)"
  have "0 < ?k" by (simp add: host_size_def)
  then have "ip_number a div ?k * ?k \<le> ip_number a" "ip_number a < ip_number a div ?k * ?k + ?k"
    using div_mult_mod_eq [of "ip_number a" ?k] pos_mod_sign [of ?k "ip_number a"] pos_mod_bound [of ?k "ip_number a"]
    by linarith+
  with assms show ?thesis by (simp add: network_spans_def in_network_def Let_def)
qed

lemma url_matcherE:
  assumes "asset_matcher env (JObj d) = Inr (m, n)" and "dict_get d ''type'' = JStr ''url''"
  obtains u where "canonicalize_url (idna_encode env) (dict_get d ''canonical_value'') = Inr u"
    and "m = [(''scheme'', JStr (cu_scheme u)), (''host'', host_json (cu_host_kind u) (cu_host_value u)),
              (''port'', JInt (cu_port u)), (''path'', JStr (cu_path u))]"
    and "n = 5000 + int (length (cu_path u))"
  using assms
  by (auto simp: asset_matcher_def elim!: bindrE guardrE dest!: index_dict_get simp del: index.simps split: if_splits)

lemma url_matcher_covers:
  assumes "asset_matcher env (JObj d) = Inr (m, n)" and "dict_get d ''type'' = JStr ''url''"
    and "url_rule_matches (JObj m) target = Inr True"
  shows "asset_covers env d target"
  using assms(1,2)
proof (rule url_matcherE)
  fix u
  assume u: "canonicalize_url (idna_encode env) (dict_get d ''canonical_value'') = Inr u"
    and m: "m = [(''scheme'', JStr (cu_scheme u)), (''host'', host_json (cu_host_kind u) (cu_host_value u)),
              (''port'', JInt (cu_port u)), (''path'', JStr (cu_path u))]"
  from u obtain s where s: "dict_get d ''canonical_value'' = JStr s" "canonicalize_url_str (idna_encode env) s = Inr u"
    by (auto simp: canonicalize_url_def split: json.splits)
  have "same_site u target \<and> path_matches (cu_path u) (cu_path target)"
    using assms(3) by (auto simp: m url_rule_matches_def same_site_def path_matches_json_True split: if_splits)
  with assms(2) s show ?thesis by (simp add: asset_covers_def)
qed

lemma asset_matcher_members:
  assumes "asset_matcher env (JObj d) = Inr (m, n)" and "dict_get d ''type'' = kind" and "kind \<noteq> JStr ''url''"
  shows "map_of m ''value'' = Some (dict_get d ''canonical_value'')"
    and "kind = JStr ''wildcard_domain'' \<Longrightarrow> map_of m ''include_apex'' = Some (truth (dict_get d ''include_apex''))"
    and "kind \<in> {JStr ''wildcard_domain'', JStr ''cidr''} \<Longrightarrow> is_str (dict_get d ''canonical_value'')"
  using assms
  by (auto simp: asset_matcher_def text_of_def dict_get_def truth_def elim!: bindrE guardrE
      split: if_splits option.splits list.splits json.splits)

lemma cidr_matches_spans:
  assumes "address_of host = Inr a" and "network_of (JStr v) = Inr n" and "in_network a n"
  shows "network_spans v host"
  using assms by (auto simp: address_of_def network_of_def split: option.splits intro: in_network_spans)

lemma asset_matches_covers:
  assumes m: "asset_matcher env (JObj d) = Inr (m, n)" and k: "index (JObj d) ''type'' = Inr kind"
    and t: "asset_matches (rule_json i e kind m n' ports paths s) target = Inr True"
  shows "asset_covers env d target"
proof -
  note kind = index_dict_get [OF k] and np = asset_matcher_no_prefix [OF m]
  note mem = asset_matcher_members [OF m kind]
  consider "kind = JStr ''url''" | "kind = JStr ''domain''" | "kind = JStr ''wildcard_domain''"
    | "kind \<in> {JStr ''ipv4'', JStr ''ipv6''}" | "kind = JStr ''cidr''"
    using t np by (auto simp: asset_matches_def split: if_splits)
  then show ?thesis
  proof cases
    case 1
    with t np have "url_rule_matches (JObj m) target = Inr True" by (simp add: asset_matches_def)
    from url_matcher_covers [OF m _ this] 1 kind show ?thesis by simp
  next
    case 2
    with t np mem(1) kind show ?thesis by (auto simp: asset_matches_def asset_covers_def)
  next
    case 3
    then obtain v where v: "dict_get d ''canonical_value'' = JStr v" using mem(3) by (auto elim: is_str.elims)
    from 3 t np mem(1,2) kind v show ?thesis
      by (auto simp: asset_matches_def wildcard_matches_def asset_covers_def truth_def split: if_splits)
  next
    case 4
    with t np mem(1) kind show ?thesis
      by (auto simp: asset_matches_def asset_covers_def Let_def eq_commute [of "''ipv4''"] eq_commute [of "''ipv6''"])
  next
    case 5
    then obtain v where v: "dict_get d ''canonical_value'' = JStr v" using mem(3) by (auto elim: is_str.elims)
    from 5 t np mem(1) kind v show ?thesis
      by (auto simp: asset_matches_def asset_covers_def bindr_eq_Inr intro: cidr_matches_spans split: if_splits)
  qed
qed

text \<open>What the rule of an asset says when it is the most specific match and allows.\<close>

definition asset_admits :: "policy_env \<Rightarrow> json \<Rightarrow> canonical_url \<Rightarrow> bool" where
  "asset_admits env asset target =
     (case asset of
        JObj a \<Rightarrow>
          dict_get a ''effect'' = JStr ''allow'' \<and> asset_covers env a target \<and>
          (members a ''allowed_ports'' = [] \<or> py_in (JInt (cu_port target)) (members a ''allowed_ports'')) \<and>
          (members a ''allowed_paths'' = [] \<or>
           list_ex (\<lambda>p. is_str p \<and> path_matches (str_of p) (cu_path target)) (members a ''allowed_paths'')) \<and>
          \<not> list_ex (\<lambda>p. is_str p \<and> path_matches (str_of p) (cu_path target)) (members a ''denied_paths'')
      | _ \<Rightarrow> False)"

lemma most_specific_allow_admits:
  assumes a: "asset_rules_of env asset = Inr rs" and r: "r \<in> set rs"
    and match: "asset_matches r target = Inr True" and eff: "index r ''effect'' = Inr (JStr ''allow'')"
    and lim: "limits_gate target [r] = Inr None"
    and top: "\<forall>q \<in> set rs. asset_matches q target = Inr True \<longrightarrow> the (rule_specificity q) \<le> the (rule_specificity r)"
  shows "asset_admits env asset target"
  using a
proof (cases rule: asset_rules_ofE)
  case (1 matcher n effect kind ports paths source denied denies seed)
  from 1(2) obtain d where d: "asset = JObj d" by (cases asset) auto
  have "r \<notin> set denies"
  proof
    assume m: "r \<in> set denies"
    show False by (rule traverse_memE [OF 1(7) m]) (use eff in \<open>auto simp: deny_rule_eq_Inr\<close>)
  qed
  with r 1(8) have rr: "r = rule_json (stable_id env ''asset-rule'' seed) effect kind matcher n ports paths source"
    by simp
  have covers: "asset_covers env d target"
    by (rule asset_matches_covers [OF 1(1) [unfolded d] 1(3) [unfolded d] match [unfolded rr]])
  have effect: "dict_get d ''effect'' = JStr ''allow''" using eff rr 1(2) index_dict_get d by fastforce
  note ports = sorted_default_members [OF 1(4) [unfolded d]] and paths = sorted_default_members [OF 1(5) [unfolded d]]
    and denied = sorted_default_members [OF 1(6) [unfolded d]]
  have "members d ''allowed_ports'' = [] \<or> py_in (JInt (cu_port target)) (members d ''allowed_ports'')"
    using limits_gateD(1) [OF lim [unfolded rr]] ports by (cases "members d ''allowed_ports''") (fastforce simp: py_in_iff)+
  moreover have "members d ''allowed_paths'' = [] \<or>
      list_ex (\<lambda>p. is_str p \<and> path_matches (str_of p) (cu_path target)) (members d ''allowed_paths'')"
    using limits_gateD(2) [OF lim [unfolded rr]] paths by (cases "members d ''allowed_paths''") (fastforce simp: list_ex_iff)+
  moreover have "\<not> path_matches p (cu_path target)" if p: "JStr p \<in> set (members d ''denied_paths'')" for p
  proof
    assume below: "path_matches p (cu_path target)"
    have "JStr p \<in> set denied" using denied(2) [OF p] by auto
    from traverse_memD [OF 1(7) this] obtain q where q: "q \<in> set denies"
      "q = rule_json (stable_id env ''asset-path-deny'' (JObj [(''parent'', seed), (''denied_path'', JStr p)]))
        (JStr ''deny'') kind (dict_put matcher ''path_prefix'' (JStr p)) (n + 100 + int (length p)) ports [JStr p] source"
      by (auto simp: deny_rule_eq_Inr)
    have "asset_matches q target = Inr True"
      unfolding q(2) by (rule deny_rule_matches [OF match [unfolded rr] asset_matcher_no_prefix [OF 1(1)] below])
    with top q 1(8) rr show False by auto
  qed
  ultimately show ?thesis
    using effect covers by (auto simp: asset_admits_def d list_ex_iff elim: is_str.elims)
qed

lemma capability_rules_ofD:
  assumes "capability_rules_of env techniques rules = Inr caps"
  obtains allowed denied conditional entries where
    "iterated techniques ''allowed_capabilities'' = Inr allowed" "iterated techniques ''denied_capabilities'' = Inr denied"
    "iterated techniques ''conditional_capabilities'' = Inr conditional" "traverse conditional_entry conditional = Inr entries"
    "\<forall>c \<in> set allowed. \<exists>r \<in> set caps. index r ''capability'' = Inr c \<and> index r ''effect'' = Inr (JStr ''allow'')"
    "\<forall>c \<in> set denied. \<exists>r \<in> set caps. index r ''capability'' = Inr c \<and> index r ''effect'' = Inr (JStr ''deny'')"
    "\<forall>e \<in> set entries. \<exists>r \<in> set caps. index r ''capability'' = Inr (fst e) \<and> index r ''effect'' = Inr (JStr ''conditional'')"
    "\<forall>r \<in> set caps. index r ''effect'' = Inr (JStr ''allow'') \<longrightarrow> (\<exists>c \<in> set allowed. index r ''capability'' = Inr c)"
    "\<forall>r \<in> set caps. \<exists>e. index r ''effect'' = Inr (JStr e) \<and> e \<in> {''allow'', ''deny'', ''conditional''}"
proof -
  from assms obtain es es' where es: "capability_entries techniques = Inr es" "sort_by (entry_key env) es = Inr es'"
    "traverse (capability_rule env rules) es' = Inr caps"
    unfolding capability_rules_of_def by (elim bindrE)
  from es(1) obtain allowed denied conditional entries where
    c: "iterated techniques ''allowed_capabilities'' = Inr allowed" "iterated techniques ''denied_capabilities'' = Inr denied"
    "iterated techniques ''conditional_capabilities'' = Inr conditional" "traverse conditional_entry conditional = Inr entries"
    and es_def: "es = map (\<lambda>c. (c, ''allow'', [])) allowed @ map (\<lambda>c. (c, ''deny'', [])) denied @ entries"
    unfolding capability_entries_def by (elim bindrE) auto
  have set: "set es' = set es" by (rule sort_by_set [OF es(2)])
  have rule: "\<exists>r \<in> set caps. index r ''capability'' = Inr (fst e) \<and> index r ''effect'' = Inr (JStr (fst (snd e)))"
    if "e \<in> set es" for e
  proof -
    from traverse_memD [OF es(3), of e] that set obtain r where "r \<in> set caps" "capability_rule env rules e = Inr r" by auto
    then show ?thesis
      by (intro bexI [of _ r]) (auto simp: capability_rule_def Let_def elim!: bindrE split: prod.splits)
  qed
  have origin: "\<exists>e \<in> set es. index r ''capability'' = Inr (fst e) \<and> index r ''effect'' = Inr (JStr (fst (snd e)))"
    if "r \<in> set caps" for r
    by (rule traverse_memE [OF es(3) that])
       (use set in \<open>force simp: capability_rule_def Let_def elim!: bindrE split: prod.splits\<close>)
  have cond: "fst (snd e) = ''conditional''" if "e \<in> set entries" for e
    by (rule traverse_memE [OF c(4) that]) (auto simp: conditional_entry_def elim!: bindrE)
  show ?thesis
  proof (rule that [OF c])
    show "\<forall>c \<in> set allowed. \<exists>r \<in> set caps. index r ''capability'' = Inr c \<and> index r ''effect'' = Inr (JStr ''allow'')"
      using rule [of "(_, ''allow'', [])"] by (auto simp: es_def)
    show "\<forall>c \<in> set denied. \<exists>r \<in> set caps. index r ''capability'' = Inr c \<and> index r ''effect'' = Inr (JStr ''deny'')"
      using rule [of "(_, ''deny'', [])"] by (auto simp: es_def)
    show "\<forall>e \<in> set entries. \<exists>r \<in> set caps. index r ''capability'' = Inr (fst e) \<and> index r ''effect'' = Inr (JStr ''conditional'')"
      using rule cond by (fastforce simp: es_def)
    show "\<forall>r \<in> set caps. index r ''effect'' = Inr (JStr ''allow'') \<longrightarrow> (\<exists>c \<in> set allowed. index r ''capability'' = Inr c)"
      using origin cond by (fastforce simp: es_def)
    show "\<forall>r \<in> set caps. \<exists>e. index r ''effect'' = Inr (JStr e) \<and> e \<in> {''allow'', ''deny'', ''conditional''}"
      using origin cond by (fastforce simp: es_def)
  qed
qed

lemma rules_for_iff:
  assumes "rules_for intent policy = Inr rules" and "iterated (JObj policy) ''capability_rules'' = Inr all_rules"
  shows "set rules = {r \<in> set all_rules. \<exists>c. index r ''capability'' = Inr c \<and> py_eq c (dict_get intent ''capability'')}"
proof -
  have "rules = filter (\<lambda>r. mapr (\<lambda>c. py_eq c (dict_get intent ''capability'')) (index r ''capability'') = Inr True) all_rules"
    using assms by (auto simp: rules_for_def elim!: bindrE dest: filterr_eq_filter)
  then show ?thesis by (auto simp: mapr_eq_Inr)
qed

lemma compiled_capability:
  assumes g: "capability_gate intent policy = Inr None" and p: "iterated (JObj policy) ''capability_rules'' = Inr caps'"
    and s: "set caps' = set caps" and c: "capability_rules_of env techniques rules = Inr caps"
  shows "\<exists>allowed denied. iterated techniques ''allowed_capabilities'' = Inr allowed \<and>
    iterated techniques ''denied_capabilities'' = Inr denied \<and>
    py_in (dict_get intent ''capability'') allowed \<and> \<not> py_in (dict_get intent ''capability'') denied"
proof -
  from capability_gate_cases [OF g] obtain rules' where r: "rules_for intent policy = Inr rules'" "rules' \<noteq> []"
    "\<forall>r \<in> set rules'. \<exists>v. index r ''effect'' = Inr v \<and> v \<noteq> JStr ''deny'' \<and> v \<noteq> JStr ''conditional''" by auto
  note mem = rules_for_iff [OF r(1) p, unfolded s]
  from c show ?thesis
  proof (cases rule: capability_rules_ofD)
    case (1 allowed denied conditional entries)
    from r(2) obtain q where q: "q \<in> set rules'" by (cases rules') auto
    with mem obtain cq where cq: "q \<in> set caps" "index q ''capability'' = Inr cq" "py_eq cq (dict_get intent ''capability'')" by auto
    have "index q ''effect'' = Inr (JStr ''allow'')" using r(3) q 1(9) cq(1) by fastforce
    with 1(8) cq have "cq \<in> set allowed" by fastforce
    with cq(3) have a: "py_in (dict_get intent ''capability'') allowed" by (auto simp: py_in_iff py_eq_sym)
    have "\<not> py_in (dict_get intent ''capability'') denied"
    proof
      assume "py_in (dict_get intent ''capability'') denied"
      then obtain x where x: "x \<in> set denied" "py_eq x (dict_get intent ''capability'')" by (auto simp: py_in_iff py_eq_sym)
      with 1(6) obtain z where z: "z \<in> set caps" "index z ''capability'' = Inr x" "index z ''effect'' = Inr (JStr ''deny'')" by blast
      with x mem have "z \<in> set rules'" by auto
      with r(3) z(3) show False by auto
    qed
    with a 1(1,2) show ?thesis by blast
  qed
qed

section \<open>From the manifest to the decision\<close>

text \<open>
  C1. A decision that allows under a policy compiled from a manifest is authorized by the manifest
  itself: the manifest has no unresolved question, the present instant lies in its engagement window,
  the capability is among its allowed and not among its denied ones, and some asset of its scope
  with effect allow admits the target: the asset covers the target (its URL, its domain, its address or
  its network), the port and path are allowed and the path lies below none of the denied paths of that asset.
\<close>

theorem compiled_allow_is_authorized:
  assumes c: "compile_with env sv manifest mh = Inr p"
    and same: "\<forall>k \<in> {''asset_rules'', ''capability_rules'', ''validity''}. map_of policy k = map_of p k"
    and e: "evaluate env intent policy active revoked now = Inr d" and al: "dict_get d ''outcome'' = JStr ''allow''"
  shows "\<exists>scope assets techniques allowed denied engagement not_before not_after target asset.
    \<not> truthy (dict_get manifest ''unresolved_questions'') \<and>
    index (JObj manifest) ''engagement'' = Inr engagement \<and>
    bindr (index engagement ''effective_from'') parse_time = Inr not_before \<and>
    bindr (index engagement ''expires_at'') parse_time = Inr not_after \<and> not_before \<le> now \<and> now < not_after \<and>
    index (JObj manifest) ''techniques'' = Inr techniques \<and>
    iterated techniques ''allowed_capabilities'' = Inr allowed \<and> iterated techniques ''denied_capabilities'' = Inr denied \<and>
    py_in (dict_get intent ''capability'') allowed \<and> \<not> py_in (dict_get intent ''capability'') denied \<and>
    index (JObj manifest) ''scope'' = Inr scope \<and> iterated scope ''assets'' = Inr assets \<and>
    target_of env intent = Inr (Some target) \<and> asset \<in> set assets \<and> asset_admits env asset target"
  using c
proof (cases rule: compile_withE)
  case (1 scope assets rss techniques caps body)
  obtain reason ids where "verdict_of env intent policy active revoked now = Inr (''allow'', reason, ids)"
    by (rule evaluate_outcome [OF e]) (use al in auto)
  then obtain target where t: "clock_gate env intent policy now = Inr None" "target_of env intent = Inr (Some target)"
    "capability_gate intent policy = Inr None" "asset_verdict policy target = Inr (''allow'', reason, ids)"
    by (rule allow_verdict)
  from 1(8) show ?thesis
  proof (cases rule: policy_bodyE)
    case b: (1 rules' caps' engagement not_before not_after)
    have pol: "iterated (JObj policy) ''asset_rules'' = Inr rules'" "iterated (JObj policy) ''capability_rules'' = Inr caps'"
      "index (JObj policy) ''validity'' = Inr (JObj [(''not_before'', not_before), (''not_after'', not_after), (''revocation_epoch'', JInt 0)])"
      using same b 1(9) by (simp_all add: iterated_def)
    have win: "\<exists>nb na. bindr (index engagement ''effective_from'') parse_time = Inr nb \<and>
        bindr (index engagement ''expires_at'') parse_time = Inr na \<and> nb \<le> now \<and> now < na"
      using clock_gate_cases [OF t(1)] pol(3) b(6,7) by auto
    from asset_verdict_cases [OF t(4)] pol(1) obtain found top where
      f: "found = filter (\<lambda>rule. asset_matches rule target = Inr True) rules'" "found \<noteq> []" "max_specificity found = Inr top"
      and ok: "\<forall>rule \<in> set found. \<forall>s. index rule ''specificity'' = Inr s \<and> compare_less s top = Inr False \<longrightarrow>
          index rule ''effect'' = Inr (JStr ''allow'') \<and> limits_gate target [rule] = Inr None" by auto
    have spec: "\<forall>x \<in> set found. \<exists>n. rule_specificity x = Some n"
    proof
      fix x assume "x \<in> set found"
      then have x: "x \<in> set (concat rss)" using f(1) b(2) by auto
      show "\<exists>n. rule_specificity x = Some n"
        by (rule asset_rule_source [OF 1(5) x]) (use compiled_rule_specificity in blast)
    qed
    from max_specificity_int [OF spec f(2)] f(3) obtain n q where q: "top = JInt n" "q \<in> set found" "rule_specificity q = Some n"
      "\<forall>x \<in> set found. \<forall>m. rule_specificity x = Some m \<longrightarrow> m \<le> n" by auto
    then have q': "index q ''effect'' = Inr (JStr ''allow'')" "limits_gate target [q] = Inr None"
      using ok by (auto simp: rule_specificity_eq)
    have "q \<in> set (concat rss)" "asset_matches q target = Inr True" using q(2) f(1) b(2) by auto
    from asset_rule_source [OF 1(5) this(1)] obtain a rs where a: "a \<in> set assets" "asset_rules_of env a = Inr rs"
      "q \<in> set rs" "set rs \<subseteq> set (concat rss)" .
    have "\<forall>x \<in> set rs. asset_matches x target = Inr True \<longrightarrow> the (rule_specificity x) \<le> the (rule_specificity q)"
    proof (intro ballI impI)
      fix x assume x: "x \<in> set rs" "asset_matches x target = Inr True"
      then have "x \<in> set found" using f(1) b(2) a(4) by auto
      with spec q(3,4) show "the (rule_specificity x) \<le> the (rule_specificity q)" by fastforce
    qed
    from most_specific_allow_admits [OF a(2,3) \<open>asset_matches q target = Inr True\<close> q' this]
    have adm: "asset_admits env a target" .
    from compiled_capability [OF t(3) pol(2) b(4) 1(7)] win adm a(1) t(2) b(5) 1(1-3,6) show ?thesis by blast
  qed
qed

section \<open>Integrity and errors of compilation\<close>

lemma unsigned_body:
  assumes "policy_body env sv manifest mh rules caps = Inr body"
  shows "unsigned_policy (body @ [(''content_hash'', h)]) = body"
proof -
  have keys: "\<forall>kv \<in> set body. fst kv \<noteq> ''content_hash'' \<and> fst kv \<noteq> ''signature''"
    using assms unfolding policy_body_def testing_schedule_of_def account_constraints_of_def
    by (elim bindrE) (auto elim!: bindrE simp del: index.simps split: json.splits if_splits)
  then have "filter (\<lambda>(k, _). k \<noteq> ''content_hash'' \<and> k \<noteq> ''signature'') body = body"
    by (auto simp: filter_id_conv)
  then show ?thesis by (simp add: unsigned_policy_def)
qed

text \<open>
  A compiled policy denies by default, names the hash of its manifest, carries the window of the
  engagement, and its content hash is the hash of everything else in it.
\<close>

theorem compiled_policy_integrity:
  assumes "compile_with env sv manifest mh = Inr p"
  shows "dict_get p ''default_effect'' = JStr ''deny'' \<and> dict_get p ''manifest_hash'' = JStr mh \<and>
    dict_get p ''content_hash'' = JStr (content_hash env (JObj (unsigned_policy p))) \<and>
    (\<exists>engagement not_before not_after. index (JObj manifest) ''engagement'' = Inr engagement \<and>
       index engagement ''effective_from'' = Inr not_before \<and> index engagement ''expires_at'' = Inr not_after \<and>
       dict_get p ''validity'' = JObj [(''not_before'', not_before), (''not_after'', not_after), (''revocation_epoch'', JInt 0)])"
  using assms
proof (cases rule: compile_withE)
  case (1 scope assets rss techniques caps body)
  note u = unsigned_body [OF 1(8)]
  have "map_of body ''content_hash'' = None"
  proof -
    have "(''content_hash'', v) \<notin> set body" for v
      using arg_cong [OF u, of set] by (auto simp: unsigned_policy_def)
    then show ?thesis by (auto simp: map_of_eq_None_iff)
  qed
  then have h: "dict_get p ''content_hash'' = JStr (content_hash env (JObj (unsigned_policy p)))"
    using 1(9) u by (simp add: dict_get_def map_add_def)
  from 1(8) show ?thesis
  proof (cases rule: policy_bodyE)
    case b: (1 rules' caps' engagement not_before not_after)
    have "dict_get p ''default_effect'' = JStr ''deny''" "dict_get p ''manifest_hash'' = JStr mh"
      "dict_get p ''validity'' = JObj [(''not_before'', not_before), (''not_after'', not_after), (''revocation_epoch'', JInt 0)]"
      using 1(9) b by (simp_all add: dict_get_def map_add_def)
    with h b(5-7) show ?thesis by blast
  qed
qed

text \<open>
  Compilation refuses a manifest with unresolved questions, and one whose scope allows nothing,
  each with its own error, whatever the rest of the manifest holds.
\<close>

theorem compile_refuses:
  "(truthy (dict_get manifest ''unresolved_questions'') \<longrightarrow>
      compile_with env sv manifest mh = Inl (CompilationError ''AUTHORIZATION_AMBIGUOUS'')) \<and>
   (\<not> truthy (dict_get manifest ''unresolved_questions'') \<and> dict_get manifest ''scope'' = JObj scope \<and>
    dict_get scope ''assets'' = JList assets \<and>
    list_all (\<lambda>a. is_dict a \<and> (\<exists>e. index a ''effect'' = Inr e \<and> e \<noteq> JStr ''allow'')) assets \<longrightarrow>
      compile_with env sv manifest mh = Inl (CompilationError ''SCOPE_EMPTY''))"
proof -
  have "anyr (\<lambda>a. mapr (\<lambda>e. e = JStr ''allow'') (index a ''effect'')) assets = Inr False"
    if "list_all (\<lambda>a. is_dict a \<and> (\<exists>e. index a ''effect'' = Inr e \<and> e \<noteq> JStr ''allow'')) assets"
    using that by (induction assets) auto
  then show ?thesis
    by (auto simp: compile_with_def iterated_def dict_get_def split: option.splits)
qed

section \<open>Specificity across asset kinds\<close>

lemma filterr_all: "(\<And>x. x \<in> set xs \<Longrightarrow> \<exists>b. f x = Inr b) \<Longrightarrow> filterr f xs = Inr (filter (\<lambda>x. f x = Inr True) xs)"
  by (induction xs) (auto, force+)

lemma limits_gate_Cons:
  "limits_gate target (r # rs) =
     bindr (limits_gate target [r]) (\<lambda>refused. case refused of None \<Rightarrow> limits_gate target rs | Some reason \<Rightarrow> Inr (Some reason))"
  by (simp add: bindr_def split: sum.split)

lemma limits_gate_all: "(\<And>x. x \<in> set rs \<Longrightarrow> limits_gate target [x] = Inr None) \<Longrightarrow> limits_gate target rs = Inr None"
  by (induction rs) (simp, subst limits_gate_Cons, simp del: limits_gate.simps(2))

lemma anyr_constant: "(\<And>x. x \<in> set xs \<Longrightarrow> f x = Inr False) \<Longrightarrow> anyr f xs = Inr False"
  by (induction xs) auto

lemma anyr_True_total:
  "x \<in> set xs \<Longrightarrow> f x = Inr True \<Longrightarrow> (\<And>y. y \<in> set xs \<Longrightarrow> \<exists>b. f y = Inr b) \<Longrightarrow> anyr f xs = Inr True"
proof (induction xs)
  case (Cons y xs)
  from Cons.prems(3) [of y] obtain b where "f y = Inr b" by auto
  with Cons show ?case by (cases b) auto
qed simp

lemma traverse_constant: "(\<And>x. x \<in> set xs \<Longrightarrow> f x = Inr y) \<Longrightarrow> traverse f xs = Inr (replicate (length xs) y)"
  by (induction xs) auto

text \<open>A rule that is strictly more specific than every other matching rule decides alone.\<close>

lemma most_specific_rule_decides:
  assumes rules: "iterated (JObj policy) ''asset_rules'' = Inr rules"
    and total: "\<And>q. q \<in> set rules \<Longrightarrow> \<exists>b. asset_matches q target = Inr b"
    and spec: "\<And>q. q \<in> set rules \<Longrightarrow> \<exists>n. rule_specificity q = Some n"
    and r: "r \<in> set rules" "asset_matches r target = Inr True" "rule_id r = Inr i"
    and effect: "index r ''effect'' = Inr (JStr ''allow'')" and lim: "limits_gate target [r] = Inr None"
    and top: "\<And>q. q \<in> set rules \<Longrightarrow> asset_matches q target = Inr True \<Longrightarrow> q \<noteq> r \<Longrightarrow>
      the (rule_specificity q) < the (rule_specificity r)"
  shows "\<exists>ids. asset_verdict policy target = Inr (''allow'', ''EXPLICIT_ALLOW'', ids) \<and> set ids = {i}"
proof -
  define found where "found = filter (\<lambda>q. asset_matches q target = Inr True) rules"
  have f: "filterr (\<lambda>q. asset_matches q target) rules = Inr found"
    unfolding found_def by (rule filterr_all [OF total])
  have rf: "r \<in> set found" using r by (auto simp: found_def)
  then have ne: "found \<noteq> []" by auto
  have sf: "\<forall>x \<in> set found. \<exists>n. rule_specificity x = Some n" using spec by (auto simp: found_def)
  from spec [OF r(1)] obtain n where n: "rule_specificity r = Some n" by blast
  have less: "m < n" if "x \<in> set found" "x \<noteq> r" "rule_specificity x = Some m" for x m
    using top [of x] that n by (auto simp: found_def)
  from max_specificity_int [OF sf ne] obtain k q where k: "max_specificity found = Inr (JInt k)" "q \<in> set found"
    "rule_specificity q = Some k" "\<forall>x \<in> set found. \<forall>m. rule_specificity x = Some m \<longrightarrow> m \<le> k" by blast
  then have "n \<le> k" using rf n by blast
  with less k(2,3) n have kn: "k = n" by (cases "q = r") fastforce+
  let ?at_top = "\<lambda>rule. bindr (index rule ''specificity'') (\<lambda>s. mapr Not (compare_less s (JInt n)))"
  have at: "?at_top x = Inr (x = r)" if "x \<in> set found" for x
  proof -
    from sf that obtain m where m: "rule_specificity x = Some m" by blast
    with less [OF that _ m] n show ?thesis by (cases "x = r") (auto simp: rule_specificity_eq)
  qed
  define applicable where "applicable = filter (\<lambda>x. x = r) found"
  have "filter (\<lambda>x. ?at_top x = Inr True) found = applicable"
    unfolding applicable_def using at by (intro filter_cong) auto
  then have app: "filterr ?at_top found = Inr applicable" using filterr_all [of found ?at_top] at by auto
  have ar: "x = r" if "x \<in> set applicable" for x using that by (simp add: applicable_def)
  have "length applicable \<noteq> 0" using rf by (simp add: applicable_def filter_empty_conv)
  then have ids: "set (replicate (length applicable) i) = {i}" by (simp add: set_replicate_conv_if)
  have "traverse rule_id applicable = Inr (replicate (length applicable) i)"
    using ar r(3) by (intro traverse_constant) simp
  moreover have "anyr (has_effect ''deny'') applicable = Inr False"
    "anyr (\<lambda>rule. mapr Not (has_effect ''allow'' rule)) applicable = Inr False"
    using ar effect by (auto intro!: anyr_constant simp: has_effect_def simp del: index.simps)
  moreover have "limits_gate target applicable = Inr None"
    by (rule limits_gate_all) (use ar lim in metis)
  ultimately have "asset_verdict policy target = Inr (''allow'', ''EXPLICIT_ALLOW'', replicate (length applicable) i)"
    using rules f ne k(1) kn app by (simp add: asset_verdict_def del: limits_gate.simps)
  with ids show ?thesis by blast
qed

text \<open>
  An asset that names domains: its own rule and the rules of its denied paths rank below the rule of any
  URL when the labels of the domain and the characters of the path together are fewer than 900.
\<close>

definition low_ranked :: "json \<Rightarrow> bool" where
  "low_ranked asset =
     (case asset of
        JObj a \<Rightarrow>
          dict_get a ''type'' \<in> {JStr ''domain'', JStr ''wildcard_domain''} \<and>
          list_all (\<lambda>p. length (split_on (CHR ''.'') (str_of (dict_get a ''canonical_value''))) + length (str_of p) < 900)
            (JStr [] # members a ''denied_paths'')
      | _ \<Rightarrow> False)"

lemma domain_matcher:
  assumes "asset_matcher env (JObj d) = Inr (m, n)"
    and "dict_get d ''type'' \<in> {JStr ''domain'', JStr ''wildcard_domain''}"
  shows "n \<le> 4000 + int (length (split_on (CHR ''.'') (str_of (dict_get d ''canonical_value''))))"
    and "\<exists>v apex. dict_get d ''canonical_value'' = JStr v \<and> m = [(''value'', JStr v), (''include_apex'', apex)]"
  using assms
  by (auto simp: asset_matcher_def text_of_def truth_def elim!: bindrE guardrE dest!: index_dict_get
      simp del: index.simps get.simps split: if_splits json.splits)

lemma domain_matches_total:
  assumes "m = [(''value'', JStr v), (''include_apex'', apex)] \<or>
      m = dict_put [(''value'', JStr v), (''include_apex'', apex)] ''path_prefix'' (JStr p)"
    and "kind \<in> {JStr ''domain'', JStr ''wildcard_domain''}"
  shows "\<exists>b. asset_matches (rule_json i e kind m n ports paths s) target = Inr b"
  using assms
  by (elim disjE insertE emptyE) (simp_all add: asset_matches_def wildcard_matches_def path_matches_json_def text_of_def ex_bool_eq)

lemma low_ranked_rules:
  assumes a: "asset_rules_of env asset = Inr rs" and low: "low_ranked asset" and q: "q \<in> set rs"
  shows "the (rule_specificity q) < 5000 \<and> (\<exists>b. asset_matches q target = Inr b)"
proof -
  from low obtain d where d: "asset = JObj d" "dict_get d ''type'' \<in> {JStr ''domain'', JStr ''wildcard_domain''}"
    and all: "\<forall>v \<in> set (JStr [] # members d ''denied_paths'').
      length (split_on (CHR ''.'') (str_of (dict_get d ''canonical_value''))) + length (str_of v) < 900"
    unfolding low_ranked_def list_all_iff by (cases asset) auto
  have bound: "length (split_on (CHR ''.'') (str_of (dict_get d ''canonical_value''))) + length p < 900"
    if "p = [] \<or> JStr p \<in> set (members d ''denied_paths'')" for p
    using all that by (auto dest: bspec [of _ _ "JStr p"])
  from a show ?thesis
  proof (cases rule: asset_rules_ofE)
    case (1 matcher n effect kind ports paths source denied denies seed)
    note kind = index_dict_get [OF 1(3) [unfolded d(1)]]
    note m = domain_matcher [OF 1(1) [unfolded d(1)] d(2)]
    note denied = sorted_default_members(1) [OF 1(6) [unfolded d(1)]]
    show ?thesis
    proof (cases "q \<in> set denies")
      case True
      from traverse_memE [OF 1(7) this] obtain v where v: "v \<in> set denied" "deny_rule env seed kind matcher n ports source v = Inr q" .
      then obtain p where p: "v = JStr p" "q = rule_json (stable_id env ''asset-path-deny'' (JObj [(''parent'', seed), (''denied_path'', v)]))
        (JStr ''deny'') kind (dict_put matcher ''path_prefix'' v) (n + 100 + int (length p)) ports [v] source"
        by (auto simp: deny_rule_eq_Inr)
      have "JStr p \<in> set (members d ''denied_paths'')" using v(1) p(1) denied by auto
      from bound [of p] this m(1) have "the (rule_specificity q) < 5000" by (simp add: p(2))
      moreover have "\<exists>b. asset_matches q target = Inr b"
        using m(2) d(2) unfolding p kind by (auto intro!: domain_matches_total simp del: dict_put.simps)
      ultimately show ?thesis ..
    next
      case False
      with q 1(8) have r: "q = rule_json (stable_id env ''asset-rule'' seed) effect kind matcher n ports paths source" by simp
      from bound [of "[]"] m(1) have "the (rule_specificity q) < 5000" by (simp add: r)
      moreover have "\<exists>b. asset_matches q target = Inr b"
        using m(2) d(2) unfolding r kind by (auto intro!: domain_matches_total)
      ultimately show ?thesis ..
    qed
  qed
qed

lemma covering_rule_matches:
  assumes "asset_matcher env (JObj d) = Inr (m, n)" and "dict_get d ''type'' \<in> {JStr ''url'', JStr ''domain''}"
    and "asset_covers env d target"
  shows "asset_matches (rule_json i e (dict_get d ''type'') m n' ports paths s) target = Inr True"
proof (cases "dict_get d ''type'' = JStr ''url''")
  case True
  with assms(1) obtain u where u: "canonicalize_url (idna_encode env) (dict_get d ''canonical_value'') = Inr u"
    and m: "m = [(''scheme'', JStr (cu_scheme u)), (''host'', host_json (cu_host_kind u) (cu_host_value u)),
                (''port'', JInt (cu_port u)), (''path'', JStr (cu_path u))]"
    by (rule url_matcherE)
  have "same_site u target \<and> path_matches (cu_path u) (cu_path target)"
    using assms(3) True u by (auto simp: asset_covers_def canonicalize_url_def split: json.splits)
  then show ?thesis
    by (simp add: True m asset_matches_def url_rule_matches_def same_site_def path_matches_json_def text_of_def)
next
  case False
  with assms(2) have k: "dict_get d ''type'' = JStr ''domain''" by simp
  have "map_of m ''value'' = Some (dict_get d ''canonical_value'')"
    by (rule asset_matcher_members(1) [OF assms(1) k]) simp
  moreover have "cu_host_kind target = ''domain''" "dict_get d ''canonical_value'' = JStr (cu_host_value target)"
    using assms(3) k by (auto simp: asset_covers_def Let_def split: json.splits)
  ultimately show ?thesis
    using asset_matcher_no_prefix [OF assms(1)] by (simp add: k asset_matches_def)
qed

text \<open>The limits of an asset, in the order in which its rule holds them.\<close>

lemma admitted_limits:
  assumes ports: "bindr (get (JObj d) ''allowed_ports'' (JList [])) sorted_set = Inr ports"
    and paths: "bindr (get (JObj d) ''allowed_paths'' (JList [])) sorted_set = Inr paths"
    and strs: "list_all is_str (members d ''allowed_paths'')" and adm: "asset_admits env (JObj d) target"
  shows "limits_gate target [rule_json i e k m n ports paths s] = Inr None"
proof -
  note sp = sorted_default_members [OF ports] and sq = sorted_default_members [OF paths]
  have port: "ports = [] \<or> py_in (JInt (cu_port target)) ports"
  proof (cases "members d ''allowed_ports'' = []")
    case False
    with adm obtain x where x: "x \<in> set (members d ''allowed_ports'')" "py_eq (JInt (cu_port target)) x"
      by (auto simp: asset_admits_def py_in_iff)
    from sp(2) [OF x(1)] x(2) show ?thesis by (auto simp: py_in_iff intro: py_eq_trans)
  qed (use sp(1) in simp)
  have str: "is_str p" if "p \<in> set paths" for p using sq(1) strs that by (auto simp: list_all_iff)
  have path: "anyr (\<lambda>p. path_matches_json p (cu_path target)) paths = Inr True" if "paths \<noteq> []"
  proof -
    have "members d ''allowed_paths'' \<noteq> []" using that sq(1) by auto
    with adm obtain p where p: "JStr p \<in> set (members d ''allowed_paths'')" "path_matches p (cu_path target)"
      by (auto simp: asset_admits_def list_ex_iff elim: is_str.elims)
    have mem: "JStr p \<in> set paths" using sq(2) [OF p(1)] by auto
    have "\<exists>b. path_matches_json x (cu_path target) = Inr b" if "x \<in> set paths" for x
      using str [OF that] by (auto simp: path_matches_json_def text_of_def elim: is_str.elims)
    then show ?thesis
      using mem p(2) by (intro anyr_True_total) (auto simp: path_matches_json_True)
  qed
  show ?thesis using port path by (auto simp: py_contains_def)
qed

lemma url_rules:
  assumes a: "asset_rules_of env (JObj u) = Inr rs" and kind: "dict_get u ''type'' = JStr ''url''"
    and strs: "list_all is_str (members u ''allowed_paths'')" and adm: "asset_admits env (JObj u) target"
  shows "\<exists>r i. r \<in> set rs \<and> asset_matches r target = Inr True \<and> rule_id r = Inr i \<and>
    index r ''effect'' = Inr (JStr ''allow'') \<and> limits_gate target [r] = Inr None \<and> 5000 \<le> the (rule_specificity r) \<and>
    (\<forall>q \<in> set rs. q \<noteq> r \<longrightarrow> asset_matches q target = Inr False)"
  using a
proof (cases rule: asset_rules_ofE)
  case (1 matcher n effect k ports paths source denied denies seed)
  let ?r = "rule_json (stable_id env ''asset-rule'' seed) effect k matcher n ports paths source"
  have k: "k = dict_get u ''type''" and eff: "effect = JStr ''allow''"
    using index_dict_get [OF 1(3)] index_dict_get [OF 1(2)] adm by (simp_all add: asset_admits_def)
  have covers: "asset_covers env u target" using adm by (simp add: asset_admits_def)
  have match: "asset_matches ?r target = Inr True"
    unfolding k by (rule covering_rule_matches [OF 1(1) _ covers]) (simp add: kind)
  have n: "5000 \<le> n" by (rule url_matcherE [OF 1(1) kind]) simp
  have others: "asset_matches q target = Inr False" if q: "q \<in> set denies" for q
  proof -
    from traverse_memE [OF 1(7) q] obtain x where x: "x \<in> set denied" "deny_rule env seed k matcher n ports source x = Inr q" .
    then obtain p where p: "x = JStr p" "q = rule_json (stable_id env ''asset-path-deny'' (JObj [(''parent'', seed), (''denied_path'', x)]))
        (JStr ''deny'') k (dict_put matcher ''path_prefix'' x) (n + 100 + int (length p)) ports [x] source"
      by (auto simp: deny_rule_eq_Inr)
    have "JStr p \<in> set (members u ''denied_paths'')" using sorted_default_members(1) [OF 1(6)] x(1) p(1) by auto
    with adm have "\<not> path_matches p (cu_path target)" by (force simp: asset_admits_def list_ex_iff)
    then show ?thesis unfolding p by (simp add: asset_matches_def path_matches_json_def text_of_def)
  qed
  have "limits_gate target [?r] = Inr None" by (rule admitted_limits [OF 1(4,5) strs adm])
  moreover have "rule_id ?r = Inr (stable_id env ''asset-rule'' seed)" by (simp add: rule_id_def rule_json_def)
  moreover have "?r \<in> set rs" "index ?r ''effect'' = Inr (JStr ''allow'')" "5000 \<le> the (rule_specificity ?r)"
    "\<forall>q \<in> set rs. q \<noteq> ?r \<longrightarrow> asset_matches q target = Inr False"
    using 1(8) eff n others by auto
  ultimately show ?thesis using match by blast
qed

lemma denied_path_rule:
  assumes a: "asset_rules_of env (JObj d) = Inr rs" and kind: "dict_get d ''type'' = JStr ''domain''"
    and covers: "asset_covers env d target" and q: "JStr q \<in> set (members d ''denied_paths'')"
    and below: "path_matches q (cu_path target)"
  shows "\<exists>r \<in> set rs. index r ''effect'' = Inr (JStr ''deny'') \<and> asset_matches r target = Inr True"
  using a
proof (cases rule: asset_rules_ofE)
  case (1 matcher n effect k ports paths source denied denies seed)
  have k: "k = dict_get d ''type''" using index_dict_get [OF 1(3)] by simp
  have "JStr q \<in> set denied" using sorted_default_members(2) [OF 1(6) q] by auto
  from traverse_memD [OF 1(7) this] obtain r where r: "r \<in> set denies"
    "r = rule_json (stable_id env ''asset-path-deny'' (JObj [(''parent'', seed), (''denied_path'', JStr q)]))
        (JStr ''deny'') k (dict_put matcher ''path_prefix'' (JStr q)) (n + 100 + int (length q)) ports [JStr q] source"
    by (auto simp: deny_rule_eq_Inr)
  have "asset_matches r target = Inr True"
    unfolding r(2) k
    by (rule deny_rule_matches [OF covering_rule_matches [OF 1(1) _ covers] asset_matcher_no_prefix [OF 1(1)] below])
      (simp add: kind)
  with r 1(8) show ?thesis by (intro bexI [of _ r]) auto
qed

text \<open>
  C12. Specificity compares kinds of assets before paths: in any policy compiled from a manifest with a
  URL asset that admits the target, where all other assets name domains of ordinary length, a denied
  path of a domain asset does not count. The policy holds a deny rule that matches the target,
  since the target lies below the denied path of a domain that covers it, and the verdict still allows
  the target, by the rule of the URL asset alone.
\<close>

theorem url_allow_outranks_denied_path:
  assumes c: "compile_with env sv manifest mh = Inr p"
    and assets: "index (JObj manifest) ''scope'' = Inr scope" "iterated scope ''assets'' = Inr assets"
    and url: "JObj u \<in> set assets" "dict_get u ''type'' = JStr ''url''" "list_all is_str (members u ''allowed_paths'')"
      "asset_admits env (JObj u) target"
    and others: "\<forall>a \<in> set assets. a = JObj u \<or> low_ranked a"
    and domain: "JObj d \<in> set assets" "dict_get d ''type'' = JStr ''domain''" "asset_covers env d target"
      "JStr q \<in> set (members d ''denied_paths'')" "path_matches q (cu_path target)"
  shows "\<exists>rules r i ids. iterated (JObj p) ''asset_rules'' = Inr rules \<and> r \<in> set rules \<and>
    index r ''effect'' = Inr (JStr ''deny'') \<and> asset_matches r target = Inr True \<and>
    asset_verdict p target = Inr (''allow'', ''EXPLICIT_ALLOW'', ids) \<and> set ids = {i}"
  using c
proof (cases rule: compile_withE)
  case (1 scope' assets' rss techniques caps body)
  then have as: "assets' = assets" using assets by auto
  from 1(8) show ?thesis
  proof (cases rule: policy_bodyE)
    case b: (1 rules caps' engagement not_before not_after)
    have pol: "iterated (JObj p) ''asset_rules'' = Inr rules" using b(1) 1(9) by (simp add: iterated_def)
    obtain ru rd where ru: "asset_rules_of env (JObj u) = Inr ru" "ru \<in> set rss"
      and rd: "asset_rules_of env (JObj d) = Inr rd" "rd \<in> set rss"
      using traverse_memD [OF 1(5)] url(1) domain(1) as by blast
    from url_rules [OF ru(1) url(2-4)] obtain r i where r: "r \<in> set ru" "asset_matches r target = Inr True"
      "rule_id r = Inr i" "index r ''effect'' = Inr (JStr ''allow'')" "limits_gate target [r] = Inr None"
      "5000 \<le> the (rule_specificity r)" and own: "\<forall>q \<in> set ru. q \<noteq> r \<longrightarrow> asset_matches q target = Inr False" by blast
    from denied_path_rule [OF rd(1) domain(2-5)] obtain r' where r': "r' \<in> set rd"
      "index r' ''effect'' = Inr (JStr ''deny'')" "asset_matches r' target = Inr True" by blast
    have each: "q' = r \<or> asset_matches q' target = Inr False \<or>
        the (rule_specificity q') < 5000 \<and> (\<exists>b. asset_matches q' target = Inr b)"
      and spec: "\<exists>n. rule_specificity q' = Some n" if q: "q' \<in> set rules" for q'
    proof -
      from q b(2) have "q' \<in> set (concat rss)" by simp
      from asset_rule_source [OF 1(5) this] obtain a rs where a: "a \<in> set assets" "asset_rules_of env a = Inr rs" "q' \<in> set rs"
        using as by metis
      show "\<exists>n. rule_specificity q' = Some n" using compiled_rule_specificity [OF a(2,3)] by blast
      show "q' = r \<or> asset_matches q' target = Inr False \<or>
          the (rule_specificity q') < 5000 \<and> (\<exists>b. asset_matches q' target = Inr b)"
        using others a(1) own ru(1) a(2,3) low_ranked_rules [OF a(2) _ a(3)] by (cases "a = JObj u") auto
    qed
    have "\<exists>ids. asset_verdict p target = Inr (''allow'', ''EXPLICIT_ALLOW'', ids) \<and> set ids = {i}"
    proof (rule most_specific_rule_decides [OF pol _ spec _ r(2-5)])
      show "r \<in> set rules" using r(1) ru(2) b(2) by auto
      show "\<exists>b. asset_matches q' target = Inr b" if "q' \<in> set rules" for q' using each [OF that] r(2) by blast
      show "the (rule_specificity q') < the (rule_specificity r)"
        if "q' \<in> set rules" "asset_matches q' target = Inr True" "q' \<noteq> r" for q' using each [OF that(1)] that r(6) by auto
    qed
    moreover have "r' \<in> set rules" using r'(1) rd(2) b(2) by auto
    ultimately show ?thesis using pol r'(2,3) by blast
  qed
qed

end
