(* ===== verification/Sample_Engagement.thy ===== *)
theory Sample_Engagement
  imports Policy_Flow
begin

text \<open>
  A concrete engagement with one asset, carried through validation, compilation and evaluation. It
  instantiates the hypotheses of the theorems on these components: the parameters of the environment
  are concrete functions, all values are computed in the logic.
\<close>

section \<open>A sample engagement\<close>

text \<open>A small engagement: the environment and a manifest with one asset.\<close>

definition sample_env :: policy_env where
  "sample_env =
     \<lparr>sha256_hex = (\<lambda>_. ''h''), float_repr = (\<lambda>_. ''0.5''), uuid5 = (\<lambda>_ s. s), idna_encode = Some,
      iter_errors = (\<lambda>_ _. []), zone_info = (\<lambda>_. Inr \<lparr>utc_offset = (\<lambda>_. 0), wall_offset = (\<lambda>_ _. 0)\<rparr>),
      float_times = (*), type_error_text = []\<rparr>"

definition sample_asset :: json where
  "sample_asset = JObj
     [(''asset_id'', JStr ''a1''), (''type'', JStr ''domain''), (''canonical_value'', JStr ''a.io''),
      (''effect'', JStr ''allow''), (''source_reference'', JStr ''s1''), (''ownership_verified'', JBool True),
      (''allowed_ports'', JList [JInt 443]), (''allowed_paths'', JList []),
      (''denied_paths'', JList [JStr ''/x/'']) ]"

definition sample_manifest :: dict where
  "sample_manifest =
     [(''schema_version'', JStr ''2.0.0''),
      (''engagement'', JObj [(''id'', JStr ''e1''), (''effective_from'', JStr ''2026-01-01T00:00:00Z''),
         (''expires_at'', JStr ''2026-02-01T00:00:00Z'')]),
      (''sources'', JList [JObj [(''source_id'', JStr ''s1''), (''content_hash'', JStr ''h1'')]]),
      (''scope'', JObj [(''assets'', JList [sample_asset])]),
      (''techniques'', JObj [(''allowed_capabilities'', JList [JStr ''network.http.get'']),
         (''denied_capabilities'', JList []), (''conditional_capabilities'', JList []),
         (''allowed_http_methods'', JList [JStr ''GET''])]),
      (''operational_limits'', JObj [(''requests_per_second'', JInt 2), (''per_host_requests_per_second'', JInt 1),
         (''burst_limit'', JInt 1), (''concurrent_connections'', JInt 1), (''maximum_runtime_minutes'', JInt 10),
         (''maximum_total_requests'', JInt 9), (''maximum_response_bytes'', JInt 9)]),
      (''network'', JObj [(''route_mode'', JStr ''direct''), (''registered_source_ipv4'', JList []),
         (''registered_source_ipv6'', JList []), (''ipv6_mode'', JStr ''disabled''), (''dns_mode'', JStr ''system'')]),
      (''data_handling'', JObj []), (''reporting'', JObj []), (''agent_controls'', JObj []),
      (''approvals'', JList []), (''unresolved_questions'', JList [])]"

definition sample_now :: instant where
  "sample_now = 63904032000000000"

lemma sample_validates:
  "(case validate_and_canonicalize sample_env ''engagement-manifest-v2.schema.json'' ''2.0.0'' supported_capabilities
      None sample_now sample_manifest of
      Inr mv \<Rightarrow> mv_valid mv \<and>
        (case mv_document mv of Some d \<Rightarrow> is_dict (dict_get d ''techniques'') | None \<Rightarrow> False)
    | Inl _ \<Rightarrow> False)"
  by code_simp

lemma sample_valid:
  obtains mv d t where "validate_and_canonicalize sample_env ''engagement-manifest-v2.schema.json'' ''2.0.0''
      supported_capabilities None sample_now sample_manifest = Inr mv"
    and "mv_valid mv" and "mv_document mv = Some d" and "dict_get d ''techniques'' = JObj t"
  using sample_validates by (auto split: sum.splits option.splits elim: is_dict.elims)

theorem valid_manifest_assets_witness:
  "\<exists>mv d scope assets.
     validate_and_canonicalize sample_env ''engagement-manifest-v2.schema.json'' ''2.0.0''
       supported_capabilities None sample_now sample_manifest = Inr mv \<and> mv_valid mv \<and>
     mv_document mv = Some d \<and> dict_get d ''scope'' = JObj scope \<and>
     dict_get scope ''assets'' = JList assets \<and> length assets = 1 \<and> list_all (asset_ok [''s1'']) assets"
proof -
  obtain mv where mv: "validate_and_canonicalize sample_env ''engagement-manifest-v2.schema.json'' ''2.0.0''
      supported_capabilities None sample_now sample_manifest = Inr mv" "mv_valid mv"
    by (rule sample_valid)
  have "scan_ids (scan_sources None sample_manifest) = [''s1'']" by code_simp
  moreover have "dict_get sample_manifest ''scope'' = JObj [(''assets'', JList [sample_asset])]" by code_simp
  ultimately show ?thesis
    using valid_manifest_assets [OF mv] mv by (auto simp: dict_get_def [of "[(_, _)]"])
qed

theorem valid_manifest_techniques_witness:
  "\<exists>mv d t.
     validate_and_canonicalize sample_env ''engagement-manifest-v2.schema.json'' ''2.0.0''
       supported_capabilities None sample_now sample_manifest = Inr mv \<and> mv_valid mv \<and>
     mv_document mv = Some d \<and> dict_get d ''techniques'' = JObj t \<and> members t ''allowed_capabilities'' \<noteq> []"
proof -
  obtain mv d t where mv: "validate_and_canonicalize sample_env ''engagement-manifest-v2.schema.json'' ''2.0.0''
      supported_capabilities None sample_now sample_manifest = Inr mv" "mv_valid mv"
    "mv_document mv = Some d" "dict_get d ''techniques'' = JObj t"
    by (rule sample_valid)
  with valid_manifest_techniques [OF mv] show ?thesis by blast
qed

section \<open>A sample schedule\<close>

definition sample_schedule :: json where
  "sample_schedule = JObj
     [(''allowed_windows'', JList [JObj [(''days'', JList [JStr ''thursday'']), (''start_time'', JStr ''00:00''),
         (''end_time'', JStr ''18:00''), (''timezone'', JStr ''UTC'')]]),
      (''blackout_periods'', JList [JObj [(''starts_at'', JStr ''2026-01-15T12:00:00Z''),
         (''ends_at'', JStr ''2026-01-15T13:00:00Z''), (''reason'', JStr ''r'')]])]"

theorem deadline_avoids_blackouts_witness:
  "testing_schedule_deadline sample_env sample_schedule sample_now = Inr (Some (sample_now + 43200000000)) \<and>
   sample_now < sample_now + 43200000000"
proof -
  have *: "testing_schedule_deadline sample_env sample_schedule sample_now = Inr (Some (sample_now + 43200000000))"
    by code_simp
  from deadline_avoids_blackouts [OF *] * show ?thesis by blast
qed

section \<open>A sample decision\<close>

definition signed_with :: "string \<Rightarrow> dict \<Rightarrow> dict" where
  "signed_with key policy =
     (let p = unsigned_policy policy
      in p @ [(''content_hash'', JStr (content_hash sample_env
                 (JObj [(''policy'', JObj p), (''signer_key_id'', JStr key)]))),
              (''signature'', JObj [(''key_id'', JStr key)])])"

text \<open>The policy compiled from the sample manifest, and its signed form.\<close>

definition sample_rules :: "json list" where
  "sample_rules =
     [rule_json (JStr ''asset-path-deny:h'') (JStr ''deny'') (JStr ''domain'')
        [(''value'', JStr ''a.io''), (''include_apex'', JBool False), (''path_prefix'', JStr ''/x/'')]
        4105 [JInt 443] [JStr ''/x/''] (JStr ''s1''),
      rule_json (JStr ''asset-rule:h'') (JStr ''allow'') (JStr ''domain'')
        [(''value'', JStr ''a.io''), (''include_apex'', JBool False)] 4002 [JInt 443] [] (JStr ''s1'')]"

definition sample_compiled :: dict where
  "sample_compiled =
     [(''schema_version'', JStr ''1.0.0''), (''policy_id'', JStr ''policy:h''), (''engagement_id'', JStr ''e1''),
      (''manifest_hash'', JStr ''m''),
      (''compiler'', JObj [(''name'', JStr ''pentai-policy-compiler''), (''version'', JStr ''1.2.0''),
         (''canonicalization_version'', JStr ''1.0.0'')]),
      (''validity'', JObj [(''not_before'', JStr ''2026-01-01T00:00:00Z''),
         (''not_after'', JStr ''2026-02-01T00:00:00Z''), (''revocation_epoch'', JInt 0)]),
      (''asset_rules'', JList sample_rules),
      (''capability_rules'', JList [JObj [(''rule_id'', JStr ''capability-rule:h''),
         (''capability'', JStr ''network.http.get''), (''effect'', JStr ''allow''), (''conditions'', JList []),
         (''source_references'', JList [JStr ''s1''])]]),
      (''budgets'', JObj [(''global_rps'', JInt 2), (''per_host_rps'', JInt 1), (''burst'', JInt 1),
         (''concurrent_connections'', JInt 1), (''maximum_total_requests'', JInt 9),
         (''maximum_runtime_seconds'', JInt 600), (''maximum_request_body_bytes'', JInt 0),
         (''maximum_response_bytes'', JInt 9)]),
      (''network_constraints'', JObj [(''route_profile_id'', JStr ''direct''), (''registered_source_ipv4'', JList []),
         (''registered_source_ipv6'', JList []), (''ipv6_mode'', JStr ''disabled''), (''dns_mode'', JStr ''system''),
         (''pause_on_identity_change'', JBool True)]),
      (''approval_requirements'', JList []), (''default_effect'', JStr ''deny''), (''content_hash'', JStr ''h'')]"

definition sample_policy :: dict where
  "sample_policy = signed_with ''k'' sample_compiled"

definition sample_intent :: "string \<Rightarrow> string \<Rightarrow> dict" where
  "sample_intent url path =
     [(''policy_hash'', dict_get sample_policy ''content_hash''), (''assessment_id'', JStr ''e1''),
      (''created_at'', JStr ''2026-01-14T00:00:00Z''), (''expires_at'', JStr ''2026-01-16T00:00:00Z''),
      (''capability'', JStr ''network.http.get''), (''http'', JObj [(''method'', JStr ''GET'')]),
      (''target'', asdict \<lparr>cu_scheme = ''https'', cu_host_kind = ''domain'', cu_host_value = ''a.io'', cu_port = 443,
         cu_path = path, cu_query = [], cu_canonical_url = url\<rparr>)]"

lemma sample_compiles: "compile_manifest sample_env sample_manifest ''m'' = Inr sample_compiled"
  by code_simp

definition sample_allowed :: dict where
  "sample_allowed = sample_intent ''https://a.io/y'' ''/y''"

definition sample_denied :: dict where
  "sample_denied = sample_intent ''https://a.io/x/y'' ''/x/y''"

definition outcome_of :: "dict result \<Rightarrow> json" where
  "outcome_of r = (case r of Inr d \<Rightarrow> dict_get d ''outcome'' | Inl _ \<Rightarrow> JNull)"

lemma sample_allows: "outcome_of (evaluate sample_env sample_allowed sample_policy True False sample_now) = JStr ''allow''"
  by code_simp

lemma sample_allowedE:
  obtains d where "evaluate sample_env sample_allowed sample_policy True False sample_now = Inr d"
    and "dict_get d ''outcome'' = JStr ''allow''"
  using sample_allows by (auto simp: outcome_of_def split: sum.splits)

lemma sample_denies: "outcome_of (evaluate sample_env sample_denied sample_policy True False sample_now) = JStr ''deny''"
  by code_simp

lemma sample_deniedE:
  obtains d where "evaluate sample_env sample_denied sample_policy True False sample_now = Inr d"
    and "dict_get d ''outcome'' = JStr ''deny''"
  using sample_denies by (auto simp: outcome_of_def split: sum.splits)

theorem allow_implies_gates_witness:
  "\<exists>d. evaluate sample_env sample_allowed sample_policy True False sample_now = Inr d \<and>
     dict_get d ''outcome'' = JStr ''allow'' \<and> signed_hash sample_env sample_policy = stored_hash sample_env sample_policy"
proof -
  obtain d where d: "evaluate sample_env sample_allowed sample_policy True False sample_now = Inr d"
    "dict_get d ''outcome'' = JStr ''allow''" by (rule sample_allowedE)
  from allow_implies_gates [OF d] d show ?thesis by blast
qed

theorem allow_implies_rules_witness:
  "\<exists>d caps. evaluate sample_env sample_allowed sample_policy True False sample_now = Inr d \<and>
     dict_get d ''outcome'' = JStr ''allow'' \<and> rules_for sample_allowed sample_policy = Inr caps \<and> caps \<noteq> []"
proof -
  obtain d where d: "evaluate sample_env sample_allowed sample_policy True False sample_now = Inr d"
    "dict_get d ''outcome'' = JStr ''allow''" by (rule sample_allowedE)
  from allow_implies_rules [OF d] d show ?thesis by blast
qed

definition sample_target :: canonical_url where
  "sample_target = \<lparr>cu_scheme = ''https'', cu_host_kind = ''domain'', cu_host_value = ''a.io'', cu_port = 443,
     cu_path = ''/x/y'', cu_query = [], cu_canonical_url = ''https://a.io/x/y''\<rparr>"

lemma sample_target_of: "target_of sample_env sample_denied = Inr (Some sample_target)"
  by code_simp

lemma sample_rules_of_policy: "iterated (JObj sample_policy) ''asset_rules'' = Inr sample_rules"
  by code_simp

theorem deny_precedence_witness:
  "\<exists>d. evaluate sample_env sample_denied sample_policy True False sample_now = Inr d \<and>
     dict_get d ''outcome'' = JStr ''deny''"
proof -
  obtain d where d: "evaluate sample_env sample_denied sample_policy True False sample_now = Inr d"
    by (rule sample_deniedE)
  have spec: "list_all (\<lambda>r. rule_specificity r \<noteq> None) sample_rules" by code_simp
  have r: "sample_rules ! 0 \<in> set sample_rules" by (simp add: sample_rules_def)
  have m: "asset_matches (sample_rules ! 0) sample_target = Inr True" by code_simp
  have e: "index (sample_rules ! 0) ''effect'' = Inr (JStr ''deny'')" by code_simp
  have n: "rule_specificity (sample_rules ! 0) = Some 4105" by code_simp
  have top: "list_all (\<lambda>q. the (rule_specificity q) \<le> 4105) sample_rules" by code_simp
  then have "\<forall>q \<in> set sample_rules. asset_matches q sample_target = Inr True \<and> index q ''effect'' = Inr (JStr ''allow'') \<longrightarrow>
      the (rule_specificity q) \<le> 4105" by (auto simp: list_all_iff)
  from deny_precedence [OF d sample_target_of sample_rules_of_policy spec r m e n this] d show ?thesis by blast
qed

theorem default_deny_witness:
  "\<exists>d. evaluate sample_env sample_denied sample_policy True False sample_now = Inr d \<and>
     dict_get d ''outcome'' \<in> {JStr ''allow'', JStr ''deny''}"
proof -
  obtain d where d: "evaluate sample_env sample_denied sample_policy True False sample_now = Inr d"
    by (rule sample_deniedE)
  from default_deny [OF d] d show ?thesis by blast
qed

section \<open>Compilation and evaluation of the sample\<close>

lemma sample_compiles_with: "compile_with sample_env ''1.0.0'' sample_manifest ''m'' = Inr sample_compiled"
  using sample_compiles by (simp add: compile_manifest_def)

lemma sample_policy_fields:
  "\<forall>k \<in> {''asset_rules'', ''capability_rules'', ''validity''}. map_of sample_policy k = map_of sample_compiled k"
  by code_simp

theorem compiled_allow_is_authorized_witness:
  "\<exists>asset target. asset_admits sample_env asset target \<and> target_of sample_env sample_allowed = Inr (Some target) \<and>
     compile_with sample_env ''1.0.0'' sample_manifest ''m'' = Inr sample_compiled"
proof -
  obtain d where d: "evaluate sample_env sample_allowed sample_policy True False sample_now = Inr d"
    "dict_get d ''outcome'' = JStr ''allow''" by (rule sample_allowedE)
  from compiled_allow_is_authorized [OF sample_compiles_with sample_policy_fields d] sample_compiles_with
  show ?thesis by blast
qed

section \<open>A URL beside a domain\<close>

definition denied_domain :: dict where
  "denied_domain =
     [(''asset_id'', JStr ''d''), (''type'', JStr ''domain''), (''canonical_value'', JStr ''a.io''),
      (''effect'', JStr ''allow''), (''source_reference'', JStr ''s1''), (''ownership_verified'', JBool True),
      (''allowed_ports'', JList [JInt 443]), (''allowed_paths'', JList []), (''denied_paths'', JList [JStr ''/a/secret''])]"

definition parent_url :: dict where
  "parent_url =
     [(''asset_id'', JStr ''u''), (''type'', JStr ''url''), (''canonical_value'', JStr ''https://a.io/a''),
      (''effect'', JStr ''allow''), (''source_reference'', JStr ''s1''), (''ownership_verified'', JBool True),
      (''allowed_ports'', JList [JInt 443]), (''allowed_paths'', JList []), (''denied_paths'', JList [])]"

definition two_asset_manifest :: dict where
  "two_asset_manifest =
     dict_put sample_manifest ''scope'' (JObj [(''assets'', JList [JObj denied_domain, JObj parent_url])])"

definition secret_target :: canonical_url where
  "secret_target = sample_target\<lparr>cu_path := ''/a/secret/x'', cu_canonical_url := ''https://a.io/a/secret/x''\<rparr>"

theorem url_allow_outranks_denied_path_witness:
  "\<exists>p rules r i ids. compile_with sample_env ''1.0.0'' two_asset_manifest ''m'' = Inr p \<and>
     iterated (JObj p) ''asset_rules'' = Inr rules \<and> r \<in> set rules \<and>
     index r ''effect'' = Inr (JStr ''deny'') \<and> asset_matches r secret_target = Inr True \<and>
     asset_verdict p secret_target = Inr (''allow'', ''EXPLICIT_ALLOW'', ids) \<and> set ids = {i}"
proof -
  have "case compile_with sample_env ''1.0.0'' two_asset_manifest ''m'' of Inl _ \<Rightarrow> False | Inr _ \<Rightarrow> True" by code_simp
  then obtain p where p: "compile_with sample_env ''1.0.0'' two_asset_manifest ''m'' = Inr p" by (auto split: sum.splits)
  have scope: "index (JObj two_asset_manifest) ''scope'' = Inr (JObj [(''assets'', JList [JObj denied_domain, JObj parent_url])])"
    by (simp add: two_asset_manifest_def)
  have assets: "iterated (JObj [(''assets'', JList [JObj denied_domain, JObj parent_url])]) ''assets'' =
      Inr [JObj denied_domain, JObj parent_url]" by (simp add: iterated_def)
  have url: "dict_get parent_url ''type'' = JStr ''url''" "list_all is_str (members parent_url ''allowed_paths'')"
    "asset_admits sample_env (JObj parent_url) secret_target" by code_simp+
  have low: "low_ranked (JObj denied_domain)" by code_simp
  have domain: "dict_get denied_domain ''type'' = JStr ''domain''" "asset_covers sample_env denied_domain secret_target"
    "path_matches ''/a/secret'' (cu_path secret_target)" by code_simp+
  have path: "JStr ''/a/secret'' \<in> set (members denied_domain ''denied_paths'')" by code_simp
  show ?thesis
    using url_allow_outranks_denied_path [OF p scope assets _ url _ _ domain(1,2) path domain(3)] low p by auto
qed

end
