(* ===== verification/Tables.thy ===== *)
theory Tables
  imports Prelude
begin

text \<open>
  Tables as lists of rows: the UPDATE statement, its row count, and how a table evolves.

  In a \<^emph>\<open>keyed table\<close> the updates keep the key of a row and leave closed rows alone, so a closed row never
  changes again. A row of a \<^emph>\<open>versioned table\<close> also carries a version that every update raises. The
  locales state these contracts (the triggers of the schema enforce them) and derive what optimistic
  concurrency needs: versions only grow, and a row seen twice at the same version has not changed in between.
\<close>

definition update_rows :: "('r \<Rightarrow> bool) \<Rightarrow> ('r \<Rightarrow> 'r) \<Rightarrow> 'r list \<Rightarrow> 'r list" where
  "update_rows p f rows = map (\<lambda>r. if p r then f r else r) rows"

definition row_count :: "('r \<Rightarrow> bool) \<Rightarrow> 'r list \<Rightarrow> int" where
  "row_count p rows = int (length (filter p rows))"

lemma update_rows_list_all:
  "list_all P rows \<Longrightarrow> (\<And>r. r \<in> set rows \<Longrightarrow> p r \<Longrightarrow> P r \<Longrightarrow> P (f r)) \<Longrightarrow> list_all P (update_rows p f rows)"
  by (auto simp: update_rows_def list_all_iff)

lemma update_rows_key [simp]:
  "(\<And>r. key (f r) = key r) \<Longrightarrow> map key (update_rows p f rows) = map key rows"
  by (auto simp: update_rows_def)

lemma in_update_rows:
  "r' \<in> set (update_rows p f rows) \<longleftrightarrow> (\<exists>r \<in> set rows. r' = (if p r then f r else r))"
  by (auto simp: update_rows_def)

lemma update_rows_survivor:
  assumes "r \<in> set (update_rows p f rows)" and "Q r" and "\<And>r. p r \<Longrightarrow> \<not> Q (f r)"
  shows "r \<in> set rows \<and> \<not> p r"
  using assms unfolding in_update_rows by metis

lemma find_append: "find p (xs @ ys) = (case find p xs of None \<Rightarrow> find p ys | Some x \<Rightarrow> Some x)"
  by (induction xs) auto

lemma find_SomeD: "find p xs = Some x \<Longrightarrow> x \<in> set xs \<and> p x"
  by (induction xs) (auto split: if_splits)

lemma find_NoneD: "find p xs = None \<Longrightarrow> x \<in> set xs \<Longrightarrow> \<not> p x"
  by (induction xs) (auto split: if_splits)

lemma find_key:
  "distinct (map key rows) \<Longrightarrow> r \<in> set rows \<Longrightarrow> find (\<lambda>r'. key r' = key r) rows = Some r"
  by (induction rows) auto

lemma distinct_keyD:
  "distinct (map key rows) \<Longrightarrow> r \<in> set rows \<Longrightarrow> r' \<in> set rows \<Longrightarrow> key r = key r' \<Longrightarrow> r = r'"
  by (auto simp: distinct_map inj_on_def)

lemma row_count_0: "row_count p rows = 0 \<longleftrightarrow> (\<forall>r \<in> set rows. \<not> p r)"
  by (simp add: row_count_def filter_empty_conv)

section \<open>Evolution of a table\<close>

text \<open>One step: every row stays or takes one step of its own, and rows are added at the end.\<close>

definition table_step :: "('r \<Rightarrow> 'r \<Rightarrow> bool) \<Rightarrow> 'r list \<Rightarrow> 'r list \<Rightarrow> bool" where
  "table_step nxt rows rows' \<longleftrightarrow> (\<exists>ys zs. rows' = ys @ zs \<and> list_all2 (nxt\<^sup>=\<^sup>=) rows ys)"

definition table_evolves :: "('r \<Rightarrow> 'r \<Rightarrow> bool) \<Rightarrow> 'r list \<Rightarrow> 'r list \<Rightarrow> bool" where
  "table_evolves nxt rows rows' \<longleftrightarrow> (\<exists>ys zs. rows' = ys @ zs \<and> list_all2 (nxt\<^sup>*\<^sup>*) rows ys)"

lemma table_step_refl [simp, intro]: "table_step nxt rows rows"
  unfolding table_step_def by (rule exI [of _ rows]) (auto simp: list_all2_same)

lemma table_step_append [intro]: "table_step nxt rows (rows @ zs)"
  unfolding table_step_def by (rule exI [of _ rows]) (auto simp: list_all2_same)

lemma table_step_update:
  "(\<And>r. r \<in> set rows \<Longrightarrow> p r \<Longrightarrow> nxt r (f r)) \<Longrightarrow> table_step nxt rows (update_rows p f rows)"
  unfolding table_step_def update_rows_def
  by (rule exI [of _ "map (\<lambda>r. if p r then f r else r) rows"]) (auto simp: list_all2_conv_all_nth)

lemma table_evolves_refl [simp, intro]: "table_evolves nxt rows rows"
  unfolding table_evolves_def by (rule exI [of _ rows]) (auto simp: list_all2_same)

lemma table_step_evolves: "table_step nxt rows rows' \<Longrightarrow> table_evolves nxt rows rows'"
  unfolding table_step_def table_evolves_def by (force elim!: list_all2_mono)

lemma table_evolves_trans:
  assumes "table_evolves nxt a b" and "table_evolves nxt b c"
  shows "table_evolves nxt a c"
proof -
  obtain ys zs where b: "b = ys @ zs" "list_all2 (nxt\<^sup>*\<^sup>*) a ys"
    using assms(1) by (auto simp: table_evolves_def)
  obtain us vs where c: "c = us @ vs" "list_all2 (nxt\<^sup>*\<^sup>*) b us"
    using assms(2) by (auto simp: table_evolves_def)
  from b c obtain us1 us2 where "us = us1 @ us2" "list_all2 (nxt\<^sup>*\<^sup>*) ys us1"
    by (auto simp: list_all2_append1)
  moreover have "list_all2 (nxt\<^sup>*\<^sup>*) a us1"
    using b(2) calculation(2) by (rule list_all2_trans [rotated]) (rule rtranclp_trans)
  ultimately show ?thesis using c(1) unfolding table_evolves_def
    by (intro exI [of _ us1] exI [of _ "us2 @ vs"]) simp
qed

lemma table_evolves_row:
  assumes "table_evolves nxt rows rows'" and "r \<in> set rows"
  shows "\<exists>r' \<in> set rows'. nxt\<^sup>*\<^sup>* r r'"
  using assms unfolding table_evolves_def
  by (fastforce simp: list_all2_conv_all_nth in_set_conv_nth nth_append)

section \<open>Versioned tables\<close>

locale keyed_table =
  fixes key :: "'r \<Rightarrow> 'k"
    and nxt :: "'r \<Rightarrow> 'r \<Rightarrow> bool"
    and closed :: "'r \<Rightarrow> bool"
  assumes nxt_key: "nxt r r' \<Longrightarrow> key r' = key r"
    and nxt_open: "nxt r r' \<Longrightarrow> \<not> closed r"
begin

lemma row_key: "nxt\<^sup>*\<^sup>* r r' \<Longrightarrow> key r' = key r"
  by (induction rule: rtranclp_induct) (simp_all add: nxt_key)

lemma closed_row_final: "nxt\<^sup>*\<^sup>* r r' \<Longrightarrow> closed r \<Longrightarrow> r' = r"
  by (induction rule: converse_rtranclp_induct) (auto dest: nxt_open)

lemma evolves_same_key:
  assumes "table_evolves nxt rows rows'" and "distinct (map key rows')"
    and "r \<in> set rows" and "r' \<in> set rows'" and "key r' = key r"
  shows "nxt\<^sup>*\<^sup>* r r'"
  using assms table_evolves_row [OF assms(1,3)] row_key by (metis distinct_keyD)

end

locale versioned_table = keyed_table key nxt closed
  for key :: "'r \<Rightarrow> 'k" and nxt :: "'r \<Rightarrow> 'r \<Rightarrow> bool" and closed :: "'r \<Rightarrow> bool" +
  fixes version :: "'r \<Rightarrow> int"
  assumes nxt_version: "nxt r r' \<Longrightarrow> version r < version r'"
begin

lemma row_version_mono: "nxt\<^sup>*\<^sup>* r r' \<Longrightarrow> version r \<le> version r'"
  by (induction rule: rtranclp_induct) (auto dest: nxt_version)

lemma same_version_same_row: "nxt\<^sup>*\<^sup>* r r' \<Longrightarrow> version r' = version r \<Longrightarrow> r' = r"
proof (induction rule: rtranclp_induct)
  case (step y z)
  then show ?case using row_version_mono [of r y] nxt_version [of y z] by simp
qed simp

lemma fenced:
  assumes "table_evolves nxt rows rows'" and "distinct (map key rows')"
    and "r \<in> set rows" and "r' \<in> set rows'" and "key r' = key r"
  shows "version r \<le> version r'" and "version r' = version r \<Longrightarrow> r' = r" and "closed r \<Longrightarrow> r' = r"
  using evolves_same_key [OF assms] by (auto intro: row_version_mono same_version_same_row closed_row_final)

end

end
