(* ===== verification/Cvss.thy ===== *)
theory Cvss
  imports Json "HOL-Library.Log_Nat"
begin

text \<open>
  The CVSS 3.1 base score of \<open>findings.py\<close> (\<open>_cvss_score\<close>, \<open>_severity\<close>), computed in binary
  floating point.

  A Python float is the rational it denotes; \<open>double\<close> rounds a rational to the nearest double, ties to
  even, and each operation of the code rounds its exact result. All values of the computation are
  zero or normal doubles. The power \<open>x ** 15\<close> is the C library's \<open>pow\<close>, a parameter: nothing is
  assumed of it.

  Results: rounding is monotone at doubles and exact on small integers (which the budget ledger uses as
  well); the score is one of the 101 doubles nearest to \<open>k / 10\<close>, from 0 to 10, and a malformed
  vector is the only error.
\<close>

section \<open>Double precision\<close>

abbreviation pow2 :: "int \<Rightarrow> rat" where
  "pow2 k \<equiv> 2 powi k"

text \<open>The exponent \<open>e\<close> of a positive number: \<open>2 ^ e\<close> is at most the number, which is less than \<open>2 ^ (e + 1)\<close>.\<close>

definition exponent :: "rat \<Rightarrow> int" where
  "exponent x = (if 1 \<le> x then bitlen \<lfloor>x\<rfloor> - 1 else - bitlen (\<lceil>1 / x\<rceil> - 1))"

definition round_even :: "rat \<Rightarrow> int" where
  "round_even y =
     (let f = \<lfloor>y\<rfloor>; d = y - of_int f
      in if d < 1 / 2 \<or> (d = 1 / 2 \<and> even f) then f else f + 1)"

definition double :: "rat \<Rightarrow> rat" where
  "double x =
     (if x = 0 then 0
      else let u = pow2 (exponent \<bar>x\<bar> - 52) in sgn x * of_int (round_even (\<bar>x\<bar> / u)) * u)"

definition fadd :: "rat \<Rightarrow> rat \<Rightarrow> rat" where
  "fadd x y = double (x + y)"

definition fsub :: "rat \<Rightarrow> rat \<Rightarrow> rat" where
  "fsub x y = double (x - y)"

definition fmul :: "rat \<Rightarrow> rat \<Rightarrow> rat" where
  "fmul x y = double (x * y)"

text \<open>A decimal literal with the given digits and number of decimals.\<close>

definition lit :: "int \<Rightarrow> nat \<Rightarrow> rat" where
  "lit n k = double (of_int n / 10 ^ k)"

section \<open>The score\<close>

record cvss_metrics =
  m_AV :: char
  m_AC :: char
  m_PR :: char
  m_UI :: char
  m_S :: char
  m_C :: char
  m_I :: char
  m_A :: char

text \<open>One metric of the vector: its name, a colon and one of the permitted letters.\<close>

definition metric_letter :: "string \<Rightarrow> string \<Rightarrow> string \<Rightarrow> char option" where
  "metric_letter name letters part =
     (if part \<noteq> [] \<and> last part \<in> set letters \<and> butlast part = name @ '':'' then Some (last part) else None)"

definition cvss_parse :: "string \<Rightarrow> cvss_metrics option" where
  "cvss_parse vector =
     (case split_on CHR ''/'' vector of
        [h, av, ac, pr, ui, s, c, i, a] \<Rightarrow>
          if h \<noteq> ''CVSS:3.1'' then None
          else (case (metric_letter ''AV'' ''NALP'' av, metric_letter ''AC'' ''LH'' ac,
                      metric_letter ''PR'' ''NLH'' pr, metric_letter ''UI'' ''NR'' ui,
                      metric_letter ''S'' ''UC'' s, metric_letter ''C'' ''NLH'' c,
                      metric_letter ''I'' ''NLH'' i, metric_letter ''A'' ''NLH'' a) of
                  (Some av, Some ac, Some pr, Some ui, Some s, Some c, Some i, Some a) \<Rightarrow>
                    Some \<lparr>m_AV = av, m_AC = ac, m_PR = pr, m_UI = ui, m_S = s, m_C = c, m_I = i, m_A = a\<rparr>
                | _ \<Rightarrow> None)
      | _ \<Rightarrow> None)"

definition attack_vector :: "char \<Rightarrow> rat" where
  "attack_vector c =
     (if c = CHR ''N'' then lit 85 2 else if c = CHR ''A'' then lit 62 2
      else if c = CHR ''L'' then lit 55 2 else lit 2 1)"

definition attack_complexity :: "char \<Rightarrow> rat" where
  "attack_complexity c = (if c = CHR ''L'' then lit 77 2 else lit 44 2)"

definition privileges :: "bool \<Rightarrow> char \<Rightarrow> rat" where
  "privileges scope_changed c =
     (if c = CHR ''N'' then lit 85 2
      else if scope_changed then (if c = CHR ''L'' then lit 68 2 else lit 5 1)
      else (if c = CHR ''L'' then lit 62 2 else lit 27 2))"

definition user_interaction :: "char \<Rightarrow> rat" where
  "user_interaction c = (if c = CHR ''N'' then lit 85 2 else lit 62 2)"

definition impact_metric :: "char \<Rightarrow> rat" where
  "impact_metric c = (if c = CHR ''N'' then 0 else if c = CHR ''L'' then lit 22 2 else lit 56 2)"

definition impact_score :: "(rat \<Rightarrow> nat \<Rightarrow> rat) \<Rightarrow> cvss_metrics \<Rightarrow> rat" where
  "impact_score pow m =
     (let isc = fsub 1 (fmul (fmul (fsub 1 (impact_metric (m_C m))) (fsub 1 (impact_metric (m_I m))))
                             (fsub 1 (impact_metric (m_A m))))
      in if m_S m = CHR ''C''
         then fsub (fmul (lit 752 2) (fsub isc (lit 29 3))) (fmul (lit 325 2) (pow (fsub isc (lit 2 2)) 15))
         else fmul (lit 642 2) isc)"

definition exploitability :: "cvss_metrics \<Rightarrow> rat" where
  "exploitability m =
     fmul (fmul (fmul (fmul (lit 822 2) (attack_vector (m_AV m))) (attack_complexity (m_AC m)))
                (privileges (m_S m = CHR ''C'') (m_PR m))) (user_interaction (m_UI m))"

definition base_score :: "(rat \<Rightarrow> nat \<Rightarrow> rat) \<Rightarrow> cvss_metrics \<Rightarrow> rat" where
  "base_score pow m =
     (let impact = impact_score pow m
      in if impact \<le> 0 then 0
         else let total = fadd impact (exploitability m);
                  base = (if m_S m = CHR ''C'' then min (fmul (lit 108 2) total) 10 else min total 10)
         in double (of_int \<lceil>fsub (fmul base 10) (lit 1 10)\<rceil> / 10))"

definition cvss_score :: "(rat \<Rightarrow> nat \<Rightarrow> rat) \<Rightarrow> string \<Rightarrow> rat result" where
  "cvss_score pow vector =
     (case cvss_parse vector of
        None \<Rightarrow> Inl (CodedError ''FindingError'' ''FINDING_CVSS_INVALID'')
      | Some m \<Rightarrow> Inr (base_score pow m))"

definition severity_of :: "rat \<Rightarrow> string" where
  "severity_of score =
     (if score = 0 then ''informational'' else if score < 4 then ''low'' else if score < 7 then ''medium''
      else if score < 9 then ''high'' else ''critical'')"

section \<open>Rounding\<close>

lemma rat_power_bounds:
  assumes "2 ^ i \<le> n" and "n < 2 ^ j"
  shows "(2 ^ i :: rat) \<le> of_int n" and "(of_int n :: rat) + 1 \<le> 2 ^ j"
proof -
  have "(of_int (2 ^ i) :: rat) \<le> of_int n" "(of_int (n + 1) :: rat) \<le> of_int (2 ^ j)"
    using assms unfolding of_int_le_iff by simp_all
  then show "(2 ^ i :: rat) \<le> of_int n" "(of_int n :: rat) + 1 \<le> 2 ^ j" by simp_all
qed

lemma exponent_bounds:
  assumes "0 < x"
  shows "pow2 (exponent x) \<le> x \<and> x < pow2 (exponent x + 1)"
proof (cases "1 \<le> x")
  case True
  define n where "n = \<lfloor>x\<rfloor>"
  have n: "0 < n" "of_int n \<le> x" "x < of_int n + 1" using True floor_correct [of x] by (simp_all add: n_def)
  define b where "b = nat (bitlen n)"
  have b: "bitlen n = int b" by (simp add: b_def bitlen_nonneg)
  have bb: "2 ^ (b - 1) \<le> n" "n < 2 ^ b" using bitlen_bounds [OF n(1)] b by (simp_all add: nat_diff_distrib')
  then have "b \<noteq> 0" using n(1) by (cases b) auto
  then have e: "exponent x = int (b - 1)" "exponent x + 1 = int b" using True b by (simp_all add: exponent_def n_def)
  have p: "(2 ^ (b - 1) :: rat) \<le> of_int n" "(of_int n :: rat) + 1 \<le> 2 ^ b"
    using rat_power_bounds [OF bb] by simp_all
  show ?thesis unfolding e(2) unfolding e(1) power_int_of_nat using n p by linarith
next
  case False
  define n where "n = \<lceil>1 / x\<rceil> - 1"
  have y: "1 < 1 / x" using assms False by simp
  have n: "0 < n" "of_int n < 1 / x" "1 / x \<le> of_int n + 1"
    using y ceiling_correct [of "1 / x"] unfolding n_def by (simp_all add: less_ceiling_iff)
  define b where "b = nat (bitlen n)"
  have b: "bitlen n = int b" by (simp add: b_def bitlen_nonneg)
  have bb: "2 ^ (b - 1) \<le> n" "n < 2 ^ b" using bitlen_bounds [OF n(1)] b by (simp_all add: nat_diff_distrib')
  then have b0: "b \<noteq> 0" using n(1) by (cases b) auto
  have e: "exponent x = - int b" "exponent x + 1 = - int (b - 1)" using False b b0 by (simp_all add: exponent_def n_def)
  have "(2 ^ (b - 1) :: rat) \<le> of_int n" "(of_int n :: rat) + 1 \<le> 2 ^ b"
    using rat_power_bounds [OF bb] by simp_all
  then have "1 / x \<le> 2 ^ b" "2 ^ (b - 1) < 1 / x" using n(2,3) by linarith+
  then show ?thesis unfolding e(2) unfolding e(1) power_int_minus power_int_of_nat using assms by (simp add: field_simps)
qed

lemma exponent_le:
  assumes "0 < x" and "x < pow2 (k + 1)"
  shows "exponent x \<le> k"
proof (rule ccontr)
  assume "\<not> exponent x \<le> k"
  then have "pow2 (k + 1) \<le> pow2 (exponent x)" by (intro power_int_increasing) auto
  with assms exponent_bounds [OF assms(1)] show False by simp
qed

lemma round_even_le: "y \<le> of_int M \<Longrightarrow> round_even y \<le> M"
proof -
  assume y: "y \<le> of_int M"
  show ?thesis
  proof (cases "\<lfloor>y\<rfloor> = M")
    case True
    with y have "y = of_int M" using of_int_floor_le [of y] by simp
    then show ?thesis by (simp add: round_even_def)
  next
    case False
    with y have "\<lfloor>y\<rfloor> + 1 \<le> M" by linarith
    then show ?thesis by (simp add: round_even_def Let_def)
  qed
qed

lemma round_even_nonneg: "0 \<le> y \<Longrightarrow> 0 \<le> round_even y"
  by (simp add: round_even_def Let_def)

lemma double_0 [simp]: "double 0 = 0"
  by (simp add: double_def)

lemma double_minus: "double (- x) = - double x"
  by (simp add: double_def Let_def)

lemma double_nonneg: "0 \<le> x \<Longrightarrow> 0 \<le> double x"
  by (auto simp: double_def Let_def intro!: mult_nonneg_nonneg round_even_nonneg)

text \<open>Rounding does not cross a number that is a multiple of the spacing.\<close>

lemma double_le:
  assumes "0 \<le> x" and "x \<le> of_int m * pow2 j" and "x < pow2 (k + 1)" and "k \<le> 52 + j"
  shows "double x \<le> of_int m * pow2 j"
proof (cases "x = 0")
  case True
  with assms show ?thesis by simp
next
  case False
  define u where "u = pow2 (exponent x - 52)"
  have u: "0 < u" by (simp add: u_def)
  have x: "0 < x" using assms(1) False by simp
  define n where "n = nat (j - (exponent x - 52))"
  have "exponent x \<le> k" using x assms(3) by (rule exponent_le)
  then have "j = (exponent x - 52) + int n" using assms(4) by (simp add: n_def)
  then have c: "of_int m * pow2 j = of_int (m * 2 ^ n) * u"
    by (simp add: u_def power_int_add)
  with assms(2) u have "x / u \<le> of_int (m * 2 ^ n)" by (simp add: pos_divide_le_eq)
  then have "(of_int (round_even (x / u)) :: rat) \<le> of_int (m * 2 ^ n)"
    using round_even_le of_int_le_iff by blast
  with u have le: "of_int (round_even (x / u)) * u \<le> of_int (m * 2 ^ n) * u"
    by (intro mult_right_mono) auto
  have "double x = of_int (round_even (x / u)) * u" using x by (simp add: double_def Let_def u_def)
  with le c show ?thesis by argo
qed

lemmas double_le_10 = double_le [of _ 5 1 3, simplified]
lemmas double_le_100 = double_le [of _ 25 2 6, simplified]
lemmas double_le_half = double_le [of _ 1 "-1" "-1", simplified]

text \<open>
  Doubles that are not negative: the multiples of a power of two by an integer of 53 bits. Rounding
  gives such a number, does not cross one, and leaves small integers alone.
\<close>

definition representable :: "rat \<Rightarrow> bool" where
  "representable q \<longleftrightarrow> (\<exists>(m :: int) j. q = of_int m * pow2 j \<and> 0 \<le> m \<and> m \<le> 2 ^ 53)"

lemma round_even_ge: "of_int M \<le> y \<Longrightarrow> M \<le> round_even y"
  using le_floor_iff [of M y] by (auto simp: round_even_def Let_def)

lemma scaled_bounds:
  assumes "0 < x"
  shows "2 ^ 52 \<le> x / pow2 (exponent x - 52)" and "x / pow2 (exponent x - 52) \<le> 2 ^ 53"
proof -
  have "pow2 (exponent x) = 2 ^ 52 * pow2 (exponent x - 52)" "pow2 (exponent x + 1) = 2 ^ 53 * pow2 (exponent x - 52)"
    by (simp_all add: power_int_diff power_int_add)
  with exponent_bounds [OF assms] show "2 ^ 52 \<le> x / pow2 (exponent x - 52)" "x / pow2 (exponent x - 52) \<le> 2 ^ 53"
    by (simp_all add: pos_le_divide_eq pos_divide_le_eq)
qed

lemma double_pos: "0 < x \<Longrightarrow> double x = of_int (round_even (x / pow2 (exponent x - 52))) * pow2 (exponent x - 52)"
  by (simp add: double_def Let_def)

lemma representable_double:
  assumes "0 \<le> x"
  shows "representable (double x)"
proof (cases "x = 0")
  case True
  then show ?thesis unfolding representable_def by (intro exI [of _ 0]) simp
next
  case False
  with assms have x: "0 < x" by simp
  have "round_even (x / pow2 (exponent x - 52)) \<le> 2 ^ 53"
    by (rule round_even_le) (use scaled_bounds(2) [OF x] in simp)
  moreover have "0 \<le> round_even (x / pow2 (exponent x - 52))"
    using x by (intro round_even_nonneg) simp
  ultimately show ?thesis unfolding representable_def double_pos [OF x] by blast
qed

lemma double_ge:
  assumes "representable q" and "q \<le> x" and "0 < x"
  shows "q \<le> double x"
proof -
  from assms(1) obtain m :: int and j where q: "q = of_int m * pow2 j" "0 \<le> m" "m \<le> 2 ^ 53"
    unfolding representable_def by blast
  define u where "u = pow2 (exponent x - 52)"
  have u: "0 < u" by (simp add: u_def)
  have "\<exists>M :: int. q \<le> of_int M * u \<and> of_int M \<le> x / u"
  proof (cases "exponent x - 52 \<le> j")
    case True
    define n where "n = nat (j - (exponent x - 52))"
    have "j = (exponent x - 52) + int n" using True by (simp add: n_def)
    then have "q = of_int (m * 2 ^ n) * u" by (simp add: q(1) u_def power_int_add)
    with assms(2) u show ?thesis by (intro exI [of _ "m * 2 ^ n"]) (simp add: pos_le_divide_eq)
  next
    case False
    have "(of_int m :: rat) \<le> of_int (2 ^ 53)" using q(3) of_int_le_iff by blast
    then have "q \<le> of_int (2 ^ 53) * pow2 j" unfolding q(1) by (intro mult_right_mono) auto
    also have "\<dots> = pow2 (j + 53)" by (simp add: power_int_add)
    also have "\<dots> \<le> pow2 (exponent x)" using False by (intro power_int_increasing) auto
    also have "\<dots> = of_int (2 ^ 52) * u" by (simp add: u_def power_int_diff)
    finally show ?thesis using scaled_bounds(1) [OF assms(3)] by (intro exI [of _ "2 ^ 52"]) (simp add: u_def)
  qed
  then obtain M :: int where M: "q \<le> of_int M * u" "of_int M \<le> x / u" by blast
  from round_even_ge [OF M(2)] have "(of_int M :: rat) * u \<le> of_int (round_even (x / u)) * u"
    using u by (intro mult_right_mono) auto
  with M(1) show ?thesis unfolding double_pos [OF assms(3)] u_def by (rule order_trans)
qed

lemma double_of_int:
  assumes "0 \<le> n" and "n < 2 ^ 53"
  shows "double (of_int n) = of_int n"
proof (cases "n = 0")
  case False
  have "(of_int n :: rat) < of_int (2 ^ 53)" using assms(2) of_int_less_iff by blast
  then have "double (of_int n) \<le> of_int n"
    using double_le [of "of_int n" n 0 52] assms by simp
  moreover have "representable (of_int n)"
    unfolding representable_def using assms by (intro exI [of _ n] exI [of _ 0]) simp
  then have "of_int n \<le> double (of_int n)" using double_ge [of "of_int n" "of_int n"] assms False by simp
  ultimately show ?thesis by simp
qed simp

section \<open>The score is in range\<close>

lemma lit_nonneg: "0 \<le> n \<Longrightarrow> 0 \<le> lit n k"
  by (simp add: lit_def double_nonneg)

lemma exploitability_nonneg: "0 \<le> exploitability m"
  unfolding exploitability_def fmul_def attack_vector_def attack_complexity_def privileges_def user_interaction_def
  by (intro double_nonneg mult_nonneg_nonneg) (auto intro: lit_nonneg)

definition nearest_tenths :: "rat \<Rightarrow> bool" where
  "nearest_tenths s \<longleftrightarrow> (\<exists>k :: int. 0 \<le> k \<and> k \<le> 100 \<and> s = double (of_int k / 10))"

lemma nearest_tenths_range: "nearest_tenths s \<Longrightarrow> 0 \<le> s \<and> s \<le> 10"
  unfolding nearest_tenths_def by (auto intro!: double_nonneg double_le_10)

lemma rounded_up_range:
  assumes "0 \<le> base" and "base \<le> 10"
  shows "0 \<le> \<lceil>fsub (fmul base 10) (lit 1 10)\<rceil>" and "\<lceil>fsub (fmul base 10) (lit 1 10)\<rceil> \<le> 100"
proof -
  define z where "z = fmul base 10 - lit 1 10"
  have l: "0 \<le> lit 1 10" "lit 1 10 \<le> 1 / 2"
    by (auto simp: lit_def intro!: double_nonneg double_le_half)
  have b: "0 \<le> fmul base 10" "fmul base 10 \<le> 100"
    using assms by (auto simp: fmul_def intro!: double_nonneg double_le_100)
  have "- (1 / 2) \<le> double z \<and> double z \<le> 100"
  proof (cases "0 \<le> z")
    case True
    then show ?thesis using double_nonneg [OF True] double_le_100 [OF True] b l by (simp add: z_def)
  next
    case False
    then have "double (- z) \<le> 1 / 2" "0 \<le> double (- z)"
      using b l by (auto simp: z_def intro!: double_nonneg double_le_half)
    then show ?thesis by (simp add: double_minus)
  qed
  then show "0 \<le> \<lceil>fsub (fmul base 10) (lit 1 10)\<rceil>" "\<lceil>fsub (fmul base 10) (lit 1 10)\<rceil> \<le> 100"
    unfolding fsub_def z_def [symmetric] by (simp_all add: ceiling_le_iff zero_le_ceiling)
qed

lemma base_score_tenths: "nearest_tenths (base_score pow m)"
proof (cases "impact_score pow m \<le> 0")
  case True
  then show ?thesis by (auto simp: base_score_def nearest_tenths_def intro: exI [of _ 0])
next
  case False
  define total where "total = fadd (impact_score pow m) (exploitability m)"
  define base where "base = (if m_S m = CHR ''C'' then min (fmul (lit 108 2) total) 10 else min total 10)"
  have "0 \<le> total" using False exploitability_nonneg [of m] by (simp add: total_def fadd_def double_nonneg)
  then have "0 \<le> base" "base \<le> 10"
    by (auto simp: base_def fmul_def intro!: double_nonneg mult_nonneg_nonneg lit_nonneg)
  note range = rounded_up_range [OF this]
  have "base_score pow m = double (of_int \<lceil>fsub (fmul base 10) (lit 1 10)\<rceil> / 10)"
    using False by (simp add: base_score_def Let_def base_def total_def)
  with range show ?thesis unfolding nearest_tenths_def by blast
qed

text \<open>
  C33. The CVSS score is in range: whatever the C library's power function returns, a vector of the
  expected form has a score, which is a number from 0 to 10 and the double nearest to a multiple of
  one tenth; a vector of any other form is refused with \<open>FINDING_CVSS_INVALID\<close>.
\<close>

theorem cvss_score_in_range:
  "case cvss_score pow vector of
     Inr s \<Rightarrow> cvss_parse vector \<noteq> None \<and> 0 \<le> s \<and> s \<le> 10 \<and> nearest_tenths s
   | Inl e \<Rightarrow> cvss_parse vector = None \<and> e = CodedError ''FindingError'' ''FINDING_CVSS_INVALID''"
  using base_score_tenths nearest_tenths_range
  by (auto simp: cvss_score_def split: option.splits)

end
