(* ===== verification/Ai_Budget.thy ===== *)
theory Ai_Budget
  imports Provider_Config Tables Cvss "HOL-Library.AList"
begin

text \<open>
  The budget ledger of AI providers, models \<open>ai_budget.py\<close>: reservations against the budgets of one
  provider configuration, their commitment and release, and the recovery of a ledger from its records.

  The mutable attributes of \<open>AIBudgetLedger\<close> are a record; the configuration and the policy, which
  never change, are a second one. A method returns the ledger it leaves behind together with its
  result, since \<open>reserve\<close> raises the version before it validates the new record. The dicts
  \<open>_records\<close> and \<open>_idempotency\<close> are association lists; \<open>_used\<close> is a function on the five fields.
  A JSON number that denotes an integer may be a Python int or a float, in the records a ledger is
  recovered from as well as in a request. The version of the ledger is therefore either, and \<open>+ 1\<close> on
  a float rounds to a double. Amounts and budgets are integers of at most a thousand million in both
  forms, so that their sums are exact and are kept as numbers. The lock makes each method one step.

  Results: on every history the reserved and committed amounts are what \<open>_used\<close> says and stay within
  the configured budgets, a record is finalized at most once, and idempotency keys replay.
\<close>

section \<open>The ledger\<close>

record ledger_setup =
  configuration :: dict
  trusted_policy :: provider_policy

text \<open>An int or a float; the arithmetic of \<open>_version\<close>, \<open>v + 1\<close> and \<open>max(v, w)\<close>, which keeps the first of equals.\<close>

datatype py_number = PyInt int | PyFloat rat

fun py_value :: "py_number \<Rightarrow> rat" where
  "py_value (PyInt i) = of_int i"
| "py_value (PyFloat q) = q"

fun number_json :: "py_number \<Rightarrow> json" where
  "number_json (PyInt i) = JInt i"
| "number_json (PyFloat q) = JFloat q"

fun json_number :: "json \<Rightarrow> py_number result" where
  "json_number (JInt i) = Inr (PyInt i)"
| "json_number (JFloat q) = Inr (PyFloat q)"
| "json_number (JBool b) = Inr (PyInt (if b then 1 else 0))"
| "json_number _ = Inl TypeError"

fun plus_one :: "py_number \<Rightarrow> py_number" where
  "plus_one (PyInt i) = PyInt (i + 1)"
| "plus_one (PyFloat q) = PyFloat (fadd q 1)"

definition py_max :: "py_number \<Rightarrow> py_number \<Rightarrow> py_number" where
  "py_max v w = (if py_value v < py_value w then w else v)"

record ledger =
  lg_version :: py_number
  lg_records :: "(json \<times> dict) list"
  lg_keys :: "(json \<times> (string \<times> json)) list"
  lg_used :: "string \<Rightarrow> rat"

definition budget_fields :: "string list" where
  "budget_fields = [''input_tokens'', ''output_tokens'', ''requests'', ''cost_microusd'', ''runtime_seconds'']"

definition configuration_field :: "string \<Rightarrow> string" where
  "configuration_field f = ''max_'' @ f"

definition max_reservation_lifetime :: int where
  "max_reservation_lifetime = 5 * 60 * us_second"

definition max_request_age :: int where
  "max_request_age = 60 * us_second"

abbreviation budget_error :: "string \<Rightarrow> exn" where
  "budget_error c \<equiv> CodedError ''AIBudgetError'' c"

definition ledger_now :: "datetime \<Rightarrow> instant result" where
  "ledger_now now = utc_instant (budget_error ''AI_BUDGET_CLOCK_INVALID'') now"

text \<open>The datetime in UTC that \<open>_now\<close> returns, as an argument of the validator.\<close>

definition at_utc :: "instant \<Rightarrow> datetime" where
  "at_utc t = Aware t 0"

definition empty_ledger :: ledger where
  "empty_ledger = \<lparr>lg_version = PyInt 0, lg_records = [], lg_keys = [], lg_used = (\<lambda>_. 0)\<rparr>"

definition init_ledger :: "policy_env \<Rightarrow> ledger_setup \<Rightarrow> datetime \<Rightarrow> ledger result" where
  "init_ledger env s now =
     bindr (ledger_now now) (\<lambda>instant.
     bindr (validate_provider_configuration env (configuration s) (trusted_policy s) (at_utc instant)) (\<lambda>_.
     Inr empty_ledger))"

section \<open>Amounts\<close>

definition as_number :: "json \<Rightarrow> rat result" where
  "as_number v = (case number v of None \<Rightarrow> Inl TypeError | Some q \<Rightarrow> Inr q)"

definition amount :: "json \<Rightarrow> string \<Rightarrow> rat result" where
  "amount amounts f = bindr (index amounts f) as_number"

text \<open>The amount, on values where reading it succeeds.\<close>

definition amount_of :: "json \<Rightarrow> string \<Rightarrow> rat" where
  "amount_of amounts f = (case amount amounts f of Inl _ \<Rightarrow> 0 | Inr q \<Rightarrow> q)"

definition budget_limit :: "ledger_setup \<Rightarrow> string \<Rightarrow> rat result" where
  "budget_limit s f =
     bindr (index (JObj (configuration s)) ''budgets'') (\<lambda>budgets. amount budgets (configuration_field f))"

definition some_amount :: "json \<Rightarrow> bool result" where
  "some_amount amounts = anyr (\<lambda>f. mapr (\<lambda>q. 0 < q) (amount amounts f)) budget_fields"

definition fits :: "ledger_setup \<Rightarrow> ledger \<Rightarrow> json \<Rightarrow> string \<Rightarrow> unit result" where
  "fits s L amounts f =
     bindr (amount amounts f) (\<lambda>q.
     bindr (budget_limit s f) (\<lambda>limit.
     guardr (limit < lg_used L f + q) (budget_error ''AI_BUDGET_EXCEEDED'') (Inr ())))"

definition add_used :: "json \<Rightarrow> (string \<Rightarrow> rat) \<Rightarrow> string \<Rightarrow> rat" where
  "add_used amounts used f = (if f \<in> set budget_fields then used f + amount_of amounts f else used f)"

definition subtract_used :: "json \<Rightarrow> (string \<Rightarrow> rat) \<Rightarrow> string \<Rightarrow> rat" where
  "subtract_used amounts used f = (if f \<in> set budget_fields then used f - amount_of amounts f else used f)"

section \<open>Reserving\<close>

definition fingerprint :: "policy_env \<Rightarrow> dict \<Rightarrow> string" where
  "fingerprint env request =
     ''sha256:'' @ content_hash env (JObj (filter (\<lambda>(k, _). k \<noteq> ''expected_ledger_version'') request))"

definition same_authority :: "ledger_setup \<Rightarrow> dict \<Rightarrow> bool result" where
  "same_authority s d =
     bindr (index (JObj d) ''configuration_id'') (\<lambda>c.
     bindr (index (JObj (configuration s)) ''configuration_id'') (\<lambda>c'.
     if \<not> py_eq c c' then Inr False
     else bindr (index (JObj d) ''registry_id'') (\<lambda>r.
     if r \<noteq> JStr (registry_id (trusted_policy s)) then Inr False
     else bindr (index (JObj d) ''registry_revision'') (\<lambda>v.
     Inr (py_eq v (JInt (registry_revision (trusted_policy s))))))))"

definition validate_current_authority ::
  "policy_env \<Rightarrow> ledger_setup \<Rightarrow> dict \<Rightarrow> instant \<Rightarrow> unit result" where
  "validate_current_authority env s request now =
     bindr (validate_provider_configuration env (configuration s) (trusted_policy s) (at_utc now)) (\<lambda>_.
     bindr (same_authority s request) (\<lambda>same.
     guardr (\<not> same) (budget_error ''AI_BUDGET_AUTHORITY_MISMATCH'') (Inr ())))"

definition time_of :: "dict \<Rightarrow> string \<Rightarrow> instant result" where
  "time_of d k = bindr (index (JObj d) k) parse_time"

definition check_request_times :: "ledger_setup \<Rightarrow> dict \<Rightarrow> instant \<Rightarrow> unit result" where
  "check_request_times s request instant =
     bindr (time_of request ''requested_at'') (\<lambda>requested_at.
     bindr (time_of request ''expires_at'') (\<lambda>expires_at.
     guardr (instant < requested_at \<or> max_request_age < instant - requested_at) (budget_error ''AI_BUDGET_REQUEST_STALE'') (
     guardr (expires_at \<le> instant \<or> expires_at \<le> requested_at \<or> max_reservation_lifetime < expires_at - requested_at)
       (budget_error ''AI_BUDGET_REQUEST_STALE'') (
     bindr (time_of (configuration s) ''expires_at'') (\<lambda>configuration_expires.
     guardr (configuration_expires < expires_at) (budget_error ''AI_BUDGET_REQUEST_STALE'') (Inr ()))))))"

text \<open>
  The part of \<open>reserve\<close> that only reads the ledger: either the record of an earlier reservation with
  the same key, or the fingerprint and the amounts of a new one.
\<close>

definition check_reserve ::
  "policy_env \<Rightarrow> ledger_setup \<Rightarrow> datetime \<Rightarrow> dict \<Rightarrow> ledger \<Rightarrow> (json + string \<times> json) result" where
  "check_reserve env s now request L =
     guardr (contract_issues env (JObj request) ''ai-budget-reservation-request-v1.schema.json'' \<noteq> [])
       (budget_error ''AI_BUDGET_REQUEST_MALFORMED'') (
     bindr (index (JObj request) ''idempotency_key'') (\<lambda>key.
     guardr (\<not> hashable key) TypeError (
     case map_of (lg_keys L) key of
       Some (existing_fingerprint, reservation_id) \<Rightarrow>
         guardr (existing_fingerprint \<noteq> fingerprint env request) (budget_error ''AI_BUDGET_IDEMPOTENCY_CONFLICT'')
           (case map_of (lg_records L) reservation_id of None \<Rightarrow> Inl KeyError | Some r \<Rightarrow> Inr (Inl (JObj r)))
     | None \<Rightarrow>
         bindr (ledger_now now) (\<lambda>instant.
         bindr (validate_current_authority env s request instant) (\<lambda>_.
         bindr (index (JObj request) ''expected_ledger_version'') (\<lambda>expected.
         guardr (\<not> py_eq expected (number_json (lg_version L))) (budget_error ''AI_BUDGET_VERSION_STALE'') (
         bindr (check_request_times s request instant) (\<lambda>_.
         bindr (index (JObj request) ''amounts'') (\<lambda>amounts.
         bindr (some_amount amounts) (\<lambda>some.
         guardr (\<not> some) (budget_error ''AI_BUDGET_AMOUNT_INVALID'') (
         bindr (foldr_result (\<lambda>_. fits s L amounts) () budget_fields) (\<lambda>_.
         Inr (Inr (fingerprint env request, amounts))))))))))))))"

definition new_record :: "string \<Rightarrow> dict \<Rightarrow> string \<Rightarrow> py_number \<Rightarrow> json \<Rightarrow> dict" where
  "new_record ident request fp version amounts =
     [(''schema_version'', JStr ''1.0.0''), (''reservation_id'', JStr ident),
      (''configuration_id'', dict_get request ''configuration_id''), (''registry_id'', dict_get request ''registry_id''),
      (''registry_revision'', dict_get request ''registry_revision''),
      (''idempotency_key'', dict_get request ''idempotency_key''), (''request_fingerprint'', JStr fp),
      (''ledger_version'', number_json version), (''state'', JStr ''reserved''), (''amounts'', amounts),
      (''created_at'', dict_get request ''requested_at''), (''expires_at'', dict_get request ''expires_at''),
      (''finalized_at'', JNull), (''execution_enabled'', JBool False)]"

definition reserve ::
  "policy_env \<Rightarrow> ledger_setup \<Rightarrow> string \<Rightarrow> datetime \<Rightarrow> dict \<Rightarrow> ledger \<Rightarrow> ledger \<times> json result" where
  "reserve env s ident now request L =
     (case check_reserve env s now request L of
        Inl e \<Rightarrow> (L, Inl e)
      | Inr (Inl record) \<Rightarrow> (L, Inr record)
      | Inr (Inr (fp, amounts)) \<Rightarrow>
          let L1 = L\<lparr>lg_version := plus_one (lg_version L)\<rparr>;
              r = new_record ident request fp (lg_version L1) amounts in
          if contract_issues env (JObj r) ''ai-budget-reservation-v1.schema.json'' \<noteq> []
          then (L1, Inl (budget_error ''AI_BUDGET_RECORD_INVALID''))
          else (L1\<lparr>lg_used := add_used amounts (lg_used L),
                   lg_records := AList.update (JStr ident) r (lg_records L),
                   lg_keys := AList.update (dict_get request ''idempotency_key'') (fp, JStr ident) (lg_keys L)\<rparr>,
                Inr (JObj r)))"

section \<open>Finalizing\<close>

definition finalize_record :: "dict \<Rightarrow> py_number \<Rightarrow> string \<Rightarrow> instant \<Rightarrow> dict" where
  "finalize_record r version state instant =
     dict_put (dict_put (dict_put r ''ledger_version'' (number_json version)) ''state'' (JStr state))
       ''finalized_at'' (JStr (timestamp_us instant))"

definition check_finalize ::
  "policy_env \<Rightarrow> ledger_setup \<Rightarrow> string \<Rightarrow> int \<Rightarrow> string \<Rightarrow> datetime \<Rightarrow> ledger \<Rightarrow> (dict + dict \<times> instant) result" where
  "check_finalize env s ident expected_version target now L =
     (case map_of (lg_records L) (JStr ident) of
        None \<Rightarrow> Inl (budget_error ''AI_BUDGET_RESERVATION_UNKNOWN'')
      | Some r \<Rightarrow>
          bindr (index (JObj r) ''state'') (\<lambda>state.
          if state = JStr target then Inr (Inl r)
          else guardr (state \<noteq> JStr ''reserved'') (budget_error ''AI_BUDGET_STATE_CONFLICT'') (
          guardr (\<not> py_eq (JInt expected_version) (number_json (lg_version L))) (budget_error ''AI_BUDGET_VERSION_STALE'') (
          bindr (ledger_now now) (\<lambda>instant.
          bindr (validate_provider_configuration env (configuration s) (trusted_policy s) (at_utc instant)) (\<lambda>_.
          bindr (if target = ''committed'' then mapr (\<lambda>t. t \<le> instant) (time_of r ''expires_at'') else Inr False)
            (\<lambda>expired. guardr expired (budget_error ''AI_BUDGET_RESERVATION_EXPIRED'') (Inr (Inr (r, instant))))))))))"

definition finalize ::
  "policy_env \<Rightarrow> ledger_setup \<Rightarrow> string \<Rightarrow> int \<Rightarrow> string \<Rightarrow> datetime \<Rightarrow> ledger \<Rightarrow> ledger \<times> json result" where
  "finalize env s ident expected_version target now L =
     (case check_finalize env s ident expected_version target now L of
        Inl e \<Rightarrow> (L, Inl e)
      | Inr (Inl r) \<Rightarrow> (L, Inr (JObj r))
      | Inr (Inr (r, instant)) \<Rightarrow>
          let version = plus_one (lg_version L); r' = finalize_record r version target instant in
          (L\<lparr>lg_version := version,
             lg_used := (if target = ''released'' then subtract_used (dict_get r ''amounts'') (lg_used L) else lg_used L),
             lg_records := AList.update (JStr ident) r' (lg_records L)\<rparr>, Inr (JObj r')))"

definition commit :: "policy_env \<Rightarrow> ledger_setup \<Rightarrow> string \<Rightarrow> int \<Rightarrow> datetime \<Rightarrow> ledger \<Rightarrow> ledger \<times> json result" where
  "commit env s ident expected_version now L = finalize env s ident expected_version ''committed'' now L"

definition release :: "policy_env \<Rightarrow> ledger_setup \<Rightarrow> string \<Rightarrow> int \<Rightarrow> datetime \<Rightarrow> ledger \<Rightarrow> ledger \<times> json result" where
  "release env s ident expected_version now L = finalize env s ident expected_version ''released'' now L"

definition snapshot :: "ledger \<Rightarrow> json list result" where
  "snapshot L = sort_by (\<lambda>r. index r ''reservation_id'') (map (JObj \<circ> snd) (lg_records L))"

section \<open>Recovery\<close>

definition validate_record_authority :: "ledger_setup \<Rightarrow> dict \<Rightarrow> unit result" where
  "validate_record_authority s r =
     bindr (same_authority s r) (\<lambda>same.
     guardr (\<not> same) (budget_error ''AI_BUDGET_RECOVERY_MISMATCH'') (
     bindr (time_of r ''created_at'') (\<lambda>created_at.
     bindr (time_of r ''expires_at'') (\<lambda>expires_at.
     bindr (index (JObj r) ''finalized_at'') (\<lambda>fin.
     bindr (if fin = JNull then Inr None else mapr Some (parse_time fin)) (\<lambda>finalized_at.
     guardr (expires_at \<le> created_at \<or> max_reservation_lifetime < expires_at - created_at)
       (budget_error ''AI_BUDGET_RECOVERY_INVALID'') (
     bindr (time_of (configuration s) ''expires_at'') (\<lambda>configuration_expires.
     guardr (configuration_expires < expires_at) (budget_error ''AI_BUDGET_RECOVERY_INVALID'') (
     bindr (bindr (index (JObj r) ''amounts'') some_amount) (\<lambda>some.
     guardr (\<not> some) (budget_error ''AI_BUDGET_RECOVERY_INVALID'') (
     guardr (case finalized_at of None \<Rightarrow> False | Some t \<Rightarrow> t < created_at) (budget_error ''AI_BUDGET_RECOVERY_INVALID'')
       (Inr ()))))))))))))"

text \<open>Adding the amounts of one record, field by field, with the check of each new sum.\<close>

definition recover_amount :: "ledger_setup \<Rightarrow> json \<Rightarrow> (string \<Rightarrow> rat) \<Rightarrow> string \<Rightarrow> (string \<Rightarrow> rat) result" where
  "recover_amount s amounts used f =
     bindr (amount amounts f) (\<lambda>q.
     bindr (budget_limit s f) (\<lambda>limit.
     guardr (limit < used f + q) (budget_error ''AI_BUDGET_RECOVERY_EXCEEDED'') (Inr (used(f := used f + q)))))"

text \<open>The ledger so far, the versions seen and the expired reservations.\<close>

record recovery =
  rc_ledger :: ledger
  rc_versions :: "json list"
  rc_expired :: "json list"

text \<open>
  The identifiers of a record, refused when one of them was seen before; the three tests are made in
  this order and the first that succeeds decides.
\<close>

definition unseen :: "dict \<Rightarrow> string \<Rightarrow> (json \<Rightarrow> bool) \<Rightarrow> json result" where
  "unseen r k seen =
     bindr (index (JObj r) k) (\<lambda>v.
     guardr (\<not> hashable v) TypeError (
     guardr (seen v) (budget_error ''AI_BUDGET_RECOVERY_AMBIGUOUS'') (Inr v)))"

definition recovery_identity :: "recovery \<Rightarrow> dict \<Rightarrow> (json \<times> json \<times> json) result" where
  "recovery_identity rc r =
     (let L = rc_ledger rc in
      bindr (unseen r ''reservation_id'' (\<lambda>v. map_of (lg_records L) v \<noteq> None)) (\<lambda>ident.
      bindr (unseen r ''idempotency_key'' (\<lambda>v. map_of (lg_keys L) v \<noteq> None)) (\<lambda>key.
      bindr (unseen r ''ledger_version'' (\<lambda>v. py_in v (rc_versions rc))) (\<lambda>version.
      Inr (ident, key, version)))))"

definition recover_record ::
  "policy_env \<Rightarrow> ledger_setup \<Rightarrow> instant \<Rightarrow> recovery \<Rightarrow> dict \<Rightarrow> recovery result" where
  "recover_record env s instant rc r =
     (let L = rc_ledger rc in
      guardr (contract_issues env (JObj r) ''ai-budget-reservation-v1.schema.json'' \<noteq> [])
        (budget_error ''AI_BUDGET_RECOVERY_INVALID'') (
      bindr (validate_record_authority s r) (\<lambda>_.
      bindr (recovery_identity rc r) (\<lambda>(ident, key, version).
      bindr (index (JObj r) ''state'') (\<lambda>state.
      bindr (if state = JStr ''reserved'' then mapr (\<lambda>t. t \<le> instant) (time_of r ''expires_at'') else Inr False) (\<lambda>is_expired.
      bindr (index (JObj r) ''amounts'') (\<lambda>amounts.
      bindr (if state \<noteq> JStr ''released'' \<and> \<not> is_expired
             then foldr_result (recover_amount s amounts) (lg_used L) budget_fields else Inr (lg_used L)) (\<lambda>used.
      bindr (index (JObj r) ''request_fingerprint'') (\<lambda>fp.
      bindr (json_number version) (\<lambda>v.
      Inr \<lparr>rc_ledger = \<lparr>lg_version = py_max (lg_version L) v, lg_records = AList.update ident r (lg_records L),
                        lg_keys = AList.update key (str_of fp, ident) (lg_keys L), lg_used = used\<rparr>,
           rc_versions = version # rc_versions rc,
           rc_expired = (if is_expired then rc_expired rc @ [ident] else rc_expired rc)\<rparr>))))))))))"

definition expire_record :: "instant \<Rightarrow> ledger \<Rightarrow> json \<Rightarrow> ledger" where
  "expire_record instant L ident =
     (case map_of (lg_records L) ident of None \<Rightarrow> L
      | Some r \<Rightarrow>
          let version = plus_one (lg_version L) in
          L\<lparr>lg_version := version,
            lg_records := AList.update ident (finalize_record r version ''released'' instant) (lg_records L)\<rparr>)"

definition recover ::
  "policy_env \<Rightarrow> ledger_setup \<Rightarrow> datetime \<Rightarrow> datetime \<Rightarrow> dict list \<Rightarrow> ledger result" where
  "recover env s now now' records =
     bindr (init_ledger env s now) (\<lambda>L.
     bindr (ledger_now now') (\<lambda>instant.
     bindr (foldr_result (recover_record env s instant) \<lparr>rc_ledger = L, rc_versions = [], rc_expired = []\<rparr> records) (\<lambda>rc.
     bindr (py_sorted (rc_expired rc)) (\<lambda>expired.
     Inr (foldl (expire_record instant) (rc_ledger rc) expired)))))"

section \<open>Floats in the ledger\<close>

text \<open>
  The sum of a counter and an amount is the same number whichever of the two is a float, since the
  contracts bound both by a thousand million.
\<close>

lemma amounts_add_exactly:
  assumes "0 \<le> m" and "m \<le> 10 ^ 9" and "0 \<le> n" and "n \<le> 10 ^ 9"
  shows "fadd (of_int m) (of_int n) = of_int (m + n)"
  using double_of_int [of "m + n"] assms by (simp add: fadd_def)

text \<open>
  A version that is a float does not always advance: at \<open>2 ^ 53\<close>, which the contract of a record admits,
  the next version is the same number.
\<close>

lemma float_version_stalls: "plus_one (PyFloat (2 ^ 53)) = PyFloat (2 ^ 53)"
  by code_simp

section \<open>Association lists as tables\<close>

lemma alist_update_fresh: "k \<notin> fst ` set xs \<Longrightarrow> AList.update k v xs = xs @ [(k, v)]"
  by (induction xs) auto

lemma alist_update_present:
  "distinct (map fst xs) \<Longrightarrow> map_of xs k = Some r \<Longrightarrow>
   AList.update k v xs = update_rows (\<lambda>p. fst p = k) (\<lambda>p. (k, v)) xs"
proof (induction xs)
  case (Cons p xs)
  show ?case
  proof (cases "fst p = k")
    case True
    with Cons.prems have "update_rows (\<lambda>p. fst p = k) (\<lambda>p. (k, v)) xs = xs"
      unfolding update_rows_def by (intro map_idI) (auto simp: image_iff)
    with True show ?thesis by (cases p) (simp add: update_rows_def)
  next
    case False
    with Cons show ?thesis by (cases p) (auto simp: update_rows_def)
  qed
qed simp

lemma sum_alist_update:
  fixes g :: "'k \<times> 'v \<Rightarrow> 'n :: ab_group_add"
  shows "distinct (map fst xs) \<Longrightarrow> map_of xs k = Some r \<Longrightarrow>
   sum_list (map g (AList.update k v xs)) = sum_list (map g xs) - g (k, r) + g (k, v)"
  by (induction xs) (auto simp: algebra_simps split: if_splits)

section \<open>The invariant of the ledger\<close>

definition released :: "dict \<Rightarrow> bool" where
  "released r \<longleftrightarrow> dict_get r ''state'' = JStr ''released''"

definition reserved :: "dict \<Rightarrow> bool" where
  "reserved r \<longleftrightarrow> dict_get r ''state'' = JStr ''reserved''"

definition charged :: "string \<Rightarrow> dict \<Rightarrow> rat" where
  "charged f r = (if released r then 0 else amount_of (dict_get r ''amounts'') f)"

text \<open>What the records say is in use: the amounts of all records that are not released.\<close>

definition spent :: "ledger \<Rightarrow> string \<Rightarrow> rat" where
  "spent L f = sum_list (map (charged f \<circ> snd) (lg_records L))"

definition record_version :: "dict \<Rightarrow> rat" where
  "record_version r = (case json_number (dict_get r ''ledger_version'') of Inl _ \<Rightarrow> 0 | Inr v \<Rightarrow> py_value v)"

text \<open>The version of a ledger is not negative, and as a float it is a double.\<close>

definition version_ok :: "py_number \<Rightarrow> bool" where
  "version_ok v \<longleftrightarrow> 0 \<le> py_value v \<and> (case v of PyInt _ \<Rightarrow> True | PyFloat q \<Rightarrow> representable q)"

definition record_ok :: "rat \<Rightarrow> dict \<Rightarrow> bool" where
  "record_ok version r \<longleftrightarrow>
     dict_get r ''state'' \<in> {JStr ''reserved'', JStr ''committed'', JStr ''released''} \<and>
     record_version r \<le> version \<and> (\<forall>f \<in> set budget_fields. 0 \<le> amount_of (dict_get r ''amounts'') f)"

definition keys_ok :: "ledger \<Rightarrow> bool" where
  "keys_ok L \<longleftrightarrow> (\<forall>key fp ident. map_of (lg_keys L) key = Some (fp, ident) \<longrightarrow>
     (\<exists>r. map_of (lg_records L) ident = Some r \<and> dict_get r ''idempotency_key'' = key \<and>
        str_of (dict_get r ''request_fingerprint'') = fp))"

definition within_budget :: "ledger_setup \<Rightarrow> ledger \<Rightarrow> bool" where
  "within_budget s L \<longleftrightarrow>
     (\<forall>f \<in> set budget_fields. lg_used L f = spent L f \<and> (\<exists>limit. budget_limit s f = Inr limit \<and> spent L f \<le> limit))"

definition ledger_inv :: "ledger_setup \<Rightarrow> ledger \<Rightarrow> bool" where
  "ledger_inv s L \<longleftrightarrow> version_ok (lg_version L) \<and> distinct (map fst (lg_records L)) \<and> list_all (record_ok (py_value (lg_version L)) \<circ> snd) (lg_records L) \<and>
     keys_ok L \<and> within_budget s L"

text \<open>
  What the two contracts say of amounts and budgets: every amount of a valid record and every budget of
  the configuration is a number that is not negative; a valid record is in one of its three states.
\<close>

definition budgets_contract :: "ledger_setup \<Rightarrow> bool" where
  "budgets_contract s \<longleftrightarrow> (\<forall>f \<in> set budget_fields. \<exists>q. budget_limit s f = Inr q \<and> 0 \<le> q)"

definition record_contract :: "policy_env \<Rightarrow> bool" where
  "record_contract env \<longleftrightarrow> (\<forall>r. contract_issues env (JObj r) ''ai-budget-reservation-v1.schema.json'' = [] \<longrightarrow>
     (\<forall>f \<in> set budget_fields. 0 \<le> amount_of (dict_get r ''amounts'') f) \<and>
     dict_get r ''state'' \<in> {JStr ''reserved'', JStr ''committed'', JStr ''released''})"

text \<open>A float of Python is a double.\<close>

fun double_version :: "dict \<Rightarrow> bool" where
  "double_version r = (case dict_get r ''ledger_version'' of JFloat q \<Rightarrow> double q = q | _ \<Rightarrow> True)"

lemma number_json_number [simp]: "json_number (number_json v) = Inr v"
  by (cases v) auto

lemma plus_one_ge:
  assumes "version_ok v"
  shows "py_value v \<le> py_value (plus_one v)" and "version_ok (plus_one v)"
proof -
  have "py_value v \<le> py_value (plus_one v) \<and> version_ok (plus_one v)"
  proof (cases v)
    case (PyFloat q)
    then have "q \<le> double (q + 1)" "representable (double (q + 1))"
      using assms by (auto simp: version_ok_def intro!: double_ge representable_double)
    with assms PyFloat show ?thesis by (auto simp: version_ok_def fadd_def)
  qed (use assms in \<open>auto simp: version_ok_def\<close>)
  then show "py_value v \<le> py_value (plus_one v)" "version_ok (plus_one v)" by auto
qed

lemma py_max_ge: "py_value v \<le> py_value (py_max v w)" "py_value w \<le> py_value (py_max v w)"
  by (auto simp: py_max_def)

lemma record_ok_mono: "record_ok v r \<Longrightarrow> v \<le> w \<Longrightarrow> record_ok w r"
  by (auto simp: record_ok_def)

lemma records_ok_mono:
  "list_all (record_ok v \<circ> snd) rows \<Longrightarrow> v \<le> w \<Longrightarrow> list_all (record_ok w \<circ> snd) rows"
  by (auto simp: list_all_iff intro: record_ok_mono)

lemma fits_each:
  assumes "foldr_result (\<lambda>_. fits s L amounts) () budget_fields = Inr u" and "f \<in> set budget_fields"
  shows "\<exists>limit. budget_limit s f = Inr limit \<and> lg_used L f + amount_of amounts f \<le> limit"
  using foldr_result_each [OF assms]
  by (auto simp: fits_def amount_of_def bindr_eq_Inr guardr_eq_Inr not_less)

lemma check_reserve_new:
  assumes "check_reserve env s now request L = Inr (Inr (fp, amounts))"
  shows "map_of (lg_keys L) (dict_get request ''idempotency_key'') = None" "fp = fingerprint env request"
    "index (JObj request) ''amounts'' = Inr amounts"
    "foldr_result (\<lambda>_. fits s L amounts) () budget_fields = Inr ()"
proof -
  from assms obtain key where k: "index (JObj request) ''idempotency_key'' = Inr key"
    unfolding check_reserve_def by (elim guardrE bindrE)
  have n: "map_of (lg_keys L) key = None"
    using assms k unfolding check_reserve_def
    by (auto elim!: guardrE bindrE simp: guardr_eq_Inr simp del: index.simps split: option.splits prod.splits)
  then show "map_of (lg_keys L) (dict_get request ''idempotency_key'') = None"
    using index_dict_get [OF k] by simp
  from assms n k show "fp = fingerprint env request" "index (JObj request) ''amounts'' = Inr amounts"
    "foldr_result (\<lambda>_. fits s L amounts) () budget_fields = Inr ()"
    unfolding check_reserve_def by (auto elim!: guardrE bindrE simp del: index.simps)
qed


lemma reserve_inv:
  assumes inv: "ledger_inv s L" and rc: "record_contract env" and fresh: "JStr ident \<notin> fst ` set (lg_records L)"
    and r: "reserve env s ident now request L = (L', res)"
  shows "ledger_inv s L'"
proof (cases "check_reserve env s now request L")
  case (Inl e)
  with r inv show ?thesis by (auto simp: reserve_def)
next
  case (Inr c)
  show ?thesis
  proof (cases c)
    case (Inl x)
    with Inr r inv show ?thesis by (auto simp: reserve_def)
  next
    case new: (Inr p)
    obtain fp amounts where p: "p = (fp, amounts)" by (cases p) auto
    note n = check_reserve_new [OF Inr [unfolded new p]]
    let ?L1 = "L\<lparr>lg_version := plus_one (lg_version L)\<rparr>" and ?r = "new_record ident request fp (plus_one (lg_version L)) amounts"
    have inv1: "ledger_inv s ?L1"
      using inv plus_one_ge [of "lg_version L"] records_ok_mono
      by (auto simp: ledger_inv_def keys_ok_def within_budget_def spent_def)
    show ?thesis
    proof (cases "contract_issues env (JObj ?r) ''ai-budget-reservation-v1.schema.json'' = []")
      case False
      with Inr new p r inv1 show ?thesis by (simp add: reserve_def Let_def)
    next
      case True
      then have L': "L' = ?L1\<lparr>lg_used := add_used amounts (lg_used L), lg_records := lg_records L @ [(JStr ident, ?r)],
          lg_keys := AList.update (dict_get request ''idempotency_key'') (fp, JStr ident) (lg_keys L)\<rparr>"
        using Inr new p r by (simp add: reserve_def Let_def alist_update_fresh fresh)
      have get: "dict_get ?r ''amounts'' = amounts" "dict_get ?r ''state'' = JStr ''reserved''"
        "dict_get ?r ''ledger_version'' = number_json (plus_one (lg_version L))"
        "dict_get ?r ''idempotency_key'' = dict_get request ''idempotency_key''" "dict_get ?r ''request_fingerprint'' = JStr fp"
        by (simp_all add: new_record_def dict_get_def)
      have am: "0 \<le> amount_of amounts f" if "f \<in> set budget_fields" for f
        using rc True that get(1) unfolding record_contract_def by metis
      have sp: "spent L' f = spent L f + amount_of amounts f" for f
        using get by (simp add: spent_def L' charged_def released_def)
      have "within_budget s L'"
        unfolding within_budget_def
      proof (intro ballI conjI)
        fix f assume f: "f \<in> set budget_fields"
        then have u: "lg_used L f = spent L f" using inv by (simp add: ledger_inv_def within_budget_def)
        show "lg_used L' f = spent L' f" using f u by (simp add: sp) (simp add: L' add_used_def)
        show "\<exists>limit. budget_limit s f = Inr limit \<and> spent L' f \<le> limit"
          using fits_each [OF n(4) f] u sp by simp
      qed
      moreover have "keys_ok L'"
        unfolding keys_ok_def
      proof (intro allI impI)
        fix key fp' i assume h: "map_of (lg_keys L') key = Some (fp', i)"
        show "\<exists>r. map_of (lg_records L') i = Some r \<and> dict_get r ''idempotency_key'' = key \<and>
            str_of (dict_get r ''request_fingerprint'') = fp'"
        proof (cases "key = dict_get request ''idempotency_key''")
          case True
          moreover have "map_of (lg_records L) (JStr ident) = None" using fresh by (simp add: map_of_eq_None_iff)
          ultimately show ?thesis using h get by (simp add: L' update_conv' map_add_def)
        next
          case False
          with h have "map_of (lg_keys L) key = Some (fp', i)" by (simp add: L' update_conv')
          with inv show ?thesis by (fastforce simp: ledger_inv_def keys_ok_def L' map_add_def split: option.splits)
        qed
      qed
      moreover have "record_ok (py_value (plus_one (lg_version L))) ?r"
        using get am by (simp add: record_ok_def record_version_def)
      ultimately show ?thesis using inv1 fresh by (auto simp: ledger_inv_def L')
    qed
  qed
qed

lemma check_finalizeE:
  assumes "check_finalize env s ident v target now L = Inr (Inr (r, instant))"
  obtains "map_of (lg_records L) (JStr ident) = Some r" and "reserved r" and "py_eq (JInt v) (number_json (lg_version L))" and "target \<noteq> ''reserved''"
    and "ledger_now now = Inr instant"
    and "target = ''committed'' \<Longrightarrow> \<exists>t. time_of r ''expires_at'' = Inr t \<and> instant < t"
proof -
  from assms obtain r0 where r0: "map_of (lg_records L) (JStr ident) = Some r0"
    by (auto simp: check_finalize_def split: option.splits)
  from assms have "bindr (index (JObj r0) ''state'') (\<lambda>state.
          if state = JStr target then Inr (Inl r0)
          else guardr (state \<noteq> JStr ''reserved'') (budget_error ''AI_BUDGET_STATE_CONFLICT'') (
          guardr (\<not> py_eq (JInt v) (number_json (lg_version L))) (budget_error ''AI_BUDGET_VERSION_STALE'') (
          bindr (ledger_now now) (\<lambda>instant.
          bindr (validate_provider_configuration env (configuration s) (trusted_policy s) (at_utc instant)) (\<lambda>_.
          bindr (if target = ''committed'' then mapr (\<lambda>t. t \<le> instant) (time_of r0 ''expires_at'') else Inr False)
            (\<lambda>expired. guardr expired (budget_error ''AI_BUDGET_RESERVATION_EXPIRED'') (Inr (Inr (r0, instant))))))))) =
      Inr (Inr (r, instant))"
    by (simp add: check_finalize_def r0 del: index.simps)
  then obtain state where st: "index (JObj r0) ''state'' = Inr state" "state \<noteq> JStr target" "state = JStr ''reserved''"
    and rest: "py_eq (JInt v) (number_json (lg_version L))" "ledger_now now = Inr instant" "r0 = r"
    "target = ''committed'' \<longrightarrow> (\<exists>t. time_of r0 ''expires_at'' = Inr t \<and> \<not> t \<le> instant)"
    by (auto elim!: bindrE guardrE maprE simp del: index.simps split: if_splits)
  have "reserved r" using index_dict_get [OF st(1)] st(3) rest(3) by (simp add: reserved_def)
  then show ?thesis using that r0 st rest by auto
qed

lemma finalize_record_get:
  "dict_get (finalize_record r v state t) k =
     (if k = ''finalized_at'' then JStr (timestamp_us t) else if k = ''state'' then JStr state
      else if k = ''ledger_version'' then number_json v else dict_get r k)"
  by (simp add: finalize_record_def)

lemma finalize_cases:
  assumes "finalize env s ident v target now L = (L', res)"
  obtains (same) "L' = L"
  | (changed) r instant where "map_of (lg_records L) (JStr ident) = Some r" and "reserved r" and "py_eq (JInt v) (number_json (lg_version L))"
    and "target \<noteq> ''reserved''"
    and "L' = L\<lparr>lg_version := plus_one (lg_version L),
             lg_used := (if target = ''released'' then subtract_used (dict_get r ''amounts'') (lg_used L) else lg_used L),
             lg_records := AList.update (JStr ident) (finalize_record r (plus_one (lg_version L)) target instant) (lg_records L)\<rparr>"
    and "res = Inr (JObj (finalize_record r (plus_one (lg_version L)) target instant))"
proof (cases "check_finalize env s ident v target now L")
  case (Inl e)
  then show ?thesis by (intro same) (use assms in \<open>simp add: finalize_def\<close>)
next
  case (Inr c)
  then show ?thesis
  proof (cases c)
    case (Inl x)
    with Inr show ?thesis by (intro same) (use assms in \<open>simp add: finalize_def\<close>)
  next
    case new: (Inr p)
    obtain r instant where p: "p = (r, instant)" by (cases p)
    show ?thesis
      by (rule check_finalizeE [OF Inr [unfolded new p]], rule changed [of r instant])
        (use assms Inr new p in \<open>auto simp: finalize_def Let_def\<close>)
  qed
qed

lemma finalize_inv:
  assumes inv: "ledger_inv s L" and t: "target \<in> {''committed'', ''released''}"
    and r: "finalize env s ident v target now L = (L', res)"
  shows "ledger_inv s L'"
  using r
proof (cases rule: finalize_cases)
  case (changed r instant)
  let ?r' = "finalize_record r (plus_one (lg_version L)) target instant"
  have vm: "py_value (lg_version L) \<le> py_value (plus_one (lg_version L))" "version_ok (plus_one (lg_version L))"
    using inv plus_one_ge [of "lg_version L"] by (auto simp: ledger_inv_def)
  have d: "distinct (map fst (lg_records L))" and ok: "record_ok (py_value (lg_version L)) r"
    using inv changed(1) by (auto simp: ledger_inv_def list_all_iff dest: map_of_SomeD)
  have rec: "lg_records L' = AList.update (JStr ident) ?r' (lg_records L)" using changed(5) by simp
  have ch: "charged f ?r' = charged f r - (if target = ''released'' then amount_of (dict_get r ''amounts'') f else 0)" for f
    using changed(2) t by (auto simp: charged_def released_def reserved_def finalize_record_get)
  have sp: "spent L' f = spent L f - (if target = ''released'' then amount_of (dict_get r ''amounts'') f else 0)" for f
    using sum_alist_update [OF d changed(1), of "charged f \<circ> snd" ?r'] by (simp add: spent_def rec ch)
  have "within_budget s L'"
    unfolding within_budget_def
  proof (intro ballI conjI)
    fix f assume f: "f \<in> set budget_fields"
    then obtain limit where u: "lg_used L f = spent L f" "budget_limit s f = Inr limit" "spent L f \<le> limit"
      using inv by (auto simp: ledger_inv_def within_budget_def)
    have "0 \<le> amount_of (dict_get r ''amounts'') f" using ok f by (simp add: record_ok_def)
    with u sp show "\<exists>limit. budget_limit s f = Inr limit \<and> spent L' f \<le> limit" by auto
    show "lg_used L' f = spent L' f" using u(1) f by (simp add: sp) (simp add: changed(5) subtract_used_def)
  qed
  moreover have "keys_ok L'"
    unfolding keys_ok_def
  proof (intro allI impI)
    fix key fp i assume h: "map_of (lg_keys L') key = Some (fp, i)"
    then have "map_of (lg_keys L) key = Some (fp, i)" by (simp add: changed(5))
    moreover have "keys_ok L" using inv by (simp add: ledger_inv_def)
    ultimately obtain r0 where r0: "map_of (lg_records L) i = Some r0" "dict_get r0 ''idempotency_key'' = key"
      "str_of (dict_get r0 ''request_fingerprint'') = fp"
      unfolding keys_ok_def by blast
    show "\<exists>r. map_of (lg_records L') i = Some r \<and> dict_get r ''idempotency_key'' = key \<and>
        str_of (dict_get r ''request_fingerprint'') = fp"
      using r0 changed(1) by (cases "i = JStr ident") (auto simp: rec update_conv' finalize_record_get)
  qed
  moreover have "record_ok (py_value (plus_one (lg_version L))) ?r'"
    using ok t by (auto simp: record_ok_def record_version_def finalize_record_get)
  then have "list_all (record_ok (py_value (plus_one (lg_version L))) \<circ> snd) (lg_records L')"
    using inv changed(1) d unfolding rec
    by (simp add: alist_update_present [OF d changed(1)])
      (rule update_rows_list_all, use vm in \<open>auto simp: ledger_inv_def list_all_iff intro: record_ok_mono\<close>)
  moreover have "distinct (map fst (lg_records L'))" using d by (simp add: rec distinct_update)
  ultimately show ?thesis using vm by (simp add: ledger_inv_def changed(5))
qed (use inv in simp)

section \<open>Histories of the ledger\<close>

text \<open>A step of the ledger; an identifier drawn by \<open>uuid4\<close> is assumed not to be in use.\<close>

inductive ledger_step :: "policy_env \<Rightarrow> ledger_setup \<Rightarrow> ledger \<Rightarrow> ledger \<Rightarrow> bool" for env s where
  reserve: "JStr ident \<notin> fst ` set (lg_records L) \<Longrightarrow> reserve env s ident now request L = (L', res) \<Longrightarrow> ledger_step env s L L'"
| commit: "commit env s ident v now L = (L', res) \<Longrightarrow> ledger_step env s L L'"
| release: "release env s ident v now L = (L', res) \<Longrightarrow> ledger_step env s L L'"

inductive_cases ledger_stepE: "ledger_step env s L L'"

lemma step_ledger_inv:
  assumes "ledger_step env s L L'" and "ledger_inv s L" and "record_contract env"
  shows "ledger_inv s L'"
  using assms
proof (induction rule: ledger_step.induct)
  case (reserve ident L now request L' res)
  then show ?case using reserve_inv [OF reserve.prems reserve.hyps] by simp
next
  case (commit ident v now L L' res)
  show ?case by (rule finalize_inv [OF commit.prems(1) _ commit.hyps [unfolded commit_def]]) simp
next
  case (release ident v now L L' res)
  show ?case by (rule finalize_inv [OF release.prems(1) _ release.hyps [unfolded release_def]]) simp
qed

lemma history_ledger_inv:
  assumes "(ledger_step env s)\<^sup>*\<^sup>* L L'" and "ledger_inv s L" and "record_contract env"
  shows "ledger_inv s L'"
  using assms(1,2) by (induction rule: rtranclp_induct) (auto intro: step_ledger_inv assms(3))

lemma empty_ledger_inv: "budgets_contract s \<Longrightarrow> ledger_inv s empty_ledger"
  by (auto simp: ledger_inv_def empty_ledger_def version_ok_def keys_ok_def within_budget_def spent_def budgets_contract_def)

section \<open>Records are finalized once\<close>

definition record_next :: "json \<times> dict \<Rightarrow> json \<times> dict \<Rightarrow> bool" where
  "record_next p p' \<longleftrightarrow> fst p' = fst p \<and> reserved (snd p) \<and> record_version (snd p) \<le> record_version (snd p') \<and>
     dict_get (snd p') ''state'' \<in> {JStr ''committed'', JStr ''released''} \<and>
     (\<forall>k. k \<notin> {''state'', ''ledger_version'', ''finalized_at''} \<longrightarrow> dict_get (snd p') k = dict_get (snd p) k)"

interpretation reservation_rows: keyed_table fst record_next "\<lambda>p. \<not> reserved (snd p)"
  by unfold_locales (auto simp: record_next_def)

lemma finalize_evolves:
  assumes inv: "ledger_inv s L" and t: "target \<in> {''committed'', ''released''}"
    and r: "finalize env s ident v target now L = (L', res)"
  shows "table_step record_next (lg_records L) (lg_records L')"
  using r
proof (cases rule: finalize_cases)
  case (changed r instant)
  have d: "distinct (map fst (lg_records L))" using inv by (simp add: ledger_inv_def)
  have "record_next p (JStr ident, finalize_record r (plus_one (lg_version L)) target instant)"
    if "p \<in> set (lg_records L)" "fst p = JStr ident" for p
  proof -
    have "map_of (lg_records L) (fst p) = Some (snd p)" using that(1) d by (intro map_of_is_SomeI) auto
    then have p: "snd p = r" using that(2) changed(1) by simp
    have "record_version r \<le> py_value (lg_version L)" "version_ok (lg_version L)"
      using inv changed(1) by (auto simp: ledger_inv_def list_all_iff record_ok_def dest!: map_of_SomeD)
    then show ?thesis
      using that(2) p changed(2) t plus_one_ge [of "lg_version L"]
      by (auto simp: record_next_def finalize_record_get record_version_def)
  qed
  then show ?thesis
    by (simp add: changed(5) alist_update_present [OF d changed(1)] table_step_update)
qed simp

lemma reserve_evolves:
  assumes "JStr ident \<notin> fst ` set (lg_records L)" and "reserve env s ident now request L = (L', res)"
  shows "table_step record_next (lg_records L) (lg_records L')"
  using assms
  by (auto simp: reserve_def Let_def alist_update_fresh split: sum.splits prod.splits if_splits)

lemma step_records:
  assumes "ledger_step env s L L'" and "ledger_inv s L"
  shows "table_step record_next (lg_records L) (lg_records L')"
  using assms
proof (induction rule: ledger_step.induct)
  case (reserve ident L now request L' res)
  then show ?case using reserve_evolves by blast
next
  case (commit ident v now L L' res)
  show ?case by (rule finalize_evolves [OF commit.prems _ commit.hyps [unfolded commit_def]]) simp
next
  case (release ident v now L L' res)
  show ?case by (rule finalize_evolves [OF release.prems _ release.hyps [unfolded release_def]]) simp
qed

lemma history_records:
  assumes "(ledger_step env s)\<^sup>*\<^sup>* L L'" and "ledger_inv s L" and "record_contract env"
  shows "table_evolves record_next (lg_records L) (lg_records L')"
  using assms(1)
proof (induction rule: rtranclp_induct)
  case (step y z)
  have "ledger_inv s y" using history_ledger_inv [OF step.hyps(1) assms(2,3)] .
  with step show ?case by (auto intro: table_evolves_trans table_step_evolves step_records)
qed simp

section \<open>Keys keep their reservation\<close>

lemma step_keys:
  assumes "ledger_step env s L L'" and "map_of (lg_keys L) key = Some x"
  shows "map_of (lg_keys L') key = Some x"
  using assms
proof (induction rule: ledger_step.induct)
  case (reserve ident L now request L' res)
  show ?case
  proof (cases "check_reserve env s now request L")
    case (Inr c)
    show ?thesis
    proof (cases c)
      case new: (Inr p)
      obtain fp amounts where p: "p = (fp, amounts)" by (cases p)
      have "dict_get request ''idempotency_key'' \<noteq> key"
        using check_reserve_new(1) [OF Inr [unfolded new p]] reserve.prems by auto
      then show ?thesis using reserve Inr new p
        by (auto simp: reserve_def Let_def update_conv' split: if_splits)
    qed (use reserve Inr in \<open>auto simp: reserve_def\<close>)
  qed (use reserve in \<open>auto simp: reserve_def\<close>)
next
  case (commit ident v now L L' res)
  from commit.hyps [unfolded commit_def] show ?case
    by (cases rule: finalize_cases) (use commit.prems in auto)
next
  case (release ident v now L L' res)
  from release.hyps [unfolded release_def] show ?case
    by (cases rule: finalize_cases) (use release.prems in auto)
qed

lemma history_keys:
  "(ledger_step env s)\<^sup>*\<^sup>* L L' \<Longrightarrow> map_of (lg_keys L) key = Some x \<Longrightarrow> map_of (lg_keys L') key = Some x"
  by (induction rule: rtranclp_induct) (auto dest: step_keys)

section \<open>Theorems\<close>

text \<open>
  C22. The budget is never overdrawn: on every history of reservations, commitments and releases, in any
  order and whatever fails in between, the ledger's counters equal the sum of the reserved and committed
  amounts, and that sum stays within the configured budget of every field.
\<close>

theorem budget_never_exceeded:
  assumes "(ledger_step env s)\<^sup>*\<^sup>* empty_ledger L" and "budgets_contract s" and "record_contract env"
    and "f \<in> set budget_fields"
  shows "\<exists>limit. budget_limit s f = Inr limit \<and> lg_used L f = spent L f \<and> spent L f \<le> limit"
  using history_ledger_inv [OF assms(1) empty_ledger_inv [OF assms(2)] assms(3)] assms(4)
  by (auto simp: ledger_inv_def within_budget_def)

text \<open>
  C23. A reservation is settled once: a committed or released record never changes again on any later
  history, so no budget is returned twice and no released budget is spent; the versions of a record never
  decrease, and its amounts and identity never change.
\<close>

theorem reservation_settled_once:
  assumes h: "(ledger_step env s)\<^sup>*\<^sup>* L L'" and inv: "ledger_inv s L" and rc: "record_contract env"
    and r: "map_of (lg_records L) i = Some r" and r': "map_of (lg_records L') i = Some r'"
  shows "(\<not> reserved r \<longrightarrow> r' = r) \<and> record_version r \<le> record_version r' \<and> dict_get r' ''amounts'' = dict_get r ''amounts''"
proof -
  have d: "distinct (map fst (lg_records L'))"
    using history_ledger_inv [OF h inv rc] by (simp add: ledger_inv_def)
  have e: "record_next\<^sup>*\<^sup>* (i, r) (i, r')"
    by (rule reservation_rows.evolves_same_key [OF history_records [OF h inv rc] d map_of_SomeD [OF r] map_of_SomeD [OF r']]) simp
  have "dict_get (snd q) ''amounts'' = dict_get (snd p) ''amounts'' \<and> record_version (snd p) \<le> record_version (snd q)"
    if "record_next\<^sup>*\<^sup>* p q" for p q
    using that by (induction rule: rtranclp_induct) (auto simp: record_next_def)
  with e show ?thesis using reservation_rows.closed_row_final [OF e] by fastforce
qed

text \<open>
  Reservations replay: once a request was accepted, presenting it again, with any expected version, at
  any later time and whatever happened since, returns the current record of the same reservation and
  leaves the ledger as it is, while a different request under the same key is refused.
\<close>

theorem reserve_replays:
  assumes ok: "reserve env s ident now request L = (L1, Inr record)" and inv: "ledger_inv s L" and rc: "record_contract env"
    and fresh: "JStr ident \<notin> fst ` set (lg_records L)" and h: "(ledger_step env s)\<^sup>*\<^sup>* L1 L2"
    and same: "map_of request' ''idempotency_key'' = map_of request ''idempotency_key''"
    and valid: "contract_issues env (JObj request') ''ai-budget-reservation-request-v1.schema.json'' = []"
  shows "\<exists>i r. map_of (lg_records L2) i = Some r \<and>
    reserve env s ident' now' request' L2 =
      (L2, if fingerprint env request' = fingerprint env request then Inr (JObj r)
           else Inl (budget_error ''AI_BUDGET_IDEMPOTENCY_CONFLICT''))"
proof -
  obtain c where c: "check_reserve env s now request L = Inr c"
    using ok by (cases "check_reserve env s now request L") (auto simp: reserve_def)
  obtain key where key: "map_of request ''idempotency_key'' = Some key" "hashable key"
    using c unfolding check_reserve_def by (elim guardrE bindrE) (auto simp: index_eq_Inr simp del: index.simps)
  have k: "\<exists>i. map_of (lg_keys L1) key = Some (fingerprint env request, i)"
  proof (cases c)
    case (Inl x)
    then show ?thesis using c key ok unfolding check_reserve_def reserve_def
      by (auto simp: guardr_eq_Inr bindr_eq_Inr split: option.splits)
  next
    case (Inr p)
    obtain fp amounts where p: "p = (fp, amounts)" by (cases p)
    note n = check_reserve_new [OF c [unfolded Inr p]]
    have "dict_get request ''idempotency_key'' = key" using key by (simp add: dict_get_def)
    with ok c Inr p n(2) show ?thesis
      by (auto simp: reserve_def Let_def update_conv' split: if_splits)
  qed
  then obtain i where i: "map_of (lg_keys L1) key = Some (fingerprint env request, i)" by blast
  have inv1: "ledger_inv s L1" by (rule reserve_inv [OF inv rc fresh ok])
  have i2: "map_of (lg_keys L2) key = Some (fingerprint env request, i)" by (rule history_keys [OF h i])
  have "keys_ok L2" using history_ledger_inv [OF h inv1 rc] by (simp add: ledger_inv_def)
  with i2 obtain r where r: "map_of (lg_records L2) i = Some r" unfolding keys_ok_def by blast
  have "check_reserve env s now' request' L2 =
      (if fingerprint env request' = fingerprint env request then Inr (Inl (JObj r))
       else Inl (budget_error ''AI_BUDGET_IDEMPOTENCY_CONFLICT''))"
    using valid same key i2 r by (simp add: check_reserve_def guardr_def)
  then show ?thesis using r by (intro exI [of _ i] exI [of _ r]) (simp add: reserve_def)
qed

section \<open>Recovery\<close>

text \<open>The invariant while some reservations, the set \<open>X\<close>, are known to be expired but not yet released.\<close>

definition charged_but :: "json set \<Rightarrow> string \<Rightarrow> json \<times> dict \<Rightarrow> rat" where
  "charged_but X f p = (if fst p \<in> X then 0 else charged f (snd p))"

definition recovering :: "ledger_setup \<Rightarrow> json set \<Rightarrow> ledger \<Rightarrow> bool" where
  "recovering s X L \<longleftrightarrow> version_ok (lg_version L) \<and> distinct (map fst (lg_records L)) \<and> list_all (record_ok (py_value (lg_version L)) \<circ> snd) (lg_records L) \<and>
     keys_ok L \<and> (\<forall>k \<in> X. \<exists>r. map_of (lg_records L) k = Some r \<and> reserved r) \<and>
     (\<forall>f \<in> set budget_fields. lg_used L f = sum_list (map (charged_but X f) (lg_records L)) \<and>
        (\<exists>limit. budget_limit s f = Inr limit \<and> lg_used L f \<le> limit))"

lemma recoveringI:
  assumes "version_ok (lg_version L)" and "distinct (map fst (lg_records L))" and "list_all (record_ok (py_value (lg_version L)) \<circ> snd) (lg_records L)" and "keys_ok L"
    and "\<And>k. k \<in> X \<Longrightarrow> \<exists>r. map_of (lg_records L) k = Some r \<and> reserved r"
    and "\<And>f. f \<in> set budget_fields \<Longrightarrow> lg_used L f = sum_list (map (charged_but X f) (lg_records L))"
    and "\<And>f. f \<in> set budget_fields \<Longrightarrow> \<exists>limit. budget_limit s f = Inr limit \<and> lg_used L f \<le> limit"
  shows "recovering s X L"
  using assms unfolding recovering_def by blast

lemma recovering_done: "recovering s {} L \<longleftrightarrow> ledger_inv s L"
proof -
  have "charged_but {} f = charged f \<circ> snd" for f by (auto simp: charged_but_def)
  then show ?thesis unfolding recovering_def ledger_inv_def within_budget_def spent_def by auto
qed

lemma recover_amounts:
  assumes "foldr_result (recover_amount s amounts) used fs = Inr used'" and "distinct fs"
  shows "\<forall>f. used' f = (if f \<in> set fs then used f + amount_of amounts f else used f) \<and>
    (f \<in> set fs \<longrightarrow> (\<exists>limit. budget_limit s f = Inr limit \<and> used' f \<le> limit))"
  using assms
proof (induction fs arbitrary: used)
  case (Cons g fs)
  from Cons.prems(1) obtain used1 where u: "recover_amount s amounts used g = Inr used1"
    "foldr_result (recover_amount s amounts) used1 fs = Inr used'"
    by (auto simp: bindr_eq_Inr)
  from u(1) obtain q limit where g: "amount amounts g = Inr q" "budget_limit s g = Inr limit"
    "used g + q \<le> limit" and u1: "used1 = used(g := used g + q)"
    by (auto simp: recover_amount_def bindr_eq_Inr guardr_eq_Inr not_less)
  note g = g u(2) [unfolded u1]
  from Cons.IH [OF g(4)] Cons.prems(2) g(1-3) show ?case by (auto simp: amount_of_def)
qed simp

lemma recover_recordE:
  assumes "recover_record env s instant rc r = Inr rc'"
  obtains ident key version expired used where
    "contract_issues env (JObj r) ''ai-budget-reservation-v1.schema.json'' = []"
    and "dict_get r ''idempotency_key'' = key" and "dict_get r ''ledger_version'' = version"
    and "map_of (lg_records (rc_ledger rc)) ident = None" and "map_of (lg_keys (rc_ledger rc)) key = None"
    and "expired \<longrightarrow> reserved r"
    and "reserved r \<and> \<not> expired \<Longrightarrow> \<exists>t. time_of r ''expires_at'' = Inr t \<and> instant < t"
    and "(if \<not> released r \<and> \<not> expired
          then foldr_result (recover_amount s (dict_get r ''amounts'')) (lg_used (rc_ledger rc)) budget_fields
          else Inr (lg_used (rc_ledger rc))) = Inr used"
    and "\<exists>v. json_number version = Inr v \<and> rc_ledger rc' = \<lparr>lg_version = py_max (lg_version (rc_ledger rc)) v,
        lg_records = lg_records (rc_ledger rc) @ [(ident, r)],
        lg_keys = AList.update key (str_of (dict_get r ''request_fingerprint''), ident) (lg_keys (rc_ledger rc)), lg_used = used\<rparr>"
    and "rc_expired rc' = (if expired then rc_expired rc @ [ident] else rc_expired rc)"
proof -
  from assms obtain ident key version state expired amounts used fp v where
    a: "\<not> contract_issues env (JObj r) ''ai-budget-reservation-v1.schema.json'' \<noteq> []"
      "recovery_identity rc r = Inr (ident, key, version)" "index (JObj r) ''state'' = Inr state"
      "(if state = JStr ''reserved'' then mapr (\<lambda>t. t \<le> instant) (time_of r ''expires_at'') else Inr False) = Inr expired"
      "index (JObj r) ''amounts'' = Inr amounts"
      "(if state \<noteq> JStr ''released'' \<and> \<not> expired
             then foldr_result (recover_amount s amounts) (lg_used (rc_ledger rc)) budget_fields else Inr (lg_used (rc_ledger rc))) = Inr used"
      "index (JObj r) ''request_fingerprint'' = Inr fp" "json_number version = Inr v" and
    b: "rc' = \<lparr>rc_ledger = \<lparr>lg_version = py_max (lg_version (rc_ledger rc)) v,
                        lg_records = AList.update ident r (lg_records (rc_ledger rc)),
                        lg_keys = AList.update key (str_of fp, ident) (lg_keys (rc_ledger rc)), lg_used = used\<rparr>,
           rc_versions = version # rc_versions rc,
           rc_expired = (if expired then rc_expired rc @ [ident] else rc_expired rc)\<rparr>"
    unfolding recover_record_def Let_def by (elim guardrE bindrE) (auto elim!: bindrE simp del: index.simps)
  from a(2) have i: "index (JObj r) ''idempotency_key'' = Inr key" "index (JObj r) ''ledger_version'' = Inr version"
    "map_of (lg_records (rc_ledger rc)) ident = None" "map_of (lg_keys (rc_ledger rc)) key = None"
    unfolding recovery_identity_def unseen_def Let_def by (auto elim!: guardrE bindrE simp del: index.simps)
  have g: "dict_get r ''state'' = state" "dict_get r ''amounts'' = amounts" "dict_get r ''request_fingerprint'' = fp"
    using a(3,5,7) by (simp_all only: index_dict_get)
  show ?thesis
    by (rule that [of key version ident expired used])
      (use a i g b in \<open>auto simp: reserved_def released_def alist_update_fresh map_of_eq_None_iff mapr_eq_Inr index_dict_get
          simp del: index.simps split: if_splits\<close>)
qed

lemma recover_record_inv:
  assumes rc: "record_contract env" and bc: "budgets_contract s" and dv: "double_version r"
    and inv: "recovering s (set (rc_expired c)) (rc_ledger c)" "distinct (rc_expired c)"
    and r: "recover_record env s instant c r = Inr c'"
  shows "recovering s (set (rc_expired c')) (rc_ledger c') \<and> distinct (rc_expired c')"
  using r
proof (rule recover_recordE)
  fix ident key version expired used
  let ?L = "rc_ledger c" and ?L' = "rc_ledger c'" and ?X = "set (rc_expired c)"
  assume h: "contract_issues env (JObj r) ''ai-budget-reservation-v1.schema.json'' = []"
    "dict_get r ''idempotency_key'' = key" "dict_get r ''ledger_version'' = version"
    "map_of (lg_records ?L) ident = None" "map_of (lg_keys ?L) key = None" "expired \<longrightarrow> reserved r"
    "(if \<not> released r \<and> \<not> expired then foldr_result (recover_amount s (dict_get r ''amounts'')) (lg_used ?L) budget_fields
      else Inr (lg_used ?L)) = Inr used"
    "\<exists>v. json_number version = Inr v \<and> ?L' = \<lparr>lg_version = py_max (lg_version ?L) v,
        lg_records = lg_records ?L @ [(ident, r)],
        lg_keys = AList.update key (str_of (dict_get r ''request_fingerprint''), ident) (lg_keys ?L), lg_used = used\<rparr>"
    "rc_expired c' = (if expired then rc_expired c @ [ident] else rc_expired c)"
  from rc h(1) have rec: "\<And>f. f \<in> set budget_fields \<Longrightarrow> 0 \<le> amount_of (dict_get r ''amounts'') f"
    "dict_get r ''state'' \<in> {JStr ''reserved'', JStr ''committed'', JStr ''released''}"
    unfolding record_contract_def by blast+
  from h(8) obtain v where v: "json_number version = Inr v" "lg_version ?L' = py_max (lg_version ?L) v" by auto
  then have rv: "record_version r = py_value v" using h(3) by (simp add: record_version_def)
  have vok: "version_ok (lg_version ?L')"
  proof -
    have "representable q" if "v = PyFloat q" "0 < q" for q
    proof -
      have "double q = q" using v(1) that(1) dv h(3) by (cases version) auto
      with representable_double [of q] that(2) show ?thesis by simp
    qed
    with inv(1) v(2) show ?thesis by (cases v) (auto simp: recovering_def py_max_def version_ok_def)
  qed
  from h(8) have L': "lg_records ?L' = lg_records ?L @ [(ident, r)]"
    "lg_keys ?L' = AList.update key (str_of (dict_get r ''request_fingerprint''), ident) (lg_keys ?L)" "lg_used ?L' = used"
    by auto
  have new: "ident \<notin> fst ` set (lg_records ?L)" using h(4) by (simp add: map_of_eq_None_iff)
  have "ident \<notin> ?X" using inv(1) h(4) by (force simp: recovering_def)
  have dist: "distinct budget_fields" by (simp add: budget_fields_def)
  have used: "used f = lg_used ?L f + (if expired then 0 else charged f r) \<and> (\<exists>limit. budget_limit s f = Inr limit \<and> used f \<le> limit)"
    if f: "f \<in> set budget_fields" for f
  proof (cases "\<not> released r \<and> \<not> expired")
    case True
    then have "foldr_result (recover_amount s (dict_get r ''amounts'')) (lg_used ?L) budget_fields = Inr used"
      using h(7) by simp
    note a = recover_amounts [OF this dist, THEN spec, of f]
    from a f True have "used f = lg_used ?L f + charged f r" by (simp add: charged_def)
    with a f True show ?thesis by auto
  next
    case False
    then have "used = lg_used ?L" using h(7) by auto
    then show ?thesis using False inv(1) f h(6) by (auto simp: charged_def recovering_def reserved_def released_def)
  qed
  have same: "charged_but (set (rc_expired c')) f p = charged_but ?X f p" if "p \<in> set (lg_records ?L)" for f p
    using that new h(9) by (auto simp: charged_but_def)
  have last: "charged_but (set (rc_expired c')) f (ident, r) = (if expired then 0 else charged f r)" for f
    using h(9) \<open>ident \<notin> ?X\<close> by (auto simp: charged_but_def)
  have sum: "lg_used ?L' f = sum_list (map (charged_but (set (rc_expired c')) f) (lg_records ?L'))"
    if "f \<in> set budget_fields" for f
    using used [OF that] inv(1) that same last by (simp add: L' recovering_def cong: map_cong)
  have keys: "keys_ok ?L'"
    unfolding keys_ok_def
  proof (intro allI impI)
    fix k fp i assume k: "map_of (lg_keys ?L') k = Some (fp, i)"
    show "\<exists>r. map_of (lg_records ?L') i = Some r \<and> dict_get r ''idempotency_key'' = k \<and> str_of (dict_get r ''request_fingerprint'') = fp"
    proof (cases "k = key")
      case True
      with k h(2,4) show ?thesis by (auto simp: L' update_conv' map_add_def)
    next
      case False
      with k have "map_of (lg_keys ?L) k = Some (fp, i)" by (simp add: L' update_conv')
      moreover have "keys_ok ?L" using inv(1) by (simp add: recovering_def)
      ultimately obtain r0 where "map_of (lg_records ?L) i = Some r0" "dict_get r0 ''idempotency_key'' = k"
        "str_of (dict_get r0 ''request_fingerprint'') = fp" unfolding keys_ok_def by blast
      then show ?thesis using h(4) by (intro exI [of _ r0]) (auto simp: L' map_add_def)
    qed
  qed
  have exps: "\<exists>r. map_of (lg_records ?L') k = Some r \<and> reserved r" if "k \<in> set (rc_expired c')" for k
  proof (cases "k = ident")
    case True
    with that h(4,6,9) \<open>ident \<notin> ?X\<close> show ?thesis by (auto simp: L' map_add_def split: if_splits)
  next
    case False
    with that h(9) have "k \<in> ?X" by (auto split: if_splits)
    with inv(1) obtain r0 where "map_of (lg_records ?L) k = Some r0" "reserved r0" unfolding recovering_def by blast
    with False show ?thesis by (auto simp: L' map_add_def)
  qed
  have oks: "list_all (record_ok (py_value (lg_version ?L')) \<circ> snd) (lg_records ?L')"
    using inv(1) rec(1,2) py_max_ge [of "lg_version ?L" v] py_max_ge(2) [of v "lg_version ?L"] records_ok_mono
    by (auto simp: recovering_def L' v(2) record_ok_def rv)
  have "distinct (map fst (lg_records ?L'))" using inv(1) new by (simp add: recovering_def L')
  then have "recovering s (set (rc_expired c')) ?L'"
  proof (rule recoveringI [OF vok _ oks keys exps sum])
    fix f assume "f \<in> set budget_fields"
    from used [OF this, THEN conjunct2] show "\<exists>limit. budget_limit s f = Inr limit \<and> lg_used ?L' f \<le> limit"
      unfolding L'(3) .
  qed
  moreover have "distinct (rc_expired c')" using inv(2) h(9) \<open>ident \<notin> ?X\<close> by auto
  ultimately show ?thesis by simp
qed


lemma expire_record_inv:
  assumes inv: "recovering s X L" and k: "k \<in> X"
  shows "recovering s (X - {k}) (expire_record instant L k)"
proof -
  from inv k obtain r where r: "map_of (lg_records L) k = Some r" "reserved r" by (auto simp: recovering_def)
  have d: "distinct (map fst (lg_records L))" using inv by (simp add: recovering_def)
  let ?r' = "finalize_record r (plus_one (lg_version L)) ''released'' instant" and ?L' = "expire_record instant L k"
  have L': "?L' = L\<lparr>lg_version := plus_one (lg_version L), lg_records := AList.update k ?r' (lg_records L)\<rparr>"
    by (simp add: expire_record_def r Let_def)
  have up: "AList.update k ?r' (lg_records L) = update_rows (\<lambda>p. fst p = k) (\<lambda>p. (k, ?r')) (lg_records L)"
    by (rule alist_update_present [OF d r(1)])
  have ch: "charged_but (X - {k}) f (if fst p = k then (k, ?r') else p) = charged_but X f p" for f p
    using k by (auto simp: charged_but_def charged_def released_def finalize_record_get)
  have chs: "map (charged_but (X - {k}) f) (lg_records ?L') = map (charged_but X f) (lg_records L)" for f
    using ch by (simp add: L' up update_rows_def)
  have keys: "keys_ok ?L'"
    unfolding keys_ok_def
  proof (intro allI impI)
    fix key fp i assume h: "map_of (lg_keys ?L') key = Some (fp, i)"
    then have "map_of (lg_keys L) key = Some (fp, i)" by (simp add: L')
    moreover have "keys_ok L" using inv by (simp add: recovering_def)
    ultimately obtain r0 where r0: "map_of (lg_records L) i = Some r0" "dict_get r0 ''idempotency_key'' = key"
      "str_of (dict_get r0 ''request_fingerprint'') = fp" unfolding keys_ok_def by blast
    show "\<exists>r. map_of (lg_records ?L') i = Some r \<and> dict_get r ''idempotency_key'' = key \<and>
        str_of (dict_get r ''request_fingerprint'') = fp"
      using r0 r by (cases "i = k") (auto simp: L' update_conv' finalize_record_get)
  qed
  have vm: "py_value (lg_version L) \<le> py_value (plus_one (lg_version L))" "version_ok (plus_one (lg_version L))"
    using inv plus_one_ge [of "lg_version L"] by (auto simp: recovering_def)
  have "record_ok (py_value (plus_one (lg_version L))) ?r'"
    using inv r(1) by (auto simp: recovering_def list_all_iff record_ok_def record_version_def finalize_record_get dest!: map_of_SomeD)
  then have oks: "list_all (record_ok (py_value (lg_version ?L')) \<circ> snd) (lg_records ?L')"
    using inv vm unfolding L' by (simp add: up) (intro update_rows_list_all, auto simp: recovering_def list_all_iff intro: record_ok_mono)
  have exps: "\<exists>r. map_of (lg_records ?L') j = Some r \<and> reserved r" if "j \<in> X - {k}" for j
  proof -
    from that inv obtain r0 where "map_of (lg_records L) j = Some r0" "reserved r0" unfolding recovering_def by blast
    with that show ?thesis by (simp add: L' update_conv')
  qed
  have "distinct (map fst (lg_records ?L'))" using d by (simp add: L' distinct_update)
  with vm show ?thesis
    by (intro recoveringI [OF _ _ oks keys exps]) (use inv chs vm in \<open>auto simp: recovering_def L'\<close>)
qed

lemma expire_records_inv:
  "recovering s (set ks) L \<Longrightarrow> distinct ks \<Longrightarrow> recovering s {} (foldl (expire_record instant) L ks)"
proof (induction ks arbitrary: L)
  case (Cons k ks)
  then have "recovering s (set ks) (expire_record instant L k)"
    using expire_record_inv [OF Cons.prems(1), of k instant] by simp
  with Cons show ?case by simp
qed simp

text \<open>
  C24. Recovery is safe: whatever records a ledger is rebuilt from, their versions written as ints or as
  floats, when recovery succeeds the result satisfies the invariant of the ledger, so the recovered counters
  equal the reserved and committed amounts and stay within the configured budgets. Everything proved of later histories then holds after a restart.
\<close>

theorem recovery_restores_invariant:
  assumes "recover env s now now' records = Inr L" and "record_contract env" and "budgets_contract s"
    and "list_all double_version records"
  shows "ledger_inv s L"
proof -
  from assms(1) obtain L0 instant c ks where
    1: "init_ledger env s now = Inr L0"
    "foldr_result (recover_record env s instant) \<lparr>rc_ledger = L0, rc_versions = [], rc_expired = []\<rparr> records = Inr c"
    "py_sorted (rc_expired c) = Inr ks" "L = foldl (expire_record instant) (rc_ledger c) ks"
    unfolding recover_def by (elim bindrE) (auto simp: Let_def)
  have "L0 = empty_ledger" using 1(1) by (auto simp: init_ledger_def elim!: bindrE)
  then have "recovering s {} L0" using empty_ledger_inv [OF assms(3)] by (simp add: recovering_done)
  then have "recovering s (set (rc_expired c)) (rc_ledger c) \<and> distinct (rc_expired c)"
    by (intro foldr_result_invariant [OF 1(2), where I = "\<lambda>c. recovering s (set (rc_expired c)) (rc_ledger c) \<and> distinct (rc_expired c)"])
      (simp, use assms(4) in \<open>auto simp: list_all_iff simp del: double_version.simps dest: recover_record_inv [OF assms(2,3)]\<close>)
  moreover have "mset ks = mset (rc_expired c)" using sort_by_mset [of Inr "rc_expired c" ks] 1(3) by (simp add: py_sorted_def)
  ultimately have "recovering s (set ks) (rc_ledger c)" "distinct ks"
    by (auto dest: mset_eq_setD mset_eq_imp_distinct_iff)
  from expire_records_inv [OF this] show ?thesis by (simp add: 1(4) recovering_done)
qed


text \<open>
  A refused reservation charges nothing: whatever the error, the counters, the records and the
  idempotency keys are unchanged. The version is unchanged as well, except when the new record fails its
  own contract: the version has then been raised although no record carries it.
\<close>

theorem refused_reservation_charges_nothing:
  assumes "reserve env s ident now request L = (L', Inl e)"
  shows "lg_used L' = lg_used L \<and> lg_records L' = lg_records L \<and> lg_keys L' = lg_keys L \<and>
    (lg_version L' = lg_version L \<or>
     lg_version L' = plus_one (lg_version L) \<and> e = budget_error ''AI_BUDGET_RECORD_INVALID'')"
  using assms by (auto simp: reserve_def Let_def split: sum.splits prod.splits if_splits)

end
