(* ===== verification/Audit_Log.thy ===== *)
theory Audit_Log
  imports Document
begin

text \<open>
  The part of the database that every service of the core shares, and its audit log: models
  \<open>audit.py\<close>, the \<open>_record\<close> helper of \<open>workflow.py\<close> and the audit verification of
  \<open>authorization.py\<close> (\<open>verify_audit_chain\<close>, \<open>_audit_event_from_row\<close>).

  A table is the list of its rows; \<open>audit_events\<close> is in the order of \<open>sequence\<close>. A column of JSON
  text holds the value that was written (\<open>json.loads\<close> inverts \<open>canonical_json\<close>), and \<open>None\<close> stands
  for text that is not JSON. The random source \<open>uuid4\<close> is a sequence of strings with the
  number of values drawn so far. An operation returns the committed database, and \<open>Inl\<close> when the
  transaction is rolled back. Inserts are subject to the unique constraints and to the trigger of the
  table.

  Results: appending keeps the chain valid for the verifier, and under a digest without collisions on
  the two logs, two accepted logs with the same length and head hash are the same log.
\<close>

section \<open>Tables\<close>

record engagement_row =
  e_id :: string
  e_policy :: "string option"
  e_status :: string
  e_expires :: string

record bundle_row =
  b_id :: string
  b_activated :: "string option"
  b_revoked :: "string option"
  b_policy :: "json option"

record audit_row =
  ev_sequence :: int
  ev_id :: string
  ev_at :: string
  ev_actor_type :: string
  ev_actor :: string
  ev_action :: string
  ev_subject_type :: string
  ev_subject :: string
  ev_data :: "json option"
  ev_previous :: "string option"
  ev_hash :: string

record outbox_row =
  o_id :: string
  o_aggregate_type :: string
  o_aggregate :: string
  o_event_type :: string
  o_payload :: json

record core_db =
  engagements :: "engagement_row list"
  bundles :: "bundle_row list"
  safety :: "string list"
  audit :: "audit_row list"
  outbox :: "outbox_row list"
  uuid4 :: "nat \<Rightarrow> string"
  drawn :: nat

text \<open>The keyword arguments of the functions that record an event.\<close>

record audit_args =
  a_action :: string
  a_subject_type :: string
  a_subject :: string
  a_actor_type :: string
  a_actor :: string
  a_data :: json
  a_at :: string

text \<open>\<open>str(uuid4())\<close>.\<close>

definition new_uuid :: "'a core_db_scheme \<Rightarrow> string" where
  "new_uuid db = uuid4 db (drawn db)"

definition draw :: "'a core_db_scheme \<Rightarrow> 'a core_db_scheme" where
  "draw db = db\<lparr>drawn := Suc (drawn db)\<rparr>"

definition opt_str :: "string option \<Rightarrow> json" where
  "opt_str x = (case x of None \<Rightarrow> JNull | Some s \<Rightarrow> JStr s)"

section \<open>Appending\<close>

definition head_hash :: "audit_row list \<Rightarrow> string option" where
  "head_hash events = (if events = [] then None else Some (ev_hash (last events)))"

definition next_sequence :: "audit_row list \<Rightarrow> int" where
  "next_sequence events = (if events = [] then 1 else ev_sequence (last events) + 1)"

text \<open>The members of an event that its hash covers.\<close>

definition event_payload ::
  "string \<Rightarrow> string \<Rightarrow> string \<Rightarrow> string \<Rightarrow> string \<Rightarrow> string \<Rightarrow> string \<Rightarrow> json \<Rightarrow> string option \<Rightarrow> json" where
  "event_payload ident at_time actor_type actor action stype subject data previous = JObj
     [(''event_id'', JStr ident), (''occurred_at'', JStr at_time), (''actor_type'', JStr actor_type),
      (''actor_id'', JStr actor), (''action'', JStr action), (''subject_type'', JStr stype),
      (''subject_id'', JStr subject), (''data'', data), (''previous_hash'', opt_str previous)]"

definition audit_event :: "policy_env \<Rightarrow> audit_args \<Rightarrow> 'a core_db_scheme \<Rightarrow> audit_row" where
  "audit_event env a db =
     \<lparr>ev_sequence = next_sequence (audit db), ev_id = new_uuid db, ev_at = a_at a,
      ev_actor_type = a_actor_type a, ev_actor = a_actor a, ev_action = a_action a,
      ev_subject_type = a_subject_type a, ev_subject = a_subject a, ev_data = Some (a_data a),
      ev_previous = head_hash (audit db),
      ev_hash = content_hash env
        (event_payload (new_uuid db) (a_at a) (a_actor_type a) (a_actor a) (a_action a)
          (a_subject_type a) (a_subject a) (a_data a) (head_hash (audit db)))\<rparr>"

text \<open>
  The insertion: \<open>event_id\<close> and \<open>event_hash\<close> are unique, and the trigger \<open>audit_events_chain_guard\<close>
  requires a hash of 64 characters and the hash of the last event as the previous hash.
\<close>

definition audit_insert :: "audit_row \<Rightarrow> 'a core_db_scheme \<Rightarrow> 'a core_db_scheme result" where
  "audit_insert r db =
     guardr (list_ex (\<lambda>r'. ev_id r' = ev_id r \<or> ev_hash r' = ev_hash r) (audit db) \<or>
             length (ev_hash r) \<noteq> 64 \<or> ev_previous r \<noteq> head_hash (audit db)) IntegrityError
       (Inr (db\<lparr>audit := audit db @ [r]\<rparr>))"

definition append_audit_event ::
  "policy_env \<Rightarrow> audit_args \<Rightarrow> 'a core_db_scheme \<Rightarrow> ('a core_db_scheme \<times> audit_row) result" where
  "append_audit_event env a db =
     (let r = audit_event env a db in mapr (\<lambda>db'. (db', r)) (audit_insert r (draw db)))"

definition outbox_insert :: "outbox_row \<Rightarrow> 'a core_db_scheme \<Rightarrow> 'a core_db_scheme result" where
  "outbox_insert r db =
     guardr (list_ex (\<lambda>r'. o_id r' = o_id r) (outbox db)) IntegrityError
       (Inr (db\<lparr>outbox := outbox db @ [r]\<rparr>))"

definition event_message :: "audit_args \<Rightarrow> string \<Rightarrow> string \<Rightarrow> outbox_row" where
  "event_message a event_hash ident =
     \<lparr>o_id = ident, o_aggregate_type = a_subject_type a, o_aggregate = a_subject a,
      o_event_type = a_action a,
      o_payload = JObj [(''event_hash'', JStr event_hash), (''occurred_at'', JStr (a_at a)),
                        (''subject_id'', JStr (a_subject a))]\<rparr>"

definition record_event :: "policy_env \<Rightarrow> audit_args \<Rightarrow> 'a core_db_scheme \<Rightarrow> 'a core_db_scheme result" where
  "record_event env a db =
     (let r = audit_event env a db in
      bindr (audit_insert r (draw db)) (\<lambda>db.
        outbox_insert (event_message a (ev_hash r) (new_uuid db)) (draw db)))"

section \<open>Verification\<close>

definition audit_event_from_row :: "policy_env \<Rightarrow> audit_row \<Rightarrow> json result" where
  "audit_event_from_row env r =
     (case ev_data r of
        None \<Rightarrow> Inl (CodedError ''DomainError'' ''AUDIT_EVENT_INVALID'')
      | Some data \<Rightarrow>
          let event = JObj
            [(''schema_version'', JStr ''1.0.0''), (''sequence'', JInt (ev_sequence r)),
             (''event_id'', JStr (ev_id r)), (''occurred_at'', JStr (ev_at r)),
             (''actor_type'', JStr (ev_actor_type r)), (''actor_id'', JStr (ev_actor r)),
             (''action'', JStr (ev_action r)), (''subject_type'', JStr (ev_subject_type r)),
             (''subject_id'', JStr (ev_subject r)), (''data'', data),
             (''previous_hash'', opt_str (ev_previous r)), (''event_hash'', JStr (ev_hash r))]
          in if contract_issues env event ''audit-event-v1.schema.json'' \<noteq> []
             then Inl (CodedError ''DomainError'' ''AUDIT_EVENT_INVALID'')
             else Inr event)"

definition audit_failure :: "audit_row list \<Rightarrow> int \<Rightarrow> string \<Rightarrow> json" where
  "audit_failure rows n reason = JObj
     [(''valid'', JBool False), (''event_count'', JInt (int (length rows))),
      (''failed_sequence'', JInt n), (''reason'', JStr reason)]"

definition row_payload :: "audit_row \<Rightarrow> json \<Rightarrow> json" where
  "row_payload r data =
     event_payload (ev_id r) (ev_at r) (ev_actor_type r) (ev_actor r) (ev_action r)
       (ev_subject_type r) (ev_subject r) data (ev_previous r)"

text \<open>The loop of \<open>verify_audit_chain\<close>: the rows left, the hash and the sequence of the last one.\<close>

primrec verify_rows ::
  "policy_env \<Rightarrow> audit_row list \<Rightarrow> string option \<Rightarrow> int \<Rightarrow> audit_row list \<Rightarrow> json" where
  "verify_rows env rows previous sequence [] = JObj
     [(''valid'', JBool True), (''event_count'', JInt (int (length rows))), (''head_hash'', opt_str previous)]"
| "verify_rows env rows previous sequence (r # rest) =
     (case audit_event_from_row env r of
        Inl _ \<Rightarrow> audit_failure rows (ev_sequence r) ''AUDIT_EVENT_INVALID''
      | Inr event \<Rightarrow>
          if ev_sequence r \<noteq> sequence + 1 \<or> ev_previous r \<noteq> previous \<or>
             ev_hash r \<noteq> content_hash env (row_payload r (the (ev_data r)))
          then audit_failure rows (ev_sequence r) ''AUDIT_CHAIN_INVALID''
          else verify_rows env rows (Some (ev_hash r)) (ev_sequence r) rest)"

definition verify_audit_chain :: "policy_env \<Rightarrow> 'a core_db_scheme \<Rightarrow> json" where
  "verify_audit_chain env db = verify_rows env (audit db) None 0 (audit db)"


section \<open>What the verifier accepts\<close>

definition well_hashed :: "policy_env \<Rightarrow> audit_row \<Rightarrow> bool" where
  "well_hashed env r =
     (case ev_data r of None \<Rightarrow> False
      | Some data \<Rightarrow> ev_hash r = content_hash env (row_payload r data))"

text \<open>
  A chained log, by position: event \<open>i\<close> has sequence \<open>i + 1\<close>, the hash of event \<open>i - 1\<close> as its
  previous hash, and the hash of its own content.
\<close>

definition chained :: "policy_env \<Rightarrow> audit_row list \<Rightarrow> bool" where
  "chained env events \<longleftrightarrow>
     (\<forall>i < length events. ev_sequence (events ! i) = int i + 1 \<and>
        ev_previous (events ! i) = head_hash (take i events) \<and> well_hashed env (events ! i))"

definition contract_ok :: "policy_env \<Rightarrow> audit_row \<Rightarrow> bool" where
  "contract_ok env r = (case audit_event_from_row env r of Inl _ \<Rightarrow> False | Inr _ \<Rightarrow> True)"

definition accepted :: "audit_row list \<Rightarrow> json" where
  "accepted events = JObj
     [(''valid'', JBool True), (''event_count'', JInt (int (length events))),
      (''head_hash'', opt_str (head_hash events))]"

lemma head_hash_simps [simp]:
  "head_hash [] = None" "head_hash (events @ [r]) = Some (ev_hash r)"
  by (simp_all add: head_hash_def)

lemma chained_snoc:
  "chained env (events @ [r]) \<longleftrightarrow>
     chained env events \<and> ev_sequence r = int (length events) + 1 \<and>
     ev_previous r = head_hash events \<and> well_hashed env r"
  by (auto simp: chained_def nth_append less_Suc_eq)

lemma chained_prefix: "chained env (events @ later) \<Longrightarrow> chained env events"
  by (induction later rule: rev_induct) (simp_all add: chained_snoc flip: append_assoc)

lemma chained_Nil [simp]: "chained env []"
  by (simp add: chained_def)

lemma chained_next_sequence: "chained env events \<Longrightarrow> next_sequence events = int (length events) + 1"
  by (cases events rule: rev_cases) (auto simp: next_sequence_def chained_snoc)

lemma contract_ok_data: "contract_ok env r \<Longrightarrow> \<exists>data. ev_data r = Some data"
  by (auto simp: contract_ok_def audit_event_from_row_def split: option.splits)

lemma verify_step:
  "verify_rows env rows p n (r # rest) =
     (if \<not> contract_ok env r then audit_failure rows (ev_sequence r) ''AUDIT_EVENT_INVALID''
      else if ev_sequence r = n + 1 \<and> ev_previous r = p \<and> well_hashed env r
      then verify_rows env rows (Some (ev_hash r)) (ev_sequence r) rest
      else audit_failure rows (ev_sequence r) ''AUDIT_CHAIN_INVALID'')"
  using contract_ok_data [of env r]
  by (auto simp: contract_ok_def well_hashed_def split: sum.splits option.splits)

declare verify_rows.simps(2) [simp del]

lemma audit_failure_not_accepted [simp]: "audit_failure rows n why \<noteq> accepted rows'"
  by (simp add: audit_failure_def accepted_def)

lemma verify_rows_accepts:
  assumes "rows = done_rows @ rest" and "chained env done_rows" and "list_all (contract_ok env) done_rows"
  shows "verify_rows env rows (head_hash done_rows) (int (length done_rows)) rest = accepted rows \<longleftrightarrow>
           chained env rows \<and> list_all (contract_ok env) rows"
  using assms
proof (induction rest arbitrary: done_rows)
  case Nil
  then show ?case by (simp add: accepted_def)
next
  case (Cons r rest)
  show ?case
  proof (cases "contract_ok env r \<and> chained env (done_rows @ [r])")
    case True
    then have "verify_rows env rows (head_hash done_rows) (int (length done_rows)) (r # rest) =
        verify_rows env rows (head_hash (done_rows @ [r])) (int (length (done_rows @ [r]))) rest"
      by (simp add: verify_step chained_snoc add.commute)
    with Cons.IH [of "done_rows @ [r]"] Cons.prems True show ?thesis by simp
  next
    case False
    then have "verify_rows env rows (head_hash done_rows) (int (length done_rows)) (r # rest) \<noteq> accepted rows"
      using Cons.prems(2) by (auto simp: verify_step chained_snoc)
    moreover have "chained env (done_rows @ [r])" if "chained env rows"
      using that Cons.prems(1) chained_prefix [of env "done_rows @ [r]" rest] by simp
    ultimately show ?thesis using False Cons.prems(1) by auto
  qed
qed

lemma verify_accepts_iff:
  "verify_audit_chain env db = accepted (audit db) \<longleftrightarrow>
     chained env (audit db) \<and> list_all (contract_ok env) (audit db)"
  using verify_rows_accepts [of "audit db" "[]" "audit db" env] by (simp add: verify_audit_chain_def)

lemma verify_rows_total:
  "\<exists>h. verify_rows env rows p n rest = JObj
     [(''valid'', JBool True), (''event_count'', JInt (int (length rows))), (''head_hash'', opt_str h)]
   \<or> (\<exists>k why. verify_rows env rows p n rest = audit_failure rows k why)"
  by (induction rest arbitrary: p n) (auto simp: verify_step)

text \<open>The head that an accepting answer reports is the hash of the last event.\<close>

lemma verify_rows_head:
  "index (verify_rows env rows p n rest) ''valid'' = Inr (JBool True) \<Longrightarrow>
   verify_rows env rows p n rest = JObj
     [(''valid'', JBool True), (''event_count'', JInt (int (length rows))),
      (''head_hash'', opt_str (if rest = [] then p else head_hash rest))]"
proof (induction rest arbitrary: p n)
  case (Cons r rest)
  then show ?case
    by (cases rest) (auto simp: verify_step audit_failure_def head_hash_def split: if_splits)
qed simp

lemma verify_valid_iff_accepted:
  "index (verify_audit_chain env db) ''valid'' = Inr (JBool True) \<longleftrightarrow>
     verify_audit_chain env db = accepted (audit db)"
  using verify_rows_head [of env "audit db" None 0 "audit db"]
  by (auto simp: verify_audit_chain_def accepted_def)

text \<open>
  C20. The verifier is exact: \<open>verify_audit_chain\<close> answers \<open>valid\<close> if and only if every stored event
  meets the audit event contract, the sequence numbers are 1, 2, 3 and so on, each event carries the
  hash of its predecessor and the hash of its own content; the answer then reports the number of
  events and the hash of the last one.
\<close>

theorem verify_audit_chain_exact:
  "(index (verify_audit_chain env db) ''valid'' = Inr (JBool True) \<longleftrightarrow>
      chained env (audit db) \<and> list_all (contract_ok env) (audit db)) \<and>
   (chained env (audit db) \<and> list_all (contract_ok env) (audit db) \<longleftrightarrow>
      verify_audit_chain env db = accepted (audit db))"
  by (simp add: verify_valid_iff_accepted verify_accepts_iff)

section \<open>Appending keeps the chain\<close>

lemma audit_event_well_hashed: "well_hashed env (audit_event env a db)"
  by (simp add: audit_event_def well_hashed_def row_payload_def)

lemma audit_event_links:
  "chained env (audit db) \<Longrightarrow> chained env (audit db @ [audit_event env a db])"
  by (simp add: chained_snoc audit_event_well_hashed)
    (simp add: audit_event_def chained_next_sequence)

lemma audit_insertE:
  assumes "audit_insert r db = Inr db'"
  obtains "db' = db\<lparr>audit := audit db @ [r]\<rparr>" and "length (ev_hash r) = 64"
    and "ev_id r \<notin> ev_id ` set (audit db)" and "ev_hash r \<notin> ev_hash ` set (audit db)"
  using assms by (fastforce simp: audit_insert_def guardr_eq_Inr list_ex_iff)

lemma append_audit_eventE:
  assumes "append_audit_event env a db = Inr (db', r)"
  obtains "r = audit_event env a db" and "db' = (draw db)\<lparr>audit := audit db @ [r]\<rparr>"
  using assms unfolding append_audit_event_def Let_def
  by (elim maprE audit_insertE) (simp add: draw_def)

lemma record_eventE:
  assumes "record_event env a db = Inr db'"
  obtains "db' = db\<lparr>audit := audit db @ [audit_event env a db],
      outbox := outbox db @ [event_message a (ev_hash (audit_event env a db)) (uuid4 db (Suc (drawn db)))],
      drawn := Suc (Suc (drawn db))\<rparr>"
  using assms unfolding record_event_def Let_def outbox_insert_def
  by (elim bindrE guardrE audit_insertE) (cases db, simp add: draw_def new_uuid_def)

definition extends_log :: "policy_env \<Rightarrow> 'a core_db_scheme \<Rightarrow> 'a core_db_scheme \<Rightarrow> bool" where
  "extends_log env db db' \<longleftrightarrow>
     prefix (audit db) (audit db') \<and> (chained env (audit db) \<longrightarrow> chained env (audit db'))"

lemma extends_log_refl [simp, intro]: "extends_log env db db"
  by (simp add: extends_log_def)

lemma extends_log_trans: "extends_log env a b \<Longrightarrow> extends_log env b c \<Longrightarrow> extends_log env a c"
  by (auto simp: extends_log_def)

lemma extends_log_same:
  "audit db = audit a \<Longrightarrow> audit db' = audit b \<Longrightarrow> extends_log env a b \<Longrightarrow> extends_log env db db'"
  by (simp add: extends_log_def)

lemma record_event_extends: "record_event env a db = Inr db' \<Longrightarrow> extends_log env db db'"
  by (elim record_eventE) (simp add: extends_log_def audit_event_links)

lemma append_audit_event_extends:
  "append_audit_event env a db = Inr (db', r) \<Longrightarrow> extends_log env db db'"
  by (elim append_audit_eventE) (auto simp: extends_log_def audit_event_links)

text \<open>
  A service whose steps only append to the log: what one step keeps of the log, every history of
  steps keeps.
\<close>

locale audited_service =
  fixes env :: policy_env
    and step :: "'d core_db_scheme \<Rightarrow> 'd core_db_scheme \<Rightarrow> bool"
  assumes step_extends: "step db db' \<Longrightarrow> extends_log env db db'"
begin

lemma history_extends: "step\<^sup>*\<^sup>* db db' \<Longrightarrow> extends_log env db db'"
  by (induction rule: rtranclp_induct) (auto intro: extends_log_trans step_extends)

lemma history_chained: "step\<^sup>*\<^sup>* db db' \<Longrightarrow> chained env (audit db) \<Longrightarrow> chained env (audit db')"
  using history_extends by (auto simp: extends_log_def)

lemma history_prefix: "step\<^sup>*\<^sup>* db db' \<Longrightarrow> prefix (audit db) (audit db')"
  using history_extends by (auto simp: extends_log_def)

end

interpretation direct: audited_service env "\<lambda>db db'. \<exists>a r. append_audit_event env a db = Inr (db', r)"
  for env
  by unfold_locales (auto intro: append_audit_event_extends)

interpretation recorded: audited_service env "\<lambda>db db'. \<exists>a. record_event env a db = Inr db'"
  for env
  by unfold_locales (auto intro: record_event_extends)

text \<open>
  Appending an event to a log that verifies leaves a log that verifies, whatever the event says,
  as long as the new event meets the contract: one more event, and its hash as the new head.
\<close>

theorem append_keeps_valid:
  assumes "verify_audit_chain env db = accepted (audit db)"
    and "append_audit_event env a db = Inr (db', r)" and "contract_ok env r"
  shows "verify_audit_chain env db' = accepted (audit db @ [r]) \<and> audit db' = audit db @ [r]"
proof -
  from assms(2) have d: "audit db' = audit db @ [r]" "r = audit_event env a db"
    by (auto elim: append_audit_eventE)
  with assms(1,3) show ?thesis
    using verify_accepts_iff [of env db'] by (auto simp: verify_accepts_iff audit_event_links)
qed

section \<open>Tampering is evident\<close>

text \<open>No two events of the two logs have different content and the same hash.\<close>

definition collision_free :: "policy_env \<Rightarrow> audit_row list \<Rightarrow> audit_row list \<Rightarrow> bool" where
  "collision_free env xs ys \<longleftrightarrow>
     (\<forall>x \<in> set xs. \<forall>y \<in> set ys. \<forall>d e. ev_data x = Some d \<longrightarrow> ev_data y = Some e \<longrightarrow>
        content_hash env (row_payload x d) = content_hash env (row_payload y e) \<longrightarrow>
        row_payload x d = row_payload y e)"

lemma opt_str_inject [simp]: "opt_str x = opt_str y \<longleftrightarrow> x = y"
  by (auto simp: opt_str_def split: option.splits)

lemma same_hash_same_row:
  fixes x y :: audit_row
  assumes "collision_free env [x] [y]" and "well_hashed env x" "well_hashed env y"
    and "ev_hash x = ev_hash y" and "ev_sequence x = ev_sequence y"
  shows "x = y"
  using assms by (cases x, cases y) (auto simp: well_hashed_def collision_free_def row_payload_def event_payload_def split: option.splits)

lemma chained_determined:
  assumes "chained env xs" "chained env ys" "length xs = length ys" "head_hash xs = head_hash ys"
    and "collision_free env xs ys"
  shows "xs = ys"
  using assms
proof (induction xs arbitrary: ys rule: rev_induct)
  case (snoc x xs)
  from snoc.prems(3) obtain zs y where ys: "ys = zs @ [y]" by (cases ys rule: rev_cases) auto
  have same: "x = y"
    using snoc.prems ys by (intro same_hash_same_row [of env]) (auto simp: chained_snoc collision_free_def)
  have "xs = zs"
    using snoc.prems ys same by (intro snoc.IH) (auto simp: chained_snoc collision_free_def)
  with same ys show ?case by simp
qed simp

text \<open>
  C21. Tampering is evident: when the verifier accepts two logs with the same answer, that is the same
  number of events and the same head hash, the logs are equal event by event, unless the digest maps
  two different events of them to the same value. So no past event can be changed, dropped or
  reordered without changing the head.
\<close>

theorem equal_heads_equal_logs:
  assumes "index (verify_audit_chain env db) ''valid'' = Inr (JBool True)"
    and "verify_audit_chain env db' = verify_audit_chain env db"
    and "collision_free env (audit db) (audit db')"
  shows "audit db' = audit db"
proof -
  have a: "verify_audit_chain env db = accepted (audit db)" "verify_audit_chain env db' = accepted (audit db')"
    using assms(1,2) verify_valid_iff_accepted [of env db] verify_valid_iff_accepted [of env db']
    by simp_all
  then have "accepted (audit db) = accepted (audit db')" using assms(2) by simp
  then have "length (audit db) = length (audit db')" "head_hash (audit db) = head_hash (audit db')"
    by (auto simp: accepted_def)
  with a assms(3) show ?thesis
    using chained_determined [of env "audit db" "audit db'"] by (auto simp: verify_accepts_iff)
qed

end
