(* ===== verification/Workflow.thy ===== *)
theory Workflow
  imports Audit_Log Tables
begin

text \<open>
  The supervised workflow service, \<open>workflow.py\<close>: assessment workflows, their tasks, the leases,
  checkpoints and receipts of the tasks.

  Rows are records with the columns of the tables of migrations 0018 and 0019, less the
  \<open>*_enabled\<close> columns, which are constantly 0 and never read. An UPDATE is a map over the rows, its
  row count the number of rows its WHERE clause selects; an INSERT is subject to the keys, unique
  constraints and CHECK constraints of the table. UPDATE statements are written without the CHECK
  constraints and triggers of the tables: that they respect them is a theorem.

  The argument \<open>now\<close> is the instant that \<open>_trusted_time\<close> reads (the caller's or the clock's); the lease
  token that \<open>claim_task\<close> draws from \<open>secrets\<close> is an argument.
\<close>

section \<open>Tables\<close>

record workflow_row =
  w_id :: string
  w_engagement :: string
  w_policy :: string
  w_key :: string
  w_status :: string
  w_version :: int
  w_created :: string
  w_updated :: string
  w_started :: "string option"
  w_finalized :: "string option"

record task_row =
  t_id :: string
  t_workflow :: string
  t_parent :: "string option"
  t_kind :: string
  t_state :: string
  t_key :: string
  t_refs :: json
  t_created :: string
  t_finalized :: "string option"

record lifecycle_row =
  l_task :: string
  l_state :: string
  l_version :: int
  l_attempts :: int
  l_max :: int
  l_next :: "string option"
  l_owner :: "string option"
  l_token_hash :: "string option"
  l_expires :: "string option"
  l_error :: "string option"
  l_updated :: string
  l_finalized :: "string option"

record checkpoint_row =
  c_id :: string
  c_task :: string
  c_version :: int
  c_sequence :: int
  c_progress :: int
  c_refs :: json
  c_created :: string

record receipt_row =
  r_id :: string
  r_task :: string
  r_operation :: string
  r_key :: string
  r_token_hash :: string
  r_result :: json
  r_created :: string

record workflow_db = core_db +
  workflows :: "workflow_row list"
  tasks :: "task_row list"
  lifecycles :: "lifecycle_row list"
  checkpoints :: "checkpoint_row list"
  receipts :: "receipt_row list"

section \<open>Helpers\<close>

abbreviation workflow_error :: "string \<Rightarrow> exn" where
  "workflow_error c \<equiv> CodedError ''WorkflowError'' c"

text \<open>An aware datetime: its wall clock time and its offset.\<close>

type_synonym moment = "int \<times> int"

definition trusted_time :: "datetime \<Rightarrow> moment result" where
  "trusted_time now =
     (case now of Naive _ \<Rightarrow> Inl (workflow_error ''WORKFLOW_CLOCK_INVALID'')
      | Aware loc off \<Rightarrow> Inr (loc, off))"

definition utc :: "moment \<Rightarrow> instant" where
  "utc m = fst m - snd m"

definition wf_timestamp :: "moment \<Rightarrow> string result" where
  "wf_timestamp m = mapr timestamp (to_utc (fst m) (snd m))"

text \<open>\<open>instant + timedelta(seconds=s)\<close>.\<close>

definition plus_seconds :: "moment \<Rightarrow> int \<Rightarrow> moment result" where
  "plus_seconds m s = mapr (\<lambda>loc. (loc, snd m)) (instant_add (fst m) (s * us_second))"

definition timestamp_after :: "moment \<Rightarrow> int \<Rightarrow> string result" where
  "timestamp_after m s = bindr (plus_seconds m s) wf_timestamp"

definition identity :: "string \<Rightarrow> string \<Rightarrow> unit result" where
  "identity v c = guardr (strip v = [] \<or> 128 < length v) (workflow_error c) (Inr ())"

definition is_key_char :: "char \<Rightarrow> bool" where
  "is_key_char c \<longleftrightarrow> is_alnum_char c \<or> c \<in> set ''_.:-''"

definition key_pattern :: "string \<Rightarrow> bool" where
  "key_pattern s \<longleftrightarrow> 16 \<le> length s \<and> length s \<le> 128 \<and> is_alnum_char (hd s) \<and> list_all is_key_char (tl s)"

definition check_key :: "string \<Rightarrow> unit result" where
  "check_key v = guardr (\<not> key_pattern v) (workflow_error ''WORKFLOW_IDEMPOTENCY_INVALID'') (Inr ())"

definition error_code_pattern :: "string \<Rightarrow> bool" where
  "error_code_pattern s \<longleftrightarrow> 3 \<le> length s \<and> length s \<le> 64 \<and> is_upper_char (hd s) \<and>
     list_all (\<lambda>c. is_upper_char c \<or> is_digit_char c \<or> c = CHR ''_'') (tl s)"

definition valid_document :: "policy_env \<Rightarrow> json \<Rightarrow> string \<Rightarrow> unit result" where
  "valid_document env doc schema =
     guardr (contract_issues env doc schema \<noteq> []) (workflow_error ''WORKFLOW_CONTRACT_INVALID'') (Inr ())"

definition token_hash :: "policy_env \<Rightarrow> string \<Rightarrow> string" where
  "token_hash env token = sha256_hex env token"

section \<open>Documents of rows\<close>

definition workflow_doc :: "workflow_row \<Rightarrow> json" where
  "workflow_doc w = JObj
     [(''schema_version'', JStr ''1.0.0''), (''workflow_id'', JStr (w_id w)),
      (''engagement_id'', JStr (w_engagement w)), (''policy_bundle_id'', JStr (w_policy w)),
      (''idempotency_key'', JStr (w_key w)), (''status'', JStr (w_status w)),
      (''version'', JInt (w_version w)), (''created_at'', JStr (w_created w)),
      (''updated_at'', JStr (w_updated w)), (''started_at'', opt_str (w_started w)),
      (''finalized_at'', opt_str (w_finalized w)), (''execution_enabled'', JBool False)]"

definition task_doc :: "task_row \<Rightarrow> json" where
  "task_doc t = JObj
     [(''schema_version'', JStr ''1.0.0''), (''task_id'', JStr (t_id t)),
      (''workflow_id'', JStr (t_workflow t)), (''parent_task_id'', opt_str (t_parent t)),
      (''task_kind'', JStr (t_kind t)), (''state'', JStr (t_state t)),
      (''idempotency_key'', JStr (t_key t)), (''input_refs'', t_refs t),
      (''created_at'', JStr (t_created t)), (''finalized_at'', opt_str (t_finalized t)),
      (''dispatch_enabled'', JBool False), (''external_effect_enabled'', JBool False)]"

definition validated_task :: "policy_env \<Rightarrow> task_row \<Rightarrow> json result" where
  "validated_task env t =
     bindr (valid_document env (task_doc t) ''workflow-task-v1.schema.json'') (\<lambda>_. Inr (task_doc t))"

definition lifecycle_doc :: "lifecycle_row \<Rightarrow> json" where
  "lifecycle_doc l = JObj
     [(''schema_version'', JStr ''1.0.0''), (''task_id'', JStr (l_task l)),
      (''state'', JStr (l_state l)), (''version'', JInt (l_version l)),
      (''attempt_count'', JInt (l_attempts l)), (''max_attempts'', JInt (l_max l)),
      (''next_attempt_at'', opt_str (l_next l)), (''lease_owner'', opt_str (l_owner l)),
      (''lease_expires_at'', opt_str (l_expires l)), (''last_error_code'', opt_str (l_error l)),
      (''updated_at'', JStr (l_updated l)), (''finalized_at'', opt_str (l_finalized l)),
      (''dispatch_enabled'', JBool False), (''external_effect_enabled'', JBool False)]"

definition validated_lifecycle :: "policy_env \<Rightarrow> lifecycle_row \<Rightarrow> json result" where
  "validated_lifecycle env l =
     bindr (valid_document env (lifecycle_doc l) ''workflow-task-lifecycle-v1.schema.json'')
       (\<lambda>_. Inr (lifecycle_doc l))"

definition checkpoint_doc :: "checkpoint_row \<Rightarrow> json" where
  "checkpoint_doc c = JObj
     [(''schema_version'', JStr ''1.0.0''), (''checkpoint_id'', JStr (c_id c)),
      (''task_id'', JStr (c_task c)), (''task_version'', JInt (c_version c)),
      (''sequence'', JInt (c_sequence c)), (''progress'', JInt (c_progress c)),
      (''output_refs'', c_refs c), (''created_at'', JStr (c_created c))]"

definition validated_checkpoint :: "policy_env \<Rightarrow> checkpoint_row \<Rightarrow> json result" where
  "validated_checkpoint env c =
     bindr (valid_document env (checkpoint_doc c) ''workflow-task-checkpoint-v1.schema.json'')
       (\<lambda>_. Inr (checkpoint_doc c))"

section \<open>Authority and leases\<close>

text \<open>The exceptions of \<open>except (TypeError, ValueError)\<close>.\<close>

definition is_format_error :: "exn \<Rightarrow> bool" where
  "is_format_error e \<longleftrightarrow> e = TypeError \<or> is_ValueError e"

text \<open>
  The row of the query: the engagement, its active bundle (LEFT JOIN) and the status of the safety
  state (CROSS JOIN). The result is the bundle's identifier.
\<close>

definition authority_inactive :: "'a core_db_scheme \<Rightarrow> string \<Rightarrow> moment \<Rightarrow> bool result" where
  "authority_inactive db engagement_id now =
     (case (find (\<lambda>e. e_id e = engagement_id) (engagements db), safety db) of
        (None, _) \<Rightarrow> Inr True
      | (_, []) \<Rightarrow> Inr True
      | (Some e, status # _) \<Rightarrow>
          (case e_policy e of None \<Rightarrow> Inr True
           | Some policy \<Rightarrow>
               let bundle = find (\<lambda>b. b_id b = policy) (bundles db) in
               if e_status e \<noteq> ''active'' \<or> Option.bind bundle b_activated = None \<or>
                  Option.bind bundle b_revoked \<noteq> None \<or> status \<noteq> ''active''
               then Inr True
               else mapr (\<lambda>t. t \<le> utc now) (parse_time_str (e_expires e))))"

definition active_authority :: "'a core_db_scheme \<Rightarrow> string \<Rightarrow> moment \<Rightarrow> string result" where
  "active_authority db engagement_id now =
     bindr (catchr (authority_inactive db engagement_id now)
              (\<lambda>e. if is_format_error e then Inr True else Inl e))
       (\<lambda>inactive. guardr inactive (workflow_error ''WORKFLOW_AUTHORITY_DENIED'')
          (case find (\<lambda>e. e_id e = engagement_id) (engagements db) of
             None \<Rightarrow> Inl TypeError
           | Some e \<Rightarrow> (case e_policy e of None \<Rightarrow> Inl TypeError | Some policy \<Rightarrow> Inr policy)))"

definition workflow_authority :: "'a workflow_db_scheme \<Rightarrow> workflow_row \<Rightarrow> moment \<Rightarrow> unit result" where
  "workflow_authority db w now =
     bindr (active_authority db (w_engagement w) now) (\<lambda>policy.
       guardr (policy \<noteq> w_policy w) (workflow_error ''WORKFLOW_AUTHORITY_STALE'') (Inr ()))"

definition find_workflow :: "'a workflow_db_scheme \<Rightarrow> string \<Rightarrow> workflow_row option" where
  "find_workflow db wid = find (\<lambda>w. w_id w = wid) (workflows db)"

definition find_task :: "'a workflow_db_scheme \<Rightarrow> string \<Rightarrow> task_row option" where
  "find_task db tid = find (\<lambda>t. t_id t = tid) (tasks db)"

definition find_lifecycle :: "'a workflow_db_scheme \<Rightarrow> string \<Rightarrow> lifecycle_row option" where
  "find_lifecycle db tid = find (\<lambda>l. l_task l = tid) (lifecycles db)"

text \<open>The join of a lifecycle with its task and its workflow; the keys make it at most one row.\<close>

definition task_authority :: "'a workflow_db_scheme \<Rightarrow> string \<Rightarrow> moment \<Rightarrow> lifecycle_row result" where
  "task_authority db task_id now =
     (case find_lifecycle db task_id of None \<Rightarrow> Inl (workflow_error ''WORKFLOW_TASK_NOT_FOUND'')
      | Some l \<Rightarrow>
     (case find_task db task_id of None \<Rightarrow> Inl (workflow_error ''WORKFLOW_TASK_NOT_FOUND'')
      | Some t \<Rightarrow>
     (case find_workflow db (t_workflow t) of None \<Rightarrow> Inl (workflow_error ''WORKFLOW_TASK_NOT_FOUND'')
      | Some w \<Rightarrow>
          guardr (w_status w \<noteq> ''running'') (workflow_error ''WORKFLOW_TASK_DENIED'')
            (bindr (workflow_authority db w now) (\<lambda>_. Inr l)))))"

definition leased_task ::
  "policy_env \<Rightarrow> 'a workflow_db_scheme \<Rightarrow> string \<Rightarrow> int \<Rightarrow> string \<Rightarrow> moment \<Rightarrow> lifecycle_row result" where
  "leased_task env db task_id expected_version lease_token now =
     guardr (length lease_token < 32 \<or> 128 < length lease_token) (workflow_error ''WORKFLOW_LEASE_INVALID'')
     (case find_lifecycle db task_id of None \<Rightarrow> Inl (workflow_error ''WORKFLOW_TASK_NOT_FOUND'')
      | Some l \<Rightarrow>
          guardr (l_version l \<noteq> expected_version) (workflow_error ''WORKFLOW_TASK_FENCED'')
         (guardr (l_state l \<noteq> ''leased'' \<or> l_token_hash l = None) (workflow_error ''WORKFLOW_LEASE_DENIED'')
         (guardr (l_token_hash l \<noteq> Some (token_hash env lease_token)) (workflow_error ''WORKFLOW_LEASE_DENIED'')
         (bindr (catchr (mapr (\<lambda>t. t \<le> utc now) (parse_time (opt_str (l_expires l))))
                   (\<lambda>e. if is_format_error e then Inl (workflow_error ''WORKFLOW_CONTRACT_INVALID'') else Inl e))
            (\<lambda>expired. guardr expired (workflow_error ''WORKFLOW_LEASE_EXPIRED'') (Inr l))))))"

section \<open>Workflows\<close>

definition event_args :: "string \<Rightarrow> string \<Rightarrow> string \<Rightarrow> string \<Rightarrow> string \<Rightarrow> dict \<Rightarrow> string \<Rightarrow> audit_args" where
  "event_args action stype subject actor_type actor data at_time =
     \<lparr>a_action = action, a_subject_type = stype, a_subject = subject, a_actor_type = actor_type,
      a_actor = actor, a_data = JObj data, a_at = at_time\<rparr>"

definition workflow_insert :: "workflow_row \<Rightarrow> 'a workflow_db_scheme \<Rightarrow> 'a workflow_db_scheme result" where
  "workflow_insert w db =
     guardr (list_ex (\<lambda>w'. w_id w' = w_id w \<or> (w_engagement w' = w_engagement w \<and> w_key w' = w_key w)) (workflows db))
       IntegrityError (Inr (db\<lparr>workflows := workflows db @ [w]\<rparr>))"

definition create_workflow ::
  "policy_env \<Rightarrow> string \<Rightarrow> string \<Rightarrow> string \<Rightarrow> datetime \<Rightarrow> 'a workflow_db_scheme \<Rightarrow>
   ('a workflow_db_scheme \<times> json) result" where
  "create_workflow env engagement_id idempotency_key actor_id now db =
     bindr (trusted_time now) (\<lambda>instant.
     bindr (identity actor_id ''WORKFLOW_ACTOR_REQUIRED'') (\<lambda>_.
     bindr (check_key idempotency_key) (\<lambda>_.
     bindr (wf_timestamp instant) (\<lambda>created_at.
     case find (\<lambda>w. w_engagement w = engagement_id \<and> w_key w = idempotency_key) (workflows db) of
       Some existing \<Rightarrow>
         bindr (valid_document env (workflow_doc existing) ''assessment-workflow-v1.schema.json'')
           (\<lambda>_. Inr (db, workflow_doc existing))
     | None \<Rightarrow>
         bindr (active_authority db engagement_id instant) (\<lambda>policy.
         let w = \<lparr>w_id = new_uuid db, w_engagement = engagement_id, w_policy = policy,
                  w_key = idempotency_key, w_status = ''planned'', w_version = 1,
                  w_created = created_at, w_updated = created_at, w_started = None, w_finalized = None\<rparr> in
         bindr (valid_document env (workflow_doc w) ''assessment-workflow-v1.schema.json'') (\<lambda>_.
         bindr (workflow_insert w (draw db)) (\<lambda>db.
         bindr (record_event env
           (event_args ''workflow.created'' ''assessment_workflow'' (w_id w) ''human'' actor_id
             [(''engagement_id'', JStr engagement_id), (''policy_bundle_id'', JStr policy),
              (''status'', JStr ''planned''), (''version'', JInt 1), (''execution_enabled'', JBool False)]
             created_at) db) (\<lambda>db.
         Inr (db, workflow_doc w)))))))))"

definition allowed_targets :: "string \<Rightarrow> string list" where
  "allowed_targets status =
     (if status = ''planned'' then [''ready'', ''cancelled'']
      else if status = ''ready'' then [''running'', ''cancelled'']
      else if status = ''running'' then [''paused'', ''completed'', ''cancelled'']
      else if status = ''paused'' then [''running'', ''cancelled'']
      else [])"

definition task_closed :: "string \<Rightarrow> bool" where
  "task_closed state \<longleftrightarrow> state \<in> set [''succeeded'', ''dead_letter'', ''cancelled'']"

definition workflow_tasks_of :: "'a workflow_db_scheme \<Rightarrow> string \<Rightarrow> string list" where
  "workflow_tasks_of db wid = map t_id (filter (\<lambda>t. t_workflow t = wid) (tasks db))"

text \<open>The number of lifecycles of the workflow that are not closed.\<close>

definition open_lifecycles :: "'a workflow_db_scheme \<Rightarrow> string \<Rightarrow> int" where
  "open_lifecycles db wid =
     row_count (\<lambda>l. l_task l \<in> set (workflow_tasks_of db wid) \<and> \<not> task_closed (l_state l)) (lifecycles db)"

definition cancel_row :: "string \<Rightarrow> task_row \<Rightarrow> task_row" where
  "cancel_row at_time t = t\<lparr>t_state := ''cancelled'', t_finalized := Some at_time\<rparr>"

definition cancel_lifecycle :: "string \<Rightarrow> lifecycle_row \<Rightarrow> lifecycle_row" where
  "cancel_lifecycle at_time l =
     l\<lparr>l_state := ''cancelled'', l_version := l_version l + 1, l_owner := None, l_token_hash := None,
       l_expires := None, l_next := None, l_updated := at_time, l_finalized := Some at_time\<rparr>"

text \<open>The two updates of a cancelled workflow; the count is that of the first.\<close>

definition cancel_workflow_tasks ::
  "string \<Rightarrow> string \<Rightarrow> 'a workflow_db_scheme \<Rightarrow> 'a workflow_db_scheme \<times> int" where
  "cancel_workflow_tasks wid at_time db =
     (let p = (\<lambda>t. t_workflow t = wid \<and> t_state t = ''queued'');
          q = (\<lambda>l. l_task l \<in> set (workflow_tasks_of db wid) \<and> \<not> task_closed (l_state l))
      in (db\<lparr>tasks := update_rows p (cancel_row at_time) (tasks db),
             lifecycles := update_rows q (cancel_lifecycle at_time) (lifecycles db)\<rparr>,
          row_count p (tasks db)))"

definition move_row ::
  "string \<Rightarrow> int \<Rightarrow> string \<Rightarrow> string option \<Rightarrow> string option \<Rightarrow> workflow_row \<Rightarrow> workflow_row" where
  "move_row status version updated_at started_at finalized_at w =
     w\<lparr>w_status := status, w_version := version, w_updated := updated_at, w_started := started_at,
       w_finalized := finalized_at\<rparr>"

definition transition ::
  "policy_env \<Rightarrow> string \<Rightarrow> string \<Rightarrow> int \<Rightarrow> string \<Rightarrow> string \<Rightarrow> datetime \<Rightarrow> 'a workflow_db_scheme \<Rightarrow>
   ('a workflow_db_scheme \<times> json) result" where
  "transition env workflow_id target expected_version actor_type actor_id now db =
     bindr (trusted_time now) (\<lambda>instant.
     bindr (identity actor_id ''WORKFLOW_ACTOR_REQUIRED'') (\<lambda>_.
     guardr (actor_type \<notin> set [''human'', ''service'']) (workflow_error ''WORKFLOW_ACTOR_INVALID'') (
     guardr (target = ''running'' \<and> actor_type \<noteq> ''human'') (workflow_error ''WORKFLOW_SUPERVISION_REQUIRED'') (
     bindr (wf_timestamp instant) (\<lambda>changed_at.
     case find_workflow db workflow_id of None \<Rightarrow> Inl (workflow_error ''WORKFLOW_NOT_FOUND'')
     | Some row \<Rightarrow>
     guardr (w_version row \<noteq> expected_version) (workflow_error ''WORKFLOW_FENCED'') (
     guardr (target \<notin> set (allowed_targets (w_status row))) (workflow_error ''WORKFLOW_TRANSITION_DENIED'') (
     bindr (if target \<in> set [''ready'', ''running'', ''completed''] then workflow_authority db row instant
            else Inr ()) (\<lambda>_.
     guardr (target = ''completed'' \<and> open_lifecycles db workflow_id \<noteq> 0)
       (workflow_error ''WORKFLOW_TRANSITION_DENIED'') (
     let version = expected_version + 1;
         started_at = (if target = ''running'' \<and> w_started row = None then Some changed_at else w_started row);
         finalized_at = (if target \<in> set [''completed'', ''cancelled''] then Some changed_at else None);
         selected = (\<lambda>w. w_id w = workflow_id \<and> w_version w = expected_version \<and> w_status w = w_status row);
         db1 = db\<lparr>workflows := update_rows selected
           (move_row target version changed_at started_at finalized_at) (workflows db)\<rparr> in
     guardr (row_count selected (workflows db) \<noteq> 1) (workflow_error ''WORKFLOW_FENCED'') (
     let (db2, cancelled_tasks) =
           (if target = ''cancelled'' then cancel_workflow_tasks workflow_id changed_at db1 else (db1, 0)) in
     case find_workflow db2 workflow_id of None \<Rightarrow> Inl AssertionError
     | Some current \<Rightarrow>
     bindr (valid_document env (workflow_doc current) ''assessment-workflow-v1.schema.json'') (\<lambda>_.
     bindr (record_event env
       (event_args ''workflow.transitioned'' ''assessment_workflow'' workflow_id actor_type actor_id
         [(''from_status'', JStr (w_status row)), (''to_status'', JStr target), (''version'', JInt version),
          (''cancelled_tasks'', JInt cancelled_tasks), (''execution_enabled'', JBool False)]
         changed_at) db2) (\<lambda>db.
     Inr (db, workflow_doc current)))))))))))))"

section \<open>Tasks\<close>

definition task_kinds :: "string list" where
  "task_kinds = [''manual_checkpoint'', ''supervised_action'', ''evidence_capture'', ''report_draft'']"

definition task_insert :: "task_row \<Rightarrow> 'a workflow_db_scheme \<Rightarrow> 'a workflow_db_scheme result" where
  "task_insert t db =
     guardr (list_ex (\<lambda>t'. t_id t' = t_id t \<or> (t_workflow t' = t_workflow t \<and> t_key t' = t_key t)) (tasks db))
       IntegrityError (Inr (db\<lparr>tasks := tasks db @ [t]\<rparr>))"

definition lifecycle_insert :: "lifecycle_row \<Rightarrow> 'a workflow_db_scheme \<Rightarrow> 'a workflow_db_scheme result" where
  "lifecycle_insert l db =
     guardr (list_ex (\<lambda>l'. l_task l' = l_task l) (lifecycles db)) IntegrityError
       (Inr (db\<lparr>lifecycles := lifecycles db @ [l]\<rparr>))"

definition fresh_lifecycle :: "string \<Rightarrow> string \<Rightarrow> lifecycle_row" where
  "fresh_lifecycle task_id created_at =
     \<lparr>l_task = task_id, l_state = ''queued'', l_version = 1, l_attempts = 0, l_max = 3, l_next = None,
      l_owner = None, l_token_hash = None, l_expires = None, l_error = None, l_updated = created_at,
      l_finalized = None\<rparr>"

definition enqueue ::
  "policy_env \<Rightarrow> string \<Rightarrow> string \<Rightarrow> string \<Rightarrow> string list \<Rightarrow> string option \<Rightarrow> string \<Rightarrow> datetime \<Rightarrow>
   'a workflow_db_scheme \<Rightarrow> ('a workflow_db_scheme \<times> json) result" where
  "enqueue env workflow_id task_kind idempotency_key input_refs parent_task_id actor_id now db =
     bindr (trusted_time now) (\<lambda>instant.
     bindr (identity actor_id ''WORKFLOW_ACTOR_REQUIRED'') (\<lambda>_.
     bindr (check_key idempotency_key) (\<lambda>_.
     guardr (task_kind \<notin> set task_kinds) (workflow_error ''WORKFLOW_TASK_INVALID'') (
     bindr (wf_timestamp instant) (\<lambda>created_at.
     case find_workflow db workflow_id of None \<Rightarrow> Inl (workflow_error ''WORKFLOW_TASK_DENIED'')
     | Some workflow \<Rightarrow>
     guardr (w_status workflow \<notin> set [''ready'', ''running'']) (workflow_error ''WORKFLOW_TASK_DENIED'') (
     bindr (workflow_authority db workflow instant) (\<lambda>_.
     case find (\<lambda>t. t_workflow t = workflow_id \<and> t_key t = idempotency_key) (tasks db) of
       Some existing \<Rightarrow>
         bindr (validated_task env existing) (\<lambda>document.
         guardr (t_kind existing \<noteq> task_kind \<or> t_parent existing \<noteq> parent_task_id \<or>
                 \<not> py_eq (t_refs existing) (JList (map JStr input_refs)))
           (workflow_error ''WORKFLOW_TASK_CONFLICT'') (Inr (db, document)))
     | None \<Rightarrow>
     guardr (case parent_task_id of None \<Rightarrow> False
             | Some p \<Rightarrow>
                 (case find (\<lambda>t. t_id t = p \<and> t_workflow t = workflow_id) (tasks db) of None \<Rightarrow> True
                  | Some parent \<Rightarrow> t_state parent = ''cancelled''))
       (workflow_error ''WORKFLOW_TASK_DENIED'') (
     let t = \<lparr>t_id = new_uuid db, t_workflow = workflow_id, t_parent = parent_task_id, t_kind = task_kind,
              t_state = ''queued'', t_key = idempotency_key, t_refs = JList (map JStr input_refs),
              t_created = created_at, t_finalized = None\<rparr> in
     bindr (valid_document env (task_doc t) ''workflow-task-v1.schema.json'') (\<lambda>_.
     bindr (task_insert t (draw db)) (\<lambda>db.
     bindr (lifecycle_insert (fresh_lifecycle (t_id t) created_at) db) (\<lambda>db.
     bindr (record_event env
       (event_args ''workflow.task_queued'' ''workflow_task'' (t_id t) ''human'' actor_id
         [(''workflow_id'', JStr workflow_id), (''task_kind'', JStr task_kind),
          (''dispatch_enabled'', JBool False), (''external_effect_enabled'', JBool False)] created_at) db) (\<lambda>db.
     Inr (db, task_doc t)))))))))))))"

definition cancel_task ::
  "policy_env \<Rightarrow> string \<Rightarrow> string \<Rightarrow> datetime \<Rightarrow> 'a workflow_db_scheme \<Rightarrow> ('a workflow_db_scheme \<times> json) result" where
  "cancel_task env task_id actor_id now db =
     bindr (trusted_time now) (\<lambda>instant.
     bindr (identity actor_id ''WORKFLOW_ACTOR_REQUIRED'') (\<lambda>_.
     bindr (wf_timestamp instant) (\<lambda>finalized_at.
     case find_task db task_id of None \<Rightarrow> Inl (workflow_error ''WORKFLOW_TASK_NOT_FOUND'')
     | Some row \<Rightarrow>
     guardr (t_state row \<noteq> ''queued'') (workflow_error ''WORKFLOW_TASK_FINALIZED'') (
     guardr (row_count (\<lambda>l. l_task l \<in> set (map t_id (filter (\<lambda>t. t_parent t = Some task_id) (tasks db))) \<and>
                            \<not> task_closed (l_state l)) (lifecycles db) \<noteq> 0)
       (workflow_error ''WORKFLOW_TASK_DENIED'') (
     let db1 = db\<lparr>tasks := update_rows (\<lambda>t. t_id t = task_id \<and> t_state t = ''queued'')
                             (cancel_row finalized_at) (tasks db)\<rparr> in
     case find_lifecycle db1 task_id of None \<Rightarrow> Inl (workflow_error ''WORKFLOW_TASK_FINALIZED'')
     | Some lifecycle \<Rightarrow>
     guardr (l_state lifecycle \<in> set [''succeeded'', ''dead_letter'']) (workflow_error ''WORKFLOW_TASK_FINALIZED'') (
     let db2 = db1\<lparr>lifecycles := update_rows (\<lambda>l. l_task l = task_id) (cancel_lifecycle finalized_at)
                                   (lifecycles db1)\<rparr> in
     case find_task db2 task_id of None \<Rightarrow> Inl AssertionError
     | Some current \<Rightarrow>
     bindr (validated_task env current) (\<lambda>document.
     bindr (record_event env
       (event_args ''workflow.task_cancelled'' ''workflow_task'' task_id ''human'' actor_id
         [(''workflow_id'', JStr (t_workflow row)), (''state'', JStr ''cancelled'')] finalized_at) db2) (\<lambda>db.
     Inr (db, document)))))))))"

section \<open>Leases\<close>

definition retry_due :: "string option \<Rightarrow> moment \<Rightarrow> unit result" where
  "retry_due next_attempt_at instant =
     (case next_attempt_at of None \<Rightarrow> Inr ()
      | Some next_at \<Rightarrow>
          bindr (catchr (parse_time_str next_at)
                   (\<lambda>e. if is_format_error e then Inl (workflow_error ''WORKFLOW_CONTRACT_INVALID'') else Inl e))
            (\<lambda>retry_at. guardr (utc instant < retry_at) (workflow_error ''WORKFLOW_TASK_NOT_READY'') (Inr ())))"

definition claim_row :: "int \<Rightarrow> string \<Rightarrow> string \<Rightarrow> string \<Rightarrow> string \<Rightarrow> lifecycle_row \<Rightarrow> lifecycle_row" where
  "claim_row version owner hash expires_at claimed_at l =
     l\<lparr>l_state := ''leased'', l_version := version, l_attempts := l_attempts l + 1, l_next := None,
       l_owner := Some owner, l_token_hash := Some hash, l_expires := Some expires_at, l_error := None,
       l_updated := claimed_at\<rparr>"

definition claim_task ::
  "policy_env \<Rightarrow> string \<Rightarrow> string \<Rightarrow> int \<Rightarrow> string \<Rightarrow> int \<Rightarrow> datetime \<Rightarrow> 'a workflow_db_scheme \<Rightarrow>
   ('a workflow_db_scheme \<times> json) result" where
  "claim_task env token task_id expected_version lease_owner lease_seconds now db =
     bindr (trusted_time now) (\<lambda>instant.
     bindr (identity lease_owner ''WORKFLOW_LEASE_OWNER_REQUIRED'') (\<lambda>_.
     guardr (\<not> (5 \<le> lease_seconds \<and> lease_seconds \<le> 300)) (workflow_error ''WORKFLOW_LEASE_INVALID'') (
     bindr (wf_timestamp instant) (\<lambda>claimed_at.
     bindr (timestamp_after instant lease_seconds) (\<lambda>expires_at.
     bindr (task_authority db task_id instant) (\<lambda>row.
     guardr (l_version row \<noteq> expected_version) (workflow_error ''WORKFLOW_TASK_FENCED'') (
     guardr (l_state row \<notin> set [''queued'', ''retry_wait'']) (workflow_error ''WORKFLOW_TASK_DENIED'') (
     bindr (retry_due (l_next row) instant) (\<lambda>_.
     guardr (l_max row \<le> l_attempts row) (workflow_error ''WORKFLOW_TASK_EXHAUSTED'') (
     let version = expected_version + 1;
         selected = (\<lambda>l. l_task l = task_id \<and> l_version l = expected_version \<and>
                         l_state l \<in> set [''queued'', ''retry_wait'']);
         db1 = db\<lparr>lifecycles := update_rows selected
           (claim_row version lease_owner (token_hash env token) expires_at claimed_at) (lifecycles db)\<rparr>;
         lease = JObj
           [(''schema_version'', JStr ''1.0.0''), (''task_id'', JStr task_id), (''task_version'', JInt version),
            (''lease_owner'', JStr lease_owner), (''lease_token'', JStr token),
            (''lease_expires_at'', JStr expires_at), (''attempt_count'', JInt (l_attempts row + 1)),
            (''dispatch_enabled'', JBool False), (''external_effect_enabled'', JBool False)] in
     guardr (row_count selected (lifecycles db) \<noteq> 1) (workflow_error ''WORKFLOW_TASK_FENCED'') (
     bindr (valid_document env lease ''workflow-task-lease-v1.schema.json'') (\<lambda>_.
     bindr (record_event env
       (event_args ''workflow.task_claimed'' ''workflow_task'' task_id ''service'' lease_owner
         [(''task_version'', JInt version), (''attempt_count'', JInt (l_attempts row + 1)),
          (''lease_expires_at'', JStr expires_at), (''dispatch_enabled'', JBool False),
          (''external_effect_enabled'', JBool False)] claimed_at) db1) (\<lambda>db.
     Inr (db, lease))))))))))))))"

text \<open>The UPDATE of a held lease: \<open>WHERE task_id = ? AND version = ? AND state = 'leased'\<close>.\<close>

definition update_lease ::
  "string \<Rightarrow> int \<Rightarrow> (lifecycle_row \<Rightarrow> lifecycle_row) \<Rightarrow> 'a workflow_db_scheme \<Rightarrow> 'a workflow_db_scheme" where
  "update_lease task_id version f db =
     db\<lparr>lifecycles := update_rows
        (\<lambda>l. l_task l = task_id \<and> l_version l = version \<and> l_state l = ''leased'') f (lifecycles db)\<rparr>"

definition lease_actor :: "lifecycle_row \<Rightarrow> string" where
  "lease_actor l = (case l_owner l of None \<Rightarrow> ''None'' | Some s \<Rightarrow> s)"

definition heartbeat_task ::
  "policy_env \<Rightarrow> string \<Rightarrow> int \<Rightarrow> string \<Rightarrow> int \<Rightarrow> datetime \<Rightarrow> 'a workflow_db_scheme \<Rightarrow>
   ('a workflow_db_scheme \<times> json) result" where
  "heartbeat_task env task_id expected_version lease_token lease_seconds now db =
     bindr (trusted_time now) (\<lambda>instant.
     guardr (\<not> (5 \<le> lease_seconds \<and> lease_seconds \<le> 300)) (workflow_error ''WORKFLOW_LEASE_INVALID'') (
     bindr (wf_timestamp instant) (\<lambda>changed_at.
     bindr (timestamp_after instant lease_seconds) (\<lambda>expires_at.
     bindr (leased_task env db task_id expected_version lease_token instant) (\<lambda>row.
     bindr (task_authority db task_id instant) (\<lambda>_.
     let version = expected_version + 1;
         db1 = update_lease task_id expected_version
           (\<lambda>l. l\<lparr>l_version := version, l_expires := Some expires_at, l_updated := changed_at\<rparr>) db in
     bindr (record_event env
       (event_args ''workflow.task_heartbeat'' ''workflow_task'' task_id ''service'' (lease_actor row)
         [(''task_version'', JInt version), (''lease_expires_at'', JStr expires_at)] changed_at) db1) (\<lambda>db.
     case find_lifecycle db task_id of None \<Rightarrow> Inl AssertionError
     | Some current \<Rightarrow> mapr (\<lambda>doc. (db, doc)) (validated_lifecycle env current))))))))"

definition task_checkpoints :: "'a workflow_db_scheme \<Rightarrow> string \<Rightarrow> checkpoint_row list" where
  "task_checkpoints db task_id = sort_key c_sequence (filter (\<lambda>c. c_task c = task_id) (checkpoints db))"

text \<open>Primary key, \<open>UNIQUE(task_id, sequence)\<close> and the CHECK constraints of the columns.\<close>

definition checkpoint_insert :: "checkpoint_row \<Rightarrow> 'a workflow_db_scheme \<Rightarrow> 'a workflow_db_scheme result" where
  "checkpoint_insert c db =
     guardr (list_ex (\<lambda>c'. c_id c' = c_id c \<or> (c_task c' = c_task c \<and> c_sequence c' = c_sequence c)) (checkpoints db) \<or>
             c_version c < 1 \<or> c_sequence c < 1 \<or> c_progress c < 0 \<or> 100 < c_progress c)
       IntegrityError (Inr (db\<lparr>checkpoints := checkpoints db @ [c]\<rparr>))"

definition checkpoint_task ::
  "policy_env \<Rightarrow> string \<Rightarrow> int \<Rightarrow> string \<Rightarrow> int \<Rightarrow> string list \<Rightarrow> datetime \<Rightarrow> 'a workflow_db_scheme \<Rightarrow>
   ('a workflow_db_scheme \<times> json) result" where
  "checkpoint_task env task_id expected_version lease_token progress output_refs now db =
     bindr (trusted_time now) (\<lambda>instant.
     bindr (wf_timestamp instant) (\<lambda>created_at.
     bindr (leased_task env db task_id expected_version lease_token instant) (\<lambda>row.
     bindr (task_authority db task_id instant) (\<lambda>_.
     let history = task_checkpoints db task_id;
         sequence = (if history = [] then 0 else c_sequence (last history)) + 1 in
     guardr (history \<noteq> [] \<and> progress < c_progress (last history)) (workflow_error ''WORKFLOW_CHECKPOINT_INVALID'') (
     let version = expected_version + 1;
         c = \<lparr>c_id = new_uuid db, c_task = task_id, c_version = version, c_sequence = sequence,
              c_progress = progress, c_refs = JList (map JStr output_refs), c_created = created_at\<rparr> in
     bindr (valid_document env (checkpoint_doc c) ''workflow-task-checkpoint-v1.schema.json'') (\<lambda>_.
     bindr (checkpoint_insert c (draw db)) (\<lambda>db.
     let db1 = update_lease task_id expected_version (\<lambda>l. l\<lparr>l_version := version, l_updated := created_at\<rparr>) db in
     bindr (record_event env
       (event_args ''workflow.task_checkpointed'' ''workflow_task'' task_id ''service'' (lease_actor row)
         [(''task_version'', JInt version), (''sequence'', JInt sequence), (''progress'', JInt progress)]
         created_at) db1) (\<lambda>db.
     Inr (db, checkpoint_doc c)))))))))"

definition find_receipt :: "'a workflow_db_scheme \<Rightarrow> string \<Rightarrow> string \<Rightarrow> string \<Rightarrow> receipt_row option" where
  "find_receipt db task_id operation key =
     find (\<lambda>r. r_task r = task_id \<and> r_operation r = operation \<and> r_key r = key) (receipts db)"

definition receipt_insert :: "receipt_row \<Rightarrow> 'a workflow_db_scheme \<Rightarrow> 'a workflow_db_scheme result" where
  "receipt_insert r db =
     guardr (list_ex (\<lambda>r'. r_id r' = r_id r \<or>
               (r_task r' = r_task r \<and> r_operation r' = r_operation r \<and> r_key r' = r_key r)) (receipts db))
       IntegrityError (Inr (db\<lparr>receipts := receipts db @ [r]\<rparr>))"

definition settle_row ::
  "string \<Rightarrow> int \<Rightarrow> string option \<Rightarrow> string option \<Rightarrow> string \<Rightarrow> string option \<Rightarrow> lifecycle_row \<Rightarrow> lifecycle_row" where
  "settle_row state version next_attempt_at error_code changed_at finalized_at l =
     l\<lparr>l_state := state, l_version := version, l_next := next_attempt_at, l_owner := None,
       l_token_hash := None, l_expires := None, l_error := error_code, l_updated := changed_at,
       l_finalized := finalized_at\<rparr>"

text \<open>The state, the next attempt and the time of finalization after \<open>complete\<close> or \<open>fail\<close>.\<close>

definition settlement ::
  "string \<Rightarrow> bool \<Rightarrow> moment \<Rightarrow> string \<Rightarrow> int \<Rightarrow> (string \<times> string option \<times> string option) result" where
  "settlement operation exhausted instant changed_at retry_delay_seconds =
     (if operation = ''complete'' then Inr (''succeeded'', None, Some changed_at)
      else if exhausted then Inr (''dead_letter'', None, Some changed_at)
      else mapr (\<lambda>t. (''retry_wait'', Some t, None))
             (timestamp_after instant retry_delay_seconds))"

definition finalize_task ::
  "policy_env \<Rightarrow> string \<Rightarrow> string \<Rightarrow> int \<Rightarrow> string \<Rightarrow> string \<Rightarrow> string option \<Rightarrow> int \<Rightarrow> datetime \<Rightarrow>
   'a workflow_db_scheme \<Rightarrow> ('a workflow_db_scheme \<times> json) result" where
  "finalize_task env task_id operation expected_version lease_token idempotency_key error_code
     retry_delay_seconds now db =
     bindr (trusted_time now) (\<lambda>instant.
     bindr (check_key idempotency_key) (\<lambda>_.
     guardr (operation \<notin> set [''complete'', ''fail'']) (workflow_error ''WORKFLOW_TASK_OPERATION_INVALID'') (
     guardr (operation = ''complete'' \<and> error_code \<noteq> None) (workflow_error ''WORKFLOW_TASK_OPERATION_INVALID'') (
     guardr (operation = ''fail'' \<and> error_code \<in> {None, Some []}) (workflow_error ''WORKFLOW_TASK_OPERATION_INVALID'') (
     guardr (case error_code of None \<Rightarrow> False | Some c \<Rightarrow> \<not> error_code_pattern c)
       (workflow_error ''WORKFLOW_TASK_OPERATION_INVALID'') (
     guardr (\<not> (0 \<le> retry_delay_seconds \<and> retry_delay_seconds \<le> 3600))
       (workflow_error ''WORKFLOW_TASK_OPERATION_INVALID'') (
     bindr (wf_timestamp instant) (\<lambda>changed_at.
     case find_receipt db task_id operation idempotency_key of
       Some receipt \<Rightarrow>
         guardr (r_token_hash receipt \<noteq> token_hash env lease_token) (workflow_error ''WORKFLOW_TASK_CONFLICT'')
           (Inr (db, r_result receipt))
     | None \<Rightarrow>
     bindr (leased_task env db task_id expected_version lease_token instant) (\<lambda>row.
     bindr (task_authority db task_id instant) (\<lambda>_.
     bindr (settlement operation (l_max row \<le> l_attempts row) instant changed_at retry_delay_seconds)
       (\<lambda>(state, next_attempt_at, finalized_at).
     let version = expected_version + 1;
         db1 = update_lease task_id expected_version
           (settle_row state version next_attempt_at error_code changed_at finalized_at) db in
     case find_lifecycle db1 task_id of None \<Rightarrow> Inl AssertionError
     | Some current \<Rightarrow>
     bindr (validated_lifecycle env current) (\<lambda>result.
     bindr (receipt_insert
       \<lparr>r_id = new_uuid db1, r_task = task_id, r_operation = operation, r_key = idempotency_key,
        r_token_hash = token_hash env lease_token, r_result = result, r_created = changed_at\<rparr> (draw db1)) (\<lambda>db2.
     bindr (record_event env
       (event_args (''workflow.task_'' @ state) ''workflow_task'' task_id ''service'' (lease_actor row)
         [(''task_version'', JInt version), (''state'', JStr state), (''attempt_count'', JInt (l_attempts row)),
          (''error_code'', opt_str error_code), (''next_attempt_at'', opt_str next_attempt_at)] changed_at) db2) (\<lambda>db.
     Inr (db, result)))))))))))))))"

section \<open>Reading and recovery\<close>

definition get_workflow :: "policy_env \<Rightarrow> string \<Rightarrow> 'a workflow_db_scheme \<Rightarrow> json result" where
  "get_workflow env workflow_id db =
     (case find_workflow db workflow_id of None \<Rightarrow> Inl (workflow_error ''WORKFLOW_NOT_FOUND'')
      | Some row \<Rightarrow>
          let own = sort_key t_created (sort_key t_id (filter (\<lambda>t. t_workflow t = workflow_id) (tasks db))) in
          bindr (valid_document env (workflow_doc row) ''assessment-workflow-v1.schema.json'') (\<lambda>_.
          bindr (traverse (validated_task env) own) (\<lambda>task_docs.
          bindr (traverse (validated_lifecycle env)
                   (concat (map (\<lambda>t. filter (\<lambda>l. l_task l = t_id t) (lifecycles db)) own))) (\<lambda>lifecycle_docs.
          bindr (traverse (validated_checkpoint env)
                   (sort_key c_task (sort_key c_sequence
                      (filter (\<lambda>c. c_task c \<in> set (workflow_tasks_of db workflow_id)) (checkpoints db))))) (\<lambda>checkpoint_docs.
          Inr (JObj [(''workflow'', workflow_doc row), (''tasks'', JList task_docs),
                     (''task_lifecycles'', JList lifecycle_docs), (''checkpoints'', JList checkpoint_docs)]))))))"

definition recover_lease ::
  "policy_env \<Rightarrow> string \<Rightarrow> 'a workflow_db_scheme \<Rightarrow> lifecycle_row \<Rightarrow> 'a workflow_db_scheme result" where
  "recover_lease env recovered_at db lease =
     (let exhausted = l_max lease \<le> l_attempts lease;
          state = (if exhausted then ''dead_letter'' else ''retry_wait'');
          finalized_at = (if exhausted then Some recovered_at else None);
          next_attempt_at = (if exhausted then None else Some recovered_at)
      in record_event env
           (event_args ''workflow.task_lease_recovered'' ''workflow_task'' (l_task lease) ''service'' ''startup-recovery''
             [(''from_state'', JStr ''leased''), (''to_state'', JStr state),
              (''task_version'', JInt (l_version lease + 1)), (''automatic_claim'', JBool False)] recovered_at)
           (update_lease (l_task lease) (l_version lease)
             (\<lambda>l. settle_row state (l_version l + 1) next_attempt_at (Some ''LEASE_RECOVERED'') recovered_at
                    finalized_at l) db))"

definition recover_workflow ::
  "policy_env \<Rightarrow> string \<Rightarrow> 'a workflow_db_scheme \<Rightarrow> workflow_row \<Rightarrow> 'a workflow_db_scheme result" where
  "recover_workflow env recovered_at db row =
     record_event env
       (event_args ''workflow.recovered_paused'' ''assessment_workflow'' (w_id row) ''service'' ''startup-recovery''
         [(''from_status'', JStr ''running''), (''to_status'', JStr ''paused''), (''version'', JInt (w_version row + 1)),
          (''automatic_resume'', JBool False), (''execution_enabled'', JBool False)] recovered_at)
       (db\<lparr>workflows := update_rows
          (\<lambda>w. w_id w = w_id row \<and> w_status w = ''running'' \<and> w_version w = w_version row)
          (\<lambda>w. move_row ''paused'' (w_version row + 1) recovered_at (w_started w) None w) (workflows db)\<rparr>)"

definition recover_startup ::
  "policy_env \<Rightarrow> datetime \<Rightarrow> 'a workflow_db_scheme \<Rightarrow> ('a workflow_db_scheme \<times> int) result" where
  "recover_startup env now db =
     bindr (trusted_time now) (\<lambda>instant.
     bindr (wf_timestamp instant) (\<lambda>recovered_at.
     bindr (foldr_result (recover_lease env recovered_at) db
              (filter (\<lambda>l. l_state l = ''leased'') (lifecycles db))) (\<lambda>db.
     let rows = filter (\<lambda>w. w_status w = ''running'') (workflows db) in
     bindr (foldr_result (recover_workflow env recovered_at) db rows) (\<lambda>db.
     Inr (db, int (length rows))))))"

end
