(* ===== verification/Workflow_Safety.thy ===== *)
theory Workflow_Safety
  imports Workflow
begin

text \<open>
  What the workflow service guarantees on every history of its operations, interleaved with any
  activity of other services on the shared tables: the schema's CHECK constraints and triggers are
  never violated by its UPDATE statements, versions fence concurrent writers, closed rows are final,
  leases are exclusive and bounded, and the audit log only grows and stays chained.
\<close>


section \<open>What each operation does when it succeeds\<close>

lemma record_event_tables:
  assumes "record_event env a (db :: 'a workflow_db_scheme) = Inr db'"
  shows "extends_log env db db'" "workflows db' = workflows db" "tasks db' = tasks db"
    "lifecycles db' = lifecycles db" "checkpoints db' = checkpoints db" "receipts db' = receipts db"
  by (rule record_event_extends [OF assms], (rule record_eventE [OF assms], simp)+)

lemma extends_log_fields [simp]:
  "extends_log env (db\<lparr>workflows := ws\<rparr>) db' \<longleftrightarrow> extends_log env db db'"
  "extends_log env (db\<lparr>tasks := ts\<rparr>) db' \<longleftrightarrow> extends_log env db db'"
  "extends_log env (db\<lparr>lifecycles := ls\<rparr>) db' \<longleftrightarrow> extends_log env db db'"
  "extends_log env (db\<lparr>checkpoints := cs\<rparr>) db' \<longleftrightarrow> extends_log env db db'"
  "extends_log env (db\<lparr>receipts := rs\<rparr>) db' \<longleftrightarrow> extends_log env db db'"
  "extends_log env (draw db) db' \<longleftrightarrow> extends_log env db db'"
  by (simp_all add: extends_log_def draw_def)

lemma draw_tables [simp]:
  "workflows (draw db) = workflows db" "tasks (draw db) = tasks db" "lifecycles (draw db) = lifecycles db"
  "checkpoints (draw db) = checkpoints db" "receipts (draw db) = receipts db" "uuid4 (draw db) = uuid4 db"
  "audit (draw db) = audit db" "engagements (draw db) = engagements db" "bundles (draw db) = bundles db"
  "safety (draw db) = safety db"
  by (simp_all add: draw_def)

text \<open>The tables that an operation leaves alone.\<close>

definition frame :: "policy_env \<Rightarrow> 'a workflow_db_scheme \<Rightarrow> 'a workflow_db_scheme \<Rightarrow> bool" where
  "frame env db db' \<longleftrightarrow> extends_log env db db' \<and> workflows db' = workflows db \<and> tasks db' = tasks db"

lemma retry_dueD: "retry_due (Some s) m = Inr u \<Longrightarrow> \<exists>t. parse_time_str s = Inr t \<and> t \<le> utc m"
  by (auto simp: retry_due_def bindr_eq_Inr guardr_eq_Inr catchr_eq_Inr split: if_splits)

lemma claim_taskE:
  assumes "claim_task env token task_id v owner secs now db = Inr (db', lease)"
  obtains m at_time expires_at l where "trusted_time now = Inr m" and "wf_timestamp m = Inr at_time"
    and "timestamp_after m secs = Inr expires_at" and "\<not> \<not> (5 \<le> secs \<and> secs \<le> 300)"
    and "task_authority db task_id m = Inr l" and "l_version l = v"
    and "l_state l \<in> set [''queued'', ''retry_wait'']" and "l_attempts l < l_max l"
    and "retry_due (l_next l) m = Inr ()" and "frame env db db'"
    and "lifecycles db' = update_rows
           (\<lambda>l. l_task l = task_id \<and> l_version l = v \<and> l_state l \<in> set [''queued'', ''retry_wait''])
           (claim_row (v + 1) owner (token_hash env token) expires_at at_time) (lifecycles db)"
    and "checkpoints db' = checkpoints db" "receipts db' = receipts db"
  using assms unfolding claim_task_def Let_def
  by (elim bindrE guardrE)
    (rule that, assumption, assumption, assumption, assumption, assumption,
      simp_all add: frame_def, auto dest: record_event_tables)


lemma update_lease_fields [simp]:
  "workflows (update_lease i v f db) = workflows db" "tasks (update_lease i v f db) = tasks db"
  "checkpoints (update_lease i v f db) = checkpoints db" "receipts (update_lease i v f db) = receipts db"
  "lifecycles (update_lease i v f db) =
     update_rows (\<lambda>l. l_task l = i \<and> l_version l = v \<and> l_state l = ''leased'') f (lifecycles db)"
  "extends_log env (update_lease i v f db) db' \<longleftrightarrow> extends_log env db db'"
  "uuid4 (update_lease i v f db) = uuid4 db" "drawn (update_lease i v f db) = drawn db"
  by (simp_all add: update_lease_def)

lemma heartbeat_taskE:
  assumes "heartbeat_task env task_id v token secs now db = Inr (db', doc)"
  obtains m at_time expires_at l l' where "trusted_time now = Inr m" and "wf_timestamp m = Inr at_time"
    and "timestamp_after m secs = Inr expires_at" and "\<not> \<not> (5 \<le> secs \<and> secs \<le> 300)"
    and "leased_task env db task_id v token m = Inr l" and "task_authority db task_id m = Inr l'"
    and "frame env db db'"
    and "lifecycles db' = update_rows (\<lambda>l. l_task l = task_id \<and> l_version l = v \<and> l_state l = ''leased'')
           (\<lambda>l. l\<lparr>l_version := v + 1, l_expires := Some expires_at, l_updated := at_time\<rparr>) (lifecycles db)"
    and "checkpoints db' = checkpoints db" "receipts db' = receipts db"
proof -
  from assms obtain m at_time expires_at l l' db1 a where
    1: "trusted_time now = Inr m" "wf_timestamp m = Inr at_time" "timestamp_after m secs = Inr expires_at"
      "\<not> \<not> (5 \<le> secs \<and> secs \<le> 300)" "leased_task env db task_id v token m = Inr l"
      "task_authority db task_id m = Inr l'" and
    2: "record_event env a (update_lease task_id v
          (\<lambda>l. l\<lparr>l_version := v + 1, l_expires := Some expires_at, l_updated := at_time\<rparr>) db) = Inr db1" and
    3: "(case find_lifecycle db1 task_id of None \<Rightarrow> Inl AssertionError
         | Some current \<Rightarrow> mapr (\<lambda>doc. (db1, doc)) (validated_lifecycle env current)) = Inr (db', doc)"
    unfolding heartbeat_task_def Let_def by (elim bindrE guardrE)
  from 3 have "db1 = db'" by (auto simp: mapr_eq_Inr split: option.splits)
  with record_event_tables [OF 2] show ?thesis
    by (intro that [OF 1]) (simp_all add: frame_def)
qed

lemma checkpoint_insertE:
  assumes "checkpoint_insert c db = Inr db'"
  obtains "db' = db\<lparr>checkpoints := checkpoints db @ [c]\<rparr>" and "0 \<le> c_progress c" and "c_progress c \<le> 100"
    and "1 \<le> c_sequence c" and "c_id c \<notin> c_id ` set (checkpoints db)"
  using assms by (fastforce simp: checkpoint_insert_def guardr_eq_Inr list_ex_iff)

lemma checkpoint_taskE:
  assumes "checkpoint_task env task_id v token progress refs now db = Inr (db', doc)"
  obtains m at_time l l' c where "trusted_time now = Inr m" and "wf_timestamp m = Inr at_time"
    and "leased_task env db task_id v token m = Inr l" and "task_authority db task_id m = Inr l'"
    and "frame env db db'"
    and "lifecycles db' = update_rows (\<lambda>l. l_task l = task_id \<and> l_version l = v \<and> l_state l = ''leased'')
           (\<lambda>l. l\<lparr>l_version := v + 1, l_updated := at_time\<rparr>) (lifecycles db)"
    and "checkpoints db' = checkpoints db @ [c]" and "receipts db' = receipts db"
    and "c_task c = task_id" and "c_progress c = progress" and "0 \<le> progress" and "progress \<le> 100"
    and "c_sequence c = (if task_checkpoints db task_id = [] then 0
           else c_sequence (last (task_checkpoints db task_id))) + 1"
    and "task_checkpoints db task_id = [] \<or> c_progress (last (task_checkpoints db task_id)) \<le> progress"
proof -
  let ?c = "\<lambda>at_time. \<lparr>c_id = new_uuid db, c_task = task_id, c_version = v + 1,
          c_sequence = (if task_checkpoints db task_id = [] then 0 else c_sequence (last (task_checkpoints db task_id))) + 1,
          c_progress = progress, c_refs = JList (map JStr refs), c_created = at_time\<rparr>"
  from assms obtain m at_time l l' a db1 db2 where
    1: "trusted_time now = Inr m" "wf_timestamp m = Inr at_time" "leased_task env db task_id v token m = Inr l"
      "task_authority db task_id m = Inr l'" and
    5: "\<not> (task_checkpoints db task_id \<noteq> [] \<and> progress < c_progress (last (task_checkpoints db task_id)))" and
    3: "checkpoint_insert (?c at_time) (draw db) = Inr db1" and
    2: "record_event env a (update_lease task_id v (\<lambda>l. l\<lparr>l_version := v + 1, l_updated := at_time\<rparr>) db1) = Inr db2" and
    6: "Inr (db2, checkpoint_doc (?c at_time)) = Inr (db', doc)"
    unfolding checkpoint_task_def Let_def by (elim bindrE guardrE) blast
  from 3 have b: "db1 = (draw db)\<lparr>checkpoints := checkpoints db @ [?c at_time]\<rparr>" "0 \<le> progress" "progress \<le> 100"
    by (auto elim: checkpoint_insertE)
  show ?thesis
    using record_event_tables [OF 2] 5 6 b by (intro that [OF 1, of "?c at_time"]) (simp_all add: frame_def not_less)
qed

lemma receipt_insertE:
  assumes "receipt_insert r db = Inr db'"
  obtains "db' = db\<lparr>receipts := receipts db @ [r]\<rparr>"
  using assms by (auto simp: receipt_insert_def guardr_eq_Inr)

lemma settlementE:
  assumes "settlement op ex m at_time delay = Inr (s, n, f)"
  obtains "s = ''succeeded''" "n = None" "f = Some at_time" "op = ''complete''"
  | "s = ''dead_letter''" "n = None" "f = Some at_time" "ex" "op \<noteq> ''complete''"
  | t where "s = ''retry_wait''" "n = Some t" "f = None" "\<not> ex" "timestamp_after m delay = Inr t" "op \<noteq> ''complete''"
  using assms by (auto simp: settlement_def mapr_eq_Inr split: if_splits)

lemma finalize_taskE:
  assumes "finalize_task env task_id op v token key err delay now db = Inr (db', doc)"
  obtains (replay) r where "find_receipt db task_id op key = Some r" and "db' = db" and "doc = r_result r"
    and "r_token_hash r = token_hash env token"
  | (settled) m at_time l l' s n f r where "trusted_time now = Inr m" and "wf_timestamp m = Inr at_time"
    and "leased_task env db task_id v token m = Inr l" and "task_authority db task_id m = Inr l'"
    and "settlement op (l_max l \<le> l_attempts l) m at_time delay = Inr (s, n, f)"
    and "op \<in> set [''complete'', ''fail'']" and "find_receipt db task_id op key = None"
    and "frame env db db'"
    and "lifecycles db' = update_rows (\<lambda>l. l_task l = task_id \<and> l_version l = v \<and> l_state l = ''leased'')
           (settle_row s (v + 1) n err at_time f) (lifecycles db)"
    and "checkpoints db' = checkpoints db" and "receipts db' = receipts db @ [r]"
    and "r_task r = task_id" "r_operation r = op" "r_key r = key" "r_token_hash r = token_hash env token"
    "r_result r = doc"
proof (cases "find_receipt db task_id op key")
  case None
  from assms None obtain m at_time l l' x where
    1: "trusted_time now = Inr m" "wf_timestamp m = Inr at_time" "leased_task env db task_id v token m = Inr l"
      "task_authority db task_id m = Inr l'" and
    2: "\<not> op \<notin> set [''complete'', ''fail'']" "settlement op (l_max l \<le> l_attempts l) m at_time delay = Inr x" and
    3: "(case x of (state, next_attempt_at, finalized_at) \<Rightarrow>
     case find_lifecycle (update_lease task_id v (settle_row state (v + 1) next_attempt_at err at_time finalized_at) db) task_id
       of None \<Rightarrow> Inl AssertionError
     | Some current \<Rightarrow>
     bindr (validated_lifecycle env current) (\<lambda>result.
     bindr (receipt_insert
       \<lparr>r_id = new_uuid (update_lease task_id v (settle_row state (v + 1) next_attempt_at err at_time finalized_at) db),
        r_task = task_id, r_operation = op, r_key = key,
        r_token_hash = token_hash env token, r_result = result, r_created = at_time\<rparr>
        (draw (update_lease task_id v (settle_row state (v + 1) next_attempt_at err at_time finalized_at) db))) (\<lambda>db2.
     bindr (record_event env
       (event_args (''workflow.task_'' @ state) ''workflow_task'' task_id ''service'' (lease_actor l)
         [(''task_version'', JInt (v + 1)), (''state'', JStr state), (''attempt_count'', JInt (l_attempts l)),
          (''error_code'', opt_str err), (''next_attempt_at'', opt_str next_attempt_at)] at_time) db2) (\<lambda>db.
     Inr (db, result))))) = Inr (db', doc)"
    unfolding finalize_task_def Let_def
    by (simp only: option.case None) (elim bindrE guardrE)
  obtain s n f where x: "x = (s, n, f)" by (cases x) auto
  let ?db1 = "update_lease task_id v (settle_row s (v + 1) n err at_time f) db"
  from 3 obtain r db2 a where
    4: "receipt_insert r (draw ?db1) = Inr db2" "record_event env a db2 = Inr db'" and
    5: "r_task r = task_id" "r_operation r = op" "r_key r = key" "r_token_hash r = token_hash env token" "r_result r = doc"
    by (auto simp: x split: option.splits elim!: bindrE)
  from 4(1) have b: "db2 = (draw ?db1)\<lparr>receipts := receipts db @ [r]\<rparr>" by (elim receipt_insertE) simp
  show ?thesis
    using record_event_tables [OF 4(2)] 2 None x b
    by (intro settled [OF 1, of s n f r]) (simp_all add: frame_def 5)
next
  case (Some r)
  with assms show ?thesis unfolding finalize_task_def Let_def
    by (simp only: option.case) (elim bindrE guardrE, auto intro: replay)
qed

lemma workflow_insertE:
  assumes "workflow_insert w db = Inr db'"
  obtains "db' = db\<lparr>workflows := workflows db @ [w]\<rparr>" and "w_id w \<notin> w_id ` set (workflows db)"
    and "(w_engagement w, w_key w) \<notin> (\<lambda>w. (w_engagement w, w_key w)) ` set (workflows db)"
  using assms by (fastforce simp: workflow_insert_def guardr_eq_Inr list_ex_iff)

lemma create_workflowE:
  assumes "create_workflow env eng key actor now db = Inr (db', doc)"
  obtains (replay) w where "find (\<lambda>w. w_engagement w = eng \<and> w_key w = key) (workflows db) = Some w"
    and "db' = db" and "doc = workflow_doc w"
  | (created) m at_time policy w where "trusted_time now = Inr m" and "wf_timestamp m = Inr at_time"
    and "active_authority db eng m = Inr policy" and "extends_log env db db'"
    and "workflows db' = workflows db @ [w]" and "tasks db' = tasks db" and "lifecycles db' = lifecycles db"
    and "checkpoints db' = checkpoints db" and "receipts db' = receipts db"
    and "w = \<lparr>w_id = new_uuid db, w_engagement = eng, w_policy = policy, w_key = key, w_status = ''planned'',
               w_version = 1, w_created = at_time, w_updated = at_time, w_started = None, w_finalized = None\<rparr>"
    and "w_id w \<notin> w_id ` set (workflows db)"
    and "(eng, key) \<notin> (\<lambda>w. (w_engagement w, w_key w)) ` set (workflows db)" and "doc = workflow_doc w"
proof (cases "find (\<lambda>w. w_engagement w = eng \<and> w_key w = key) (workflows db)")
  case None
  let ?w = "\<lambda>policy at_time. \<lparr>w_id = new_uuid db, w_engagement = eng, w_policy = policy, w_key = key, w_status = ''planned'',
               w_version = 1, w_created = at_time, w_updated = at_time, w_started = None, w_finalized = None\<rparr>"
  from assms None obtain m at_time policy db1 db2 a where
    1: "trusted_time now = Inr m" "wf_timestamp m = Inr at_time" "active_authority db eng m = Inr policy" and
    2: "workflow_insert (?w policy at_time) (draw db) = Inr db1" and
    3: "record_event env a db1 = Inr db2" "Inr (db2, workflow_doc (?w policy at_time)) = Inr (db', doc)"
    unfolding create_workflow_def Let_def by (simp only: option.case None) (elim bindrE guardrE, blast)
  from 2 have b: "db1 = (draw db)\<lparr>workflows := workflows db @ [?w policy at_time]\<rparr>"
    "w_id (?w policy at_time) \<notin> w_id ` set (workflows db)"
    "(eng, key) \<notin> (\<lambda>w. (w_engagement w, w_key w)) ` set (workflows db)"
    by (auto elim!: workflow_insertE)
  show ?thesis
    using record_event_tables [OF 3(1)] 3(2) b by (intro created [OF 1, of "?w policy at_time"]) simp_all
next
  case (Some w)
  with assms show ?thesis unfolding create_workflow_def Let_def
    by (simp only: option.case) (elim bindrE guardrE, auto intro: replay)
qed

lemma task_insertE:
  assumes "task_insert t db = Inr db'"
  obtains "db' = db\<lparr>tasks := tasks db @ [t]\<rparr>" and "t_id t \<notin> t_id ` set (tasks db)"
  using assms by (fastforce simp: task_insert_def guardr_eq_Inr list_ex_iff)

lemma lifecycle_insertE:
  assumes "lifecycle_insert l db = Inr db'"
  obtains "db' = db\<lparr>lifecycles := lifecycles db @ [l]\<rparr>" and "l_task l \<notin> l_task ` set (lifecycles db)"
  using assms by (fastforce simp: lifecycle_insert_def guardr_eq_Inr list_ex_iff)

lemma enqueueE:
  assumes "enqueue env wid kind key refs parent actor now db = Inr (db', doc)"
  obtains (replay) t where "find (\<lambda>t. t_workflow t = wid \<and> t_key t = key) (tasks db) = Some t"
    and "db' = db" and "doc = task_doc t" and "t_kind t = kind" and "t_parent t = parent"
  | (queued) m at_time w t where "trusted_time now = Inr m" and "wf_timestamp m = Inr at_time"
    and "find_workflow db wid = Some w" and "w_status w \<in> set [''ready'', ''running'']"
    and "workflow_authority db w m = Inr ()" and "extends_log env db db'"
    and "workflows db' = workflows db" and "tasks db' = tasks db @ [t]"
    and "lifecycles db' = lifecycles db @ [fresh_lifecycle (t_id t) at_time]"
    and "checkpoints db' = checkpoints db" and "receipts db' = receipts db"
    and "t_workflow t = wid" and "t_state t = ''queued''" and "t_finalized t = None"
    and "t_kind t \<in> set task_kinds" and "t_id t \<notin> t_id ` set (tasks db)" and "t_id t \<notin> l_task ` set (lifecycles db)"
    and "\<And>p. t_parent t = Some p \<Longrightarrow> \<exists>q \<in> set (tasks db). t_id q = p \<and> t_workflow q = wid \<and> t_state q \<noteq> ''cancelled''"
proof (cases "find (\<lambda>t. t_workflow t = wid \<and> t_key t = key) (tasks db)")
  case None
  let ?t = "\<lambda>at_time. \<lparr>t_id = new_uuid db, t_workflow = wid, t_parent = parent, t_kind = kind,
              t_state = ''queued'', t_key = key, t_refs = JList (map JStr refs),
              t_created = at_time, t_finalized = None\<rparr>"
  from assms obtain w where w: "find_workflow db wid = Some w"
    unfolding enqueue_def by (cases "find_workflow db wid") (auto elim!: bindrE guardrE)
  from assms None w obtain m at_time db1 db2 db3 a u where
    1: "trusted_time now = Inr m" "wf_timestamp m = Inr at_time" and
    2: "\<not> w_status w \<notin> set [''ready'', ''running'']" "\<not> kind \<notin> set task_kinds" "workflow_authority db w m = Inr u" and
    3: "\<not> (case parent of None \<Rightarrow> False
             | Some p \<Rightarrow>
                 (case find (\<lambda>t. t_id t = p \<and> t_workflow t = wid) (tasks db) of None \<Rightarrow> True
                  | Some parent \<Rightarrow> t_state parent = ''cancelled''))" and
    4: "task_insert (?t at_time) (draw db) = Inr db1" and
    5: "lifecycle_insert (fresh_lifecycle (t_id (?t at_time)) at_time) db1 = Inr db2" and
    6: "record_event env a db2 = Inr db3" "Inr (db3, task_doc (?t at_time)) = Inr (db', doc)"
    unfolding enqueue_def Let_def by (simp only: option.case None w) (elim bindrE guardrE, blast)
  from 4 5 have b: "db2 = (draw db)\<lparr>tasks := tasks db @ [?t at_time],
      lifecycles := lifecycles db @ [fresh_lifecycle (t_id (?t at_time)) at_time]\<rparr>"
    "t_id (?t at_time) \<notin> t_id ` set (tasks db)" "t_id (?t at_time) \<notin> l_task ` set (lifecycles db)"
    by (auto elim!: task_insertE lifecycle_insertE simp: fresh_lifecycle_def)
  show ?thesis
    using record_event_tables [OF 6(1)] 6(2) b 2 3 by (intro queued [OF 1 w, of "?t at_time"])
      (auto dest!: find_SomeD split: option.splits)
next
  case (Some t)
  from assms obtain w where w: "find_workflow db wid = Some w"
    unfolding enqueue_def by (cases "find_workflow db wid") (auto elim!: bindrE guardrE)
  with assms Some show ?thesis unfolding enqueue_def Let_def
    by (simp only: option.case) (elim bindrE guardrE, auto intro: replay simp: validated_task_def elim!: bindrE)
qed

lemma transitionE:
  assumes "transition env wid target v atype actor now db = Inr (db', doc)"
  obtains m at_time w db1 where "trusted_time now = Inr m" and "wf_timestamp m = Inr at_time"
    and "find_workflow db wid = Some w" and "w_version w = v" and "target \<in> set (allowed_targets (w_status w))"
    and "atype \<in> set [''human'', ''service'']" and "target = ''running'' \<Longrightarrow> atype = ''human''"
    and "target \<in> set [''ready'', ''running'', ''completed''] \<Longrightarrow> workflow_authority db w m = Inr ()"
    and "target = ''completed'' \<Longrightarrow> open_lifecycles db wid = 0"
    and "db1 = db\<lparr>workflows := update_rows
           (\<lambda>x. w_id x = wid \<and> w_version x = v \<and> w_status x = w_status w)
           (move_row target (v + 1) at_time
             (if target = ''running'' \<and> w_started w = None then Some at_time else w_started w)
             (if target \<in> set [''completed'', ''cancelled''] then Some at_time else None)) (workflows db)\<rparr>"
    and "extends_log env db db'" and "workflows db' = workflows db1"
    and "tasks db' = (if target = ''cancelled'' then tasks (fst (cancel_workflow_tasks wid at_time db1)) else tasks db)"
    and "lifecycles db' = (if target = ''cancelled''
           then lifecycles (fst (cancel_workflow_tasks wid at_time db1)) else lifecycles db)"
    and "checkpoints db' = checkpoints db" and "receipts db' = receipts db"
proof -
  from assms obtain w where w: "find_workflow db wid = Some w"
    unfolding transition_def by (cases "find_workflow db wid") (auto elim!: bindrE guardrE)
  let ?db1 = "\<lambda>at_time. db\<lparr>workflows := update_rows
           (\<lambda>x. w_id x = wid \<and> w_version x = v \<and> w_status x = w_status w)
           (move_row target (v + 1) at_time
             (if target = ''running'' \<and> w_started w = None then Some at_time else w_started w)
             (if target \<in> set [''completed'', ''cancelled''] then Some at_time else None)) (workflows db)\<rparr>"
  from assms w obtain m at_time u where
    1: "trusted_time now = Inr m" "wf_timestamp m = Inr at_time" and
    2: "\<not> w_version w \<noteq> v" "\<not> target \<notin> set (allowed_targets (w_status w))" "\<not> atype \<notin> set [''human'', ''service'']"
      "\<not> (target = ''running'' \<and> atype \<noteq> ''human'')"
      "(if target \<in> set [''ready'', ''running'', ''completed''] then workflow_authority db w m else Inr ()) = Inr u"
      "\<not> (target = ''completed'' \<and> open_lifecycles db wid \<noteq> 0)" and
    3: "(case (if target = ''cancelled'' then cancel_workflow_tasks wid at_time (?db1 at_time) else (?db1 at_time, 0)) of
          (db2, cancelled_tasks) \<Rightarrow>
     case find_workflow db2 wid of None \<Rightarrow> Inl AssertionError
     | Some current \<Rightarrow>
     bindr (valid_document env (workflow_doc current) ''assessment-workflow-v1.schema.json'') (\<lambda>_.
     bindr (record_event env
       (event_args ''workflow.transitioned'' ''assessment_workflow'' wid atype actor
         [(''from_status'', JStr (w_status w)), (''to_status'', JStr target), (''version'', JInt (v + 1)),
          (''cancelled_tasks'', JInt cancelled_tasks), (''execution_enabled'', JBool False)]
         at_time) db2) (\<lambda>db.
     Inr (db, workflow_doc current)))) = Inr (db', doc)"
    unfolding transition_def Let_def by (simp only: option.case w) (elim bindrE guardrE, blast)
  obtain db2 n where c: "(if target = ''cancelled'' then cancel_workflow_tasks wid at_time (?db1 at_time) else (?db1 at_time, 0)) = (db2, n)"
    by (cases "if target = ''cancelled'' then cancel_workflow_tasks wid at_time (?db1 at_time) else (?db1 at_time, 0)")
  from 3 obtain a where 4: "record_event env a db2 = Inr db'"
    unfolding c prod.case by (auto split: option.splits elim!: bindrE)
  have t: "extends_log env db2 db' = extends_log env db db'" "workflows db2 = workflows (?db1 at_time)"
    "checkpoints db2 = checkpoints db" "receipts db2 = receipts db"
    "tasks db2 = (if target = ''cancelled'' then tasks (fst (cancel_workflow_tasks wid at_time (?db1 at_time))) else tasks db)"
    "lifecycles db2 = (if target = ''cancelled''
           then lifecycles (fst (cancel_workflow_tasks wid at_time (?db1 at_time))) else lifecycles db)"
    using c by (auto simp: cancel_workflow_tasks_def Let_def split: if_splits)
  show ?thesis
    by (rule that [OF 1 w, of "?db1 at_time"])
      (use record_event_tables [OF 4] 2 in \<open>simp_all add: t cong: if_cong split: if_splits\<close>)
qed

lemma cancel_taskE:
  assumes "cancel_task env task_id actor now db = Inr (db', doc)"
  obtains m at_time t l where "trusted_time now = Inr m" and "wf_timestamp m = Inr at_time"
    and "find_task db task_id = Some t" and "t_state t = ''queued''"
    and "find_lifecycle db task_id = Some l" and "l_state l \<notin> set [''succeeded'', ''dead_letter'']"
    and "\<And>c k. c \<in> set (tasks db) \<Longrightarrow> t_parent c = Some task_id \<Longrightarrow> k \<in> set (lifecycles db) \<Longrightarrow> l_task k = t_id c \<Longrightarrow>
           task_closed (l_state k)"
    and "extends_log env db db'" and "workflows db' = workflows db"
    and "tasks db' = update_rows (\<lambda>t. t_id t = task_id \<and> t_state t = ''queued'') (cancel_row at_time) (tasks db)"
    and "lifecycles db' = update_rows (\<lambda>l. l_task l = task_id) (cancel_lifecycle at_time) (lifecycles db)"
    and "checkpoints db' = checkpoints db" and "receipts db' = receipts db"
proof -
  from assms obtain t where t: "find_task db task_id = Some t"
    unfolding cancel_task_def by (cases "find_task db task_id") (auto elim!: bindrE guardrE)
  let ?db1 = "\<lambda>at_time. db\<lparr>tasks := update_rows (\<lambda>t. t_id t = task_id \<and> t_state t = ''queued'') (cancel_row at_time) (tasks db)\<rparr>"
  have fl: "find_lifecycle (?db1 at_time) task_id = find_lifecycle db task_id" for at_time
    by (simp add: find_lifecycle_def)
  from assms t obtain l where l: "find_lifecycle db task_id = Some l"
    unfolding cancel_task_def Let_def
    by (cases "find_lifecycle db task_id") (auto simp: fl elim!: bindrE guardrE)
  let ?db2 = "\<lambda>at_time. (?db1 at_time)\<lparr>lifecycles := update_rows (\<lambda>l. l_task l = task_id) (cancel_lifecycle at_time)
                                   (lifecycles (?db1 at_time))\<rparr>"
  from assms obtain m at_time where
    1: "trusted_time now = Inr m" "wf_timestamp m = Inr at_time" and
    2: "\<not> t_state t \<noteq> ''queued''"
      "\<not> (row_count (\<lambda>l. l_task l \<in> set (map t_id (filter (\<lambda>t. t_parent t = Some task_id) (tasks db))) \<and>
                            \<not> task_closed (l_state l)) (lifecycles db) \<noteq> 0)"
      "\<not> l_state l \<in> set [''succeeded'', ''dead_letter'']" and
    3: "(case find_task (?db2 at_time) task_id of None \<Rightarrow> Inl AssertionError
     | Some current \<Rightarrow>
     bindr (validated_task env current) (\<lambda>document.
     bindr (record_event env
       (event_args ''workflow.task_cancelled'' ''workflow_task'' task_id ''human'' actor
         [(''workflow_id'', JStr (t_workflow t)), (''state'', JStr ''cancelled'')] at_time) (?db2 at_time)) (\<lambda>db.
     Inr (db, document)))) = Inr (db', doc)"
    unfolding cancel_task_def Let_def by (simp only: option.case t l fl) (elim bindrE guardrE, blast)
  from 3 obtain a where 4: "record_event env a (?db2 at_time) = Inr db'"
    by (auto split: option.splits elim!: bindrE)
  have 5: "task_closed (l_state k)" if "c \<in> set (tasks db)" "t_parent c = Some task_id" "k \<in> set (lifecycles db)" "l_task k = t_id c"
    for c k using 2(2) that by (auto simp: row_count_0)
  show ?thesis
    by (rule that [OF 1 t _ l _ 5]) (use record_event_tables [OF 4] 2 in simp_all)
qed

section \<open>The constraints of the schema\<close>

text \<open>The CHECK constraints of \<open>workflow_task_lifecycles\<close>.\<close>

definition lifecycle_ok :: "lifecycle_row \<Rightarrow> bool" where
  "lifecycle_ok l \<longleftrightarrow>
     l_state l \<in> set [''queued'', ''leased'', ''retry_wait'', ''succeeded'', ''dead_letter'', ''cancelled''] \<and>
     1 \<le> l_version l \<and> 0 \<le> l_attempts l \<and> 1 \<le> l_max l \<and> l_max l \<le> 10 \<and> l_attempts l \<le> l_max l \<and>
     (if l_state l = ''leased''
      then l_owner l \<noteq> None \<and> l_expires l \<noteq> None \<and> (case l_token_hash l of None \<Rightarrow> False | Some h \<Rightarrow> length h = 64)
      else l_owner l = None \<and> l_token_hash l = None \<and> l_expires l = None) \<and>
     (task_closed (l_state l) \<longleftrightarrow> l_finalized l \<noteq> None) \<and>
     (l_state l = ''retry_wait'' \<longleftrightarrow> l_next l \<noteq> None)"

text \<open>The triggers of \<open>workflow_task_lifecycles\<close>: identity and fenced version.\<close>

definition lifecycle_next :: "lifecycle_row \<Rightarrow> lifecycle_row \<Rightarrow> bool" where
  "lifecycle_next l l' \<longleftrightarrow>
     l_task l' = l_task l \<and> l_max l' = l_max l \<and> l_version l' = l_version l + 1 \<and>
     (l_state l \<in> set [''queued'', ''retry_wait''] \<and> l_state l' \<in> set [''leased'', ''cancelled''] \<or>
      l_state l = ''leased'' \<and>
      l_state l' \<in> set [''leased'', ''retry_wait'', ''succeeded'', ''dead_letter'', ''cancelled''])"

definition workflow_closed :: "workflow_row \<Rightarrow> bool" where
  "workflow_closed w \<longleftrightarrow> w_status w \<in> set [''completed'', ''cancelled'']"

text \<open>The CHECK constraints of \<open>assessment_workflows\<close> and what its trigger requires of every new row.\<close>

definition workflow_ok :: "workflow_row \<Rightarrow> bool" where
  "workflow_ok w \<longleftrightarrow>
     w_status w \<in> set [''planned'', ''ready'', ''running'', ''paused'', ''completed'', ''cancelled''] \<and>
     1 \<le> w_version w \<and> (workflow_closed w \<longleftrightarrow> w_finalized w \<noteq> None) \<and>
     (w_status w \<in> set [''running'', ''paused'', ''completed''] \<longrightarrow> w_started w \<noteq> None)"

text \<open>The triggers of \<open>assessment_workflows\<close>: immutable identity and the list of transitions in the schema.\<close>

definition workflow_transition :: "string \<Rightarrow> string \<Rightarrow> bool" where
  "workflow_transition old new \<longleftrightarrow>
     old = ''planned'' \<and> new \<in> set [''ready'', ''cancelled''] \<or>
     old = ''ready'' \<and> new \<in> set [''running'', ''cancelled''] \<or>
     old = ''running'' \<and> new \<in> set [''paused'', ''completed'', ''cancelled''] \<or>
     old = ''paused'' \<and> new \<in> set [''running'', ''cancelled'']"

definition workflow_next :: "workflow_row \<Rightarrow> workflow_row \<Rightarrow> bool" where
  "workflow_next w w' \<longleftrightarrow>
     w_id w' = w_id w \<and> w_engagement w' = w_engagement w \<and> w_policy w' = w_policy w \<and> w_key w' = w_key w \<and>
     w_created w' = w_created w \<and> w_version w' = w_version w + 1 \<and>
     workflow_transition (w_status w) (w_status w') \<and>
     (workflow_closed w' \<longleftrightarrow> w_finalized w' \<noteq> None) \<and>
     (w_status w' \<in> set [''running'', ''paused'', ''completed''] \<longrightarrow> w_started w' \<noteq> None)"

text \<open>The table of the service has no transition that the schema forbids.\<close>

lemma allowed_targets_transition: "target \<in> set (allowed_targets s) \<Longrightarrow> workflow_transition s target"
  unfolding allowed_targets_def workflow_transition_def by (auto split: if_splits)

text \<open>The triggers of \<open>workflow_tasks\<close>.\<close>

definition task_ok :: "task_row \<Rightarrow> bool" where
  "task_ok t \<longleftrightarrow> t_kind t \<in> set task_kinds \<and> t_state t \<in> set [''queued'', ''cancelled''] \<and>
     (t_state t = ''cancelled'' \<longleftrightarrow> t_finalized t \<noteq> None)"

definition task_next :: "task_row \<Rightarrow> task_row \<Rightarrow> bool" where
  "task_next t t' \<longleftrightarrow>
     (\<exists>at_time. t' = t\<lparr>t_state := ''cancelled'', t_finalized := Some at_time\<rparr>) \<and> t_state t = ''queued''"

definition lifecycle_closed :: "lifecycle_row \<Rightarrow> bool" where
  "lifecycle_closed l \<longleftrightarrow> task_closed (l_state l)"

interpretation workflow_rows: versioned_table w_id workflow_next workflow_closed w_version
  by unfold_locales (auto simp: workflow_next_def workflow_closed_def workflow_transition_def)

interpretation lifecycle_rows: versioned_table l_task lifecycle_next lifecycle_closed l_version
  by unfold_locales (auto simp: lifecycle_next_def lifecycle_closed_def task_closed_def)

text \<open>The state of the service: constraints on rows and between tables.\<close>

definition workflow_inv :: "'a workflow_db_scheme \<Rightarrow> bool" where
  "workflow_inv db \<longleftrightarrow>
     distinct (map w_id (workflows db)) \<and> distinct (map t_id (tasks db)) \<and> distinct (map l_task (lifecycles db)) \<and>
     list_all workflow_ok (workflows db) \<and> list_all task_ok (tasks db) \<and> list_all lifecycle_ok (lifecycles db) \<and>
     (\<forall>t \<in> set (tasks db). t_workflow t \<in> w_id ` set (workflows db)) \<and>
     (\<forall>l \<in> set (lifecycles db). \<exists>t \<in> set (tasks db). t_id t = l_task l \<and>
        (l_state l = ''cancelled'' \<longrightarrow> t_state t = ''cancelled'')) \<and>
     (\<forall>w \<in> set (workflows db). workflow_closed w \<longrightarrow>
        (\<forall>t \<in> set (tasks db). t_workflow t = w_id w \<longrightarrow>
           (\<forall>l \<in> set (lifecycles db). l_task l = t_id t \<longrightarrow> lifecycle_closed l)))"

lemma workflow_invD:
  assumes "workflow_inv db"
  shows "distinct (map w_id (workflows db))" "distinct (map t_id (tasks db))" "distinct (map l_task (lifecycles db))"
    "list_all workflow_ok (workflows db)" "list_all task_ok (tasks db)" "list_all lifecycle_ok (lifecycles db)"
    "\<And>t. t \<in> set (tasks db) \<Longrightarrow> t_workflow t \<in> w_id ` set (workflows db)"
    "\<And>l. l \<in> set (lifecycles db) \<Longrightarrow> \<exists>t \<in> set (tasks db). t_id t = l_task l \<and> (l_state l = ''cancelled'' \<longrightarrow> t_state t = ''cancelled'')"
    "\<And>w t l. w \<in> set (workflows db) \<Longrightarrow> workflow_closed w \<Longrightarrow> t \<in> set (tasks db) \<Longrightarrow> t_workflow t = w_id w \<Longrightarrow>
       l \<in> set (lifecycles db) \<Longrightarrow> l_task l = t_id t \<Longrightarrow> lifecycle_closed l"
  using assms by (auto simp: workflow_inv_def)

text \<open>An update of open lifecycles that does not cancel them.\<close>

lemma inv_lifecycle_update:
  assumes inv: "workflow_inv db" and w: "workflows db' = workflows db" and t: "tasks db' = tasks db"
    and l: "lifecycles db' = update_rows p f (lifecycles db)"
    and f: "\<And>l. l \<in> set (lifecycles db) \<Longrightarrow> p l \<Longrightarrow> lifecycle_ok l \<Longrightarrow>
      \<not> lifecycle_closed l \<and> l_task (f l) = l_task l \<and> l_state (f l) \<noteq> ''cancelled'' \<and> lifecycle_ok (f l) \<and> lifecycle_next l (f l)"
  shows "workflow_inv db'" and "table_step lifecycle_next (lifecycles db) (lifecycles db')"
proof -
  note i = workflow_invD [OF inv]
  have ok: "lifecycle_ok l" if "l \<in> set (lifecycles db)" for l
    using i(6) that by (simp add: list_all_iff)
  have k: "map l_task (lifecycles db') = map l_task (lifecycles db)"
    using f ok by (auto simp: l update_rows_def)
  have prior: "\<exists>l0 \<in> set (lifecycles db). l_task l = l_task l0 \<and> (l_state l = ''cancelled'' \<longrightarrow> l_state l0 = ''cancelled'') \<and>
      (lifecycle_closed l0 \<longrightarrow> l = l0) \<and> lifecycle_ok l" if "l \<in> set (lifecycles db')" for l
    using that f ok unfolding l in_update_rows by (metis (full_types))
  show "workflow_inv db'"
    unfolding workflow_inv_def k w t
  proof (intro conjI)
    show "list_all lifecycle_ok (lifecycles db')" using prior by (auto simp: list_all_iff)
    show "\<forall>l\<in>set (lifecycles db'). \<exists>t\<in>set (tasks db). t_id t = l_task l \<and> (l_state l = ''cancelled'' \<longrightarrow> t_state t = ''cancelled'')"
      using prior i(8) by metis
    show "\<forall>w\<in>set (workflows db). workflow_closed w \<longrightarrow> (\<forall>t\<in>set (tasks db). t_workflow t = w_id w \<longrightarrow>
       (\<forall>l\<in>set (lifecycles db'). l_task l = t_id t \<longrightarrow> lifecycle_closed l))"
      using prior i(9) by metis
  qed (use i in auto)
  show "table_step lifecycle_next (lifecycles db) (lifecycles db')"
    unfolding l using f ok by (intro table_step_update) blast
qed

section \<open>Every operation conforms to the schema\<close>

definition conforms :: "'a workflow_db_scheme \<Rightarrow> 'a workflow_db_scheme \<Rightarrow> bool" where
  "conforms db db' \<longleftrightarrow> workflow_inv db' \<and> table_evolves workflow_next (workflows db) (workflows db') \<and>
     table_evolves task_next (tasks db) (tasks db') \<and> table_evolves lifecycle_next (lifecycles db) (lifecycles db')"

lemma conforms_refl: "workflow_inv db \<Longrightarrow> conforms db db"
  by (simp add: conforms_def)

lemma conforms_trans: "conforms a b \<Longrightarrow> conforms b c \<Longrightarrow> conforms a c"
  by (auto simp: conforms_def intro: table_evolves_trans)

lemma conforms_same:
  "conforms a b \<Longrightarrow> workflows c = workflows b \<Longrightarrow> tasks c = tasks b \<Longrightarrow> lifecycles c = lifecycles b \<Longrightarrow> conforms a c"
  by (simp add: conforms_def workflow_inv_def)

lemma conforms_lifecycles:
  assumes inv: "workflow_inv db" and fr: "frame env db db'"
    and l: "lifecycles db' = update_rows p f (lifecycles db)"
    and f: "\<And>l. l \<in> set (lifecycles db) \<Longrightarrow> p l \<Longrightarrow> lifecycle_ok l \<Longrightarrow>
      \<not> lifecycle_closed l \<and> l_task (f l) = l_task l \<and> l_state (f l) \<noteq> ''cancelled'' \<and> lifecycle_ok (f l) \<and> lifecycle_next l (f l)"
  shows "conforms db db'"
proof -
  have w: "workflows db' = workflows db" and t: "tasks db' = tasks db" using fr by (auto simp: frame_def)
  show ?thesis
    using inv_lifecycle_update [OF inv w t l f] w t
    by (auto simp: conforms_def intro: table_step_evolves)
qed

lemma task_authorityE:
  assumes "task_authority db task_id m = Inr l"
  obtains t w where "find_lifecycle db task_id = Some l" and "find_task db task_id = Some t"
    and "find_workflow db (t_workflow t) = Some w" and "w_status w = ''running''" and "workflow_authority db w m = Inr ()"
  using assms by (auto simp: task_authority_def guardr_eq_Inr bindr_eq_Inr split: option.splits)

lemma find_lifecycleD: "find_lifecycle db task_id = Some l \<Longrightarrow> l \<in> set (lifecycles db) \<and> l_task l = task_id"
  unfolding find_lifecycle_def by (drule find_SomeD) simp

lemma leased_taskE:
  assumes "leased_task env db task_id v token m = Inr l"
  obtains e t where "find_lifecycle db task_id = Some l" and "l_version l = v" and "l_state l = ''leased''"
    and "l_token_hash l = Some (token_hash env token)" and "l_expires l = Some e" and "parse_time_str e = Inr t"
    and "utc m < t" and "32 \<le> length token" and "length token \<le> 128"
proof -
  from assms obtain k where k: "find_lifecycle db task_id = Some k"
    by (auto simp: leased_task_def guardr_eq_Inr split: option.splits)
  from assms have g: "32 \<le> length token" "length token \<le> 128" "l_version k = v" "l_state k = ''leased''"
    "l_token_hash k = Some (token_hash env token)"
    and p: "bindr (catchr (mapr (\<lambda>t. t \<le> utc m) (parse_time (opt_str (l_expires k))))
      (\<lambda>e. if is_format_error e then Inl (workflow_error ''WORKFLOW_CONTRACT_INVALID'') else Inl e))
      (\<lambda>expired. guardr expired (workflow_error ''WORKFLOW_LEASE_EXPIRED'') (Inr k)) = Inr l"
    by (simp_all add: leased_task_def guardr_eq_Inr k)
  from p have "k = l" "\<exists>t. parse_time (opt_str (l_expires k)) = Inr t \<and> utc m < t"
    by (auto simp: bindr_eq_Inr guardr_eq_Inr catchr_eq_Inr mapr_eq_Inr split: if_splits)
  with k g that show ?thesis
    by (cases "l_expires k") (auto simp: opt_str_def parse_time_def)
qed

lemma claim_conforms:
  assumes inv: "workflow_inv db" and len: "length (token_hash env token) = 64"
    and "claim_task env token task_id v owner secs now db = Inr (db', lease)"
  shows "conforms db db'"
  using assms(3)
proof (rule claim_taskE)
  fix m at_time expires_at l
  assume l: "task_authority db task_id m = Inr l" "l_version l = v" "l_attempts l < l_max l" and fr: "frame env db db'"
    and u: "lifecycles db' = update_rows
           (\<lambda>l. l_task l = task_id \<and> l_version l = v \<and> l_state l \<in> set [''queued'', ''retry_wait''])
           (claim_row (v + 1) owner (token_hash env token) expires_at at_time) (lifecycles db)"
  have m: "l \<in> set (lifecycles db)" "l_task l = task_id"
    using l(1) by (auto elim!: task_authorityE dest!: find_lifecycleD)
  have "l' = l" if "l' \<in> set (lifecycles db)" "l_task l' = task_id" for l'
    using that m workflow_invD(3) [OF inv] by (auto dest: distinct_keyD)
  then show ?thesis
    using l len by (intro conforms_lifecycles [OF inv fr u])
      (auto simp: claim_row_def lifecycle_ok_def lifecycle_next_def lifecycle_closed_def task_closed_def)
qed

lemma heartbeat_conforms:
  assumes inv: "workflow_inv db" and "heartbeat_task env task_id v token secs now db = Inr (db', doc)"
  shows "conforms db db'"
  using assms(2)
proof (rule heartbeat_taskE)
  fix m at_time expires_at
  assume fr: "frame env db db'"
    and u: "lifecycles db' = update_rows (\<lambda>l. l_task l = task_id \<and> l_version l = v \<and> l_state l = ''leased'')
           (\<lambda>l. l\<lparr>l_version := v + 1, l_expires := Some expires_at, l_updated := at_time\<rparr>) (lifecycles db)"
  show ?thesis
    by (rule conforms_lifecycles [OF inv fr u])
      (auto simp: lifecycle_ok_def lifecycle_next_def lifecycle_closed_def task_closed_def)
qed

lemma checkpoint_conforms:
  assumes inv: "workflow_inv db" and "checkpoint_task env task_id v token progress refs now db = Inr (db', doc)"
  shows "conforms db db'"
  using assms(2)
proof (rule checkpoint_taskE)
  fix m at_time
  assume fr: "frame env db db'"
    and u: "lifecycles db' = update_rows (\<lambda>l. l_task l = task_id \<and> l_version l = v \<and> l_state l = ''leased'')
           (\<lambda>l. l\<lparr>l_version := v + 1, l_updated := at_time\<rparr>) (lifecycles db)"
  show ?thesis
    by (rule conforms_lifecycles [OF inv fr u])
      (auto simp: lifecycle_ok_def lifecycle_next_def lifecycle_closed_def task_closed_def)
qed

lemma settle_row_ok:
  assumes "lifecycle_ok l" "l_state l = ''leased''" "l_version l = v"
    and "(s = ''succeeded'' \<or> s = ''dead_letter'') \<and> n = None \<and> f \<noteq> None \<or> s = ''retry_wait'' \<and> n \<noteq> None \<and> f = None"
  shows "\<not> lifecycle_closed l \<and> l_task (settle_row s (v + 1) n err at_time f l) = l_task l \<and>
    l_state (settle_row s (v + 1) n err at_time f l) \<noteq> ''cancelled'' \<and>
    lifecycle_ok (settle_row s (v + 1) n err at_time f l) \<and> lifecycle_next l (settle_row s (v + 1) n err at_time f l)"
  using assms by (auto simp: settle_row_def lifecycle_ok_def lifecycle_next_def lifecycle_closed_def task_closed_def)

lemma finalize_conforms:
  assumes inv: "workflow_inv db" and "finalize_task env task_id op v token key err delay now db = Inr (db', doc)"
  shows "conforms db db'"
  using assms(2)
proof (cases rule: finalize_taskE)
  case (settled m at_time l l' s n f r)
  show ?thesis
  proof (rule conforms_lifecycles [OF inv settled(8,9)])
    fix l assume "lifecycle_ok l" "l_task l = task_id \<and> l_version l = v \<and> l_state l = ''leased''"
    moreover have "(s = ''succeeded'' \<or> s = ''dead_letter'') \<and> n = None \<and> f \<noteq> None \<or> s = ''retry_wait'' \<and> n \<noteq> None \<and> f = None"
      using settled(5) by (rule settlementE) simp_all
    ultimately show "\<not> lifecycle_closed l \<and> l_task (settle_row s (v + 1) n err at_time f l) = l_task l \<and>
        l_state (settle_row s (v + 1) n err at_time f l) \<noteq> ''cancelled'' \<and>
        lifecycle_ok (settle_row s (v + 1) n err at_time f l) \<and> lifecycle_next l (settle_row s (v + 1) n err at_time f l)"
      by (intro settle_row_ok) auto
  qed
qed (use inv in \<open>simp add: conforms_refl\<close>)

lemma recover_lease_conforms:
  assumes inv: "workflow_inv db" and r: "recover_lease env at_time db lease = Inr db'"
  shows "conforms db db'" and "extends_log env db db'"
proof -
  let ?ex = "l_max lease \<le> l_attempts lease"
  let ?f = "\<lambda>l. settle_row (if ?ex then ''dead_letter'' else ''retry_wait'') (l_version l + 1)
      (if ?ex then None else Some at_time) (Some ''LEASE_RECOVERED'') at_time (if ?ex then Some at_time else None) l"
  obtain a where a: "record_event env a (update_lease (l_task lease) (l_version lease) ?f db) = Inr db'"
    using r by (auto simp: recover_lease_def Let_def)
  note t = record_event_tables [OF a]
  then have fr: "frame env db db'" by (simp add: frame_def)
  have u: "lifecycles db' = update_rows (\<lambda>l. l_task l = l_task lease \<and> l_version l = l_version lease \<and> l_state l = ''leased'')
      ?f (lifecycles db)" using t by simp
  show "conforms db db'"
    by (rule conforms_lifecycles [OF inv fr u], rule settle_row_ok) auto
  show "extends_log env db db'" using fr by (simp add: frame_def)
qed

lemma find_workflowD: "find_workflow db wid = Some w \<Longrightarrow> w \<in> set (workflows db) \<and> w_id w = wid"
  unfolding find_workflow_def by (drule find_SomeD) simp

lemma find_taskD: "find_task db tid = Some t \<Longrightarrow> t \<in> set (tasks db) \<and> t_id t = tid"
  unfolding find_task_def by (drule find_SomeD) simp

text \<open>An update of one workflow along the state machine.\<close>

lemma conforms_workflow:
  assumes inv: "workflow_inv db" and w: "workflows db' = update_rows p f (workflows db)"
    and t: "tasks db' = tasks db" and l: "lifecycles db' = lifecycles db"
    and f: "\<And>w. w \<in> set (workflows db) \<Longrightarrow> p w \<Longrightarrow> workflow_ok w \<Longrightarrow> workflow_next w (f w) \<and>
      (workflow_closed (f w) \<longrightarrow> (\<forall>t \<in> set (tasks db). t_workflow t = w_id w \<longrightarrow>
         (\<forall>l \<in> set (lifecycles db). l_task l = t_id t \<longrightarrow> lifecycle_closed l)))"
  shows "conforms db db'"
proof -
  note i = workflow_invD [OF inv]
  have ok: "workflow_ok w" if "w \<in> set (workflows db)" for w
    using i(4) that by (simp add: list_all_iff)
  have nx: "workflow_next w (f w)" if "w \<in> set (workflows db)" "p w" for w using f ok that by blast
  have k: "map w_id (workflows db') = map w_id (workflows db)"
    using nx by (auto simp: w update_rows_def workflow_next_def)
  then have ids: "w_id ` set (workflows db') = w_id ` set (workflows db)" by (metis set_map)
  have ok': "list_all workflow_ok (workflows db')"
    unfolding w using i(4)
  proof (rule update_rows_list_all)
    fix r assume "r \<in> set (workflows db)" "p r" "workflow_ok r"
    then show "workflow_ok (f r)" using nx [of r]
      by (auto simp: workflow_next_def workflow_ok_def workflow_transition_def)
  qed
  have "lifecycle_closed m" if "x \<in> set (workflows db')" "workflow_closed x" "s \<in> set (tasks db)" "t_workflow s = w_id x"
    "m \<in> set (lifecycles db)" "l_task m = t_id s" for x s m
    using that f ok nx i(9) unfolding w in_update_rows workflow_next_def by (metis (full_types))
  then have "workflow_inv db'"
    using i ok' unfolding workflow_inv_def k t l ids by auto
  moreover have "table_step workflow_next (workflows db) (workflows db')"
    unfolding w using nx by (intro table_step_update) blast
  ultimately show ?thesis by (simp add: conforms_def t l table_step_evolves)
qed

lemma cancel_lifecycle_next:
  "lifecycle_ok l \<Longrightarrow> \<not> lifecycle_closed l \<Longrightarrow> lifecycle_next l (cancel_lifecycle at_time l) \<and> lifecycle_ok (cancel_lifecycle at_time l)"
  by (auto simp: cancel_lifecycle_def lifecycle_ok_def lifecycle_next_def lifecycle_closed_def task_closed_def)

text \<open>Cancelling a set of tasks together with their open lifecycles.\<close>

lemma conforms_cancel:
  assumes inv: "workflow_inv db" and w: "workflows db' = workflows db"
    and t: "tasks db' = update_rows (\<lambda>t. P (t_id t) (t_workflow t) \<and> t_state t = ''queued'') (cancel_row at_time) (tasks db)"
    and l: "lifecycles db' = update_rows q (cancel_lifecycle at_time) (lifecycles db)"
    and q: "\<And>l. l \<in> set (lifecycles db) \<Longrightarrow> q l \<Longrightarrow> \<not> lifecycle_closed l \<and>
      (\<exists>t \<in> set (tasks db). t_id t = l_task l \<and> P (t_id t) (t_workflow t))"
  shows "conforms db db'"
proof -
  note i = workflow_invD [OF inv]
  have lok: "lifecycle_ok l" if "l \<in> set (lifecycles db)" for l
    using i(6) that by (simp add: list_all_iff)
  have tok: "task_ok t" if "t \<in> set (tasks db)" for t
    using i(5) that by (simp add: list_all_iff)
  have k: "map l_task (lifecycles db') = map l_task (lifecycles db)" "map t_id (tasks db') = map t_id (tasks db)"
    by (simp_all add: l t cancel_lifecycle_def cancel_row_def)
  have ok: "list_all lifecycle_ok (lifecycles db')" "list_all task_ok (tasks db')"
    unfolding l t using i(5,6) q cancel_lifecycle_next
    by (auto intro!: update_rows_list_all simp: cancel_row_def task_ok_def)
  have wf: "t_workflow s \<in> w_id ` set (workflows db)" if "s \<in> set (tasks db')" for s
    using that i(7) by (auto simp: t in_update_rows cancel_row_def)
  have lt: "\<exists>s \<in> set (tasks db'). t_id s = l_task m \<and> (l_state m = ''cancelled'' \<longrightarrow> t_state s = ''cancelled'')"
    if m: "m \<in> set (lifecycles db')" for m
  proof -
    obtain m0 where m0: "m0 \<in> set (lifecycles db)" "m = (if q m0 then cancel_lifecycle at_time m0 else m0)"
      using m by (auto simp: l in_update_rows)
    obtain s where s: "s \<in> set (tasks db)" "t_id s = l_task m0" "l_state m0 = ''cancelled'' \<longrightarrow> t_state s = ''cancelled''"
      using i(8) m0(1) by blast
    let ?s = "if P (t_id s) (t_workflow s) \<and> t_state s = ''queued'' then cancel_row at_time s else s"
    have "?s \<in> set (tasks db')" using s(1) by (auto simp: t in_update_rows)
    moreover have "t_state ?s = ''cancelled''" if "l_state m = ''cancelled''"
    proof (cases "q m0")
      case True
      then have "P (t_id s) (t_workflow s)"
        using q [OF m0(1)] s(1,2) i(2) by (metis distinct_keyD)
      then show ?thesis using tok [OF s(1)] by (auto simp: cancel_row_def task_ok_def)
    qed (use m0(2) s(3) that in \<open>auto simp: cancel_row_def\<close>)
    moreover have "t_id ?s = l_task m" using s(2) m0(2) by (simp add: cancel_row_def cancel_lifecycle_def)
    ultimately show ?thesis by blast
  qed
  have cl: "lifecycle_closed m" if h: "x \<in> set (workflows db)" "workflow_closed x" "s \<in> set (tasks db')" "t_workflow s = w_id x"
    "m \<in> set (lifecycles db')" "l_task m = t_id s" for x s m
  proof -
    obtain s0 where s0: "s0 \<in> set (tasks db)" "t_id s = t_id s0" "t_workflow s = t_workflow s0"
      using h(3) by (force simp: t in_update_rows cancel_row_def)
    obtain m0 where "m0 \<in> set (lifecycles db)" "m = (if q m0 then cancel_lifecycle at_time m0 else m0)"
      using h(5) unfolding l in_update_rows by blast
    then show ?thesis
      using i(9) [of x s0 m0] s0 h by (auto simp: cancel_lifecycle_def lifecycle_closed_def task_closed_def split: if_splits)
  qed
  have "workflow_inv db'"
    unfolding workflow_inv_def w k using i(1,2,3,4) ok wf lt cl by auto
  moreover have "table_step lifecycle_next (lifecycles db) (lifecycles db')"
    unfolding l using q lok cancel_lifecycle_next by (intro table_step_update) blast
  moreover have "table_step task_next (tasks db) (tasks db')"
    unfolding t by (intro table_step_update) (auto simp: task_next_def cancel_row_def)
  ultimately show ?thesis by (simp add: conforms_def w table_step_evolves)
qed


lemma cancelled_workflow_closes:
  "s \<in> set (tasks (fst (cancel_workflow_tasks wid at_time db))) \<Longrightarrow> t_workflow s = wid \<Longrightarrow>
   m \<in> set (lifecycles (fst (cancel_workflow_tasks wid at_time db))) \<Longrightarrow> l_task m = t_id s \<Longrightarrow> lifecycle_closed m"
proof -
  assume s: "s \<in> set (tasks (fst (cancel_workflow_tasks wid at_time db)))" "t_workflow s = wid"
    and m: "m \<in> set (lifecycles (fst (cancel_workflow_tasks wid at_time db)))" "l_task m = t_id s"
  have s': "t_id s \<in> set (workflow_tasks_of db wid)"
  proof -
    obtain s0 where "s0 \<in> set (tasks db)" "s = (if t_workflow s0 = wid \<and> t_state s0 = ''queued'' then cancel_row at_time s0 else s0)"
      using s(1) by (auto simp: cancel_workflow_tasks_def Let_def in_update_rows)
    then show ?thesis using s(2) by (auto simp: workflow_tasks_of_def cancel_row_def split: if_splits)
  qed
  obtain m0 where m0: "m = (if l_task m0 \<in> set (workflow_tasks_of db wid) \<and> \<not> task_closed (l_state m0)
      then cancel_lifecycle at_time m0 else m0)"
    using m(1) by (auto simp: cancel_workflow_tasks_def Let_def in_update_rows)
  then have "l_task m = l_task m0" by (simp add: cancel_lifecycle_def)
  with m0 s' m(2) show "lifecycle_closed m"
    by (simp add: lifecycle_closed_def cancel_lifecycle_def task_closed_def split: if_splits)
qed

lemma allowed_targets_cases:
  assumes "target \<in> set (allowed_targets s)"
  obtains "s = ''planned''" "target = ''ready''" | "s = ''ready''" "target = ''running''"
  | "s = ''running''" "target = ''paused''" | "s = ''running''" "target = ''completed''"
  | "s = ''paused''" "target = ''running''"
  | "target = ''cancelled''" "s \<in> {''planned'', ''ready'', ''running'', ''paused''}"
  using assms unfolding allowed_targets_def by (auto split: if_splits)

lemma move_row_next:
  assumes t: "target \<in> set (allowed_targets (w_status w))" and "workflow_ok w" and "w_version w = v"
  shows "workflow_next w (move_row target (v + 1) at_time
             (if target = ''running'' \<and> w_started w = None then Some at_time else w_started w)
             (if target \<in> set [''completed'', ''cancelled''] then Some at_time else None) w)"
  using allowed_targets_transition [OF t] t
  by (elim allowed_targets_cases)
    (use assms(2,3) in \<open>simp_all add: workflow_next_def move_row_def workflow_closed_def workflow_ok_def\<close>)

lemma transition_conforms:
  assumes inv: "workflow_inv db" and "transition env wid target v atype actor now db = Inr (db', doc)"
  shows "conforms db db'"
  using assms(2)
proof (rule transitionE)
  fix m at_time w db1
  assume w: "find_workflow db wid = Some w" "w_version w = v" "target \<in> set (allowed_targets (w_status w))"
    and open_l: "target = ''completed'' \<Longrightarrow> open_lifecycles db wid = 0"
    and db1: "db1 = db\<lparr>workflows := update_rows
           (\<lambda>x. w_id x = wid \<and> w_version x = v \<and> w_status x = w_status w)
           (move_row target (v + 1) at_time
             (if target = ''running'' \<and> w_started w = None then Some at_time else w_started w)
             (if target \<in> set [''completed'', ''cancelled''] then Some at_time else None)) (workflows db)\<rparr>"
    and wfs: "workflows db' = workflows db1"
    and ts: "tasks db' = (if target = ''cancelled'' then tasks (fst (cancel_workflow_tasks wid at_time db1)) else tasks db)"
    and ls: "lifecycles db' = (if target = ''cancelled''
           then lifecycles (fst (cancel_workflow_tasks wid at_time db1)) else lifecycles db)"
  have one: "x = w" if "x \<in> set (workflows db)" "w_id x = wid" for x
    using that find_workflowD [OF w(1)] workflow_invD(1) [OF inv] by (metis distinct_keyD)
  have next_w: "workflow_next w (move_row target (v + 1) at_time
             (if target = ''running'' \<and> w_started w = None then Some at_time else w_started w)
             (if target \<in> set [''completed'', ''cancelled''] then Some at_time else None) w)"
    using workflow_invD(4) [OF inv] find_workflowD [OF w(1)] by (intro move_row_next w) (simp_all add: list_all_iff)
  let ?tl = "\<lambda>x. \<forall>t \<in> set (tasks db). t_workflow t = x \<longrightarrow> (\<forall>l \<in> set (lifecycles db). l_task l = t_id t \<longrightarrow> lifecycle_closed l)"
  have done_l: "?tl wid" if "target = ''completed''"
    using open_l [OF that] by (auto simp: open_lifecycles_def row_count_0 workflow_tasks_of_def lifecycle_closed_def)
  note rows = wfs [unfolded db1, simplified]
  have step_w: "workflow_next x (move_row target (v + 1) at_time
             (if target = ''running'' \<and> w_started w = None then Some at_time else w_started w)
             (if target \<in> set [''completed'', ''cancelled''] then Some at_time else None) x)"
    if "x \<in> set (workflows db)" "w_id x = wid \<and> w_version x = v \<and> w_status x = w_status w" for x
    using next_w one that by simp
  have closes: "target = ''completed'' \<or> target = ''cancelled''"
    if "workflow_closed (move_row target n a b c x)" for n a b c x
    using that by (auto simp: workflow_closed_def move_row_def)
  show ?thesis
  proof (cases "target = ''cancelled''")
    case False
    show ?thesis
      using False ts ls closes done_l step_w
      by (intro conforms_workflow [OF inv, of db', OF rows]) auto
  next
    case True
    have c: "workflows (fst (cancel_workflow_tasks wid at_time db)) = workflows db"
      "tasks db' = tasks (fst (cancel_workflow_tasks wid at_time db))"
      "lifecycles db' = lifecycles (fst (cancel_workflow_tasks wid at_time db))"
      using True ts ls db1 by (simp_all add: cancel_workflow_tasks_def workflow_tasks_of_def Let_def)
    have c1: "conforms db (fst (cancel_workflow_tasks wid at_time db))"
      by (rule conforms_cancel [OF inv, where P = "\<lambda>_ x. x = wid" and at_time = at_time and
            q = "\<lambda>l. l_task l \<in> set (workflow_tasks_of db wid) \<and> \<not> task_closed (l_state l)"])
        (simp_all add: cancel_workflow_tasks_def Let_def,
         auto simp: workflow_tasks_of_def lifecycle_closed_def)
    then have inv1: "workflow_inv (fst (cancel_workflow_tasks wid at_time db))" by (simp add: conforms_def)
    have "conforms (fst (cancel_workflow_tasks wid at_time db)) db'"
      using step_w cancelled_workflow_closes [of _ wid at_time db]
      by (intro conforms_workflow [OF inv1 rows [folded c(1)] c(2,3)]) (auto simp: c(1))
    with c1 show ?thesis by (rule conforms_trans)
  qed
qed


lemma cancel_task_conforms:
  assumes inv: "workflow_inv db" and "cancel_task env task_id actor now db = Inr (db', doc)"
  shows "conforms db db'"
  using assms(2)
proof (rule cancel_taskE)
  fix m at_time t l
  assume t: "find_task db task_id = Some t" "t_state t = ''queued''"
    and l: "find_lifecycle db task_id = Some l" "l_state l \<notin> set [''succeeded'', ''dead_letter'']"
    and db': "workflows db' = workflows db"
      "tasks db' = update_rows (\<lambda>t. t_id t = task_id \<and> t_state t = ''queued'') (cancel_row at_time) (tasks db)"
      "lifecycles db' = update_rows (\<lambda>l. l_task l = task_id) (cancel_lifecycle at_time) (lifecycles db)"
  have one: "k = l" if "k \<in> set (lifecycles db)" "l_task k = task_id" for k
    using that find_lifecycleD [OF l(1)] workflow_invD(3) [OF inv] by (metis distinct_keyD)
  obtain s where s: "s \<in> set (tasks db)" "t_id s = task_id" "l_state l = ''cancelled'' \<longrightarrow> t_state s = ''cancelled''"
    using workflow_invD(8) [OF inv] find_lifecycleD [OF l(1)] by blast
  have "s = t" by (rule distinct_keyD [OF workflow_invD(2) [OF inv] s(1)]) (use s(2) find_taskD [OF t(1)] in auto)
  with s(3) t(2) have "l_state l \<noteq> ''cancelled''" by auto
  with l(2) have nc: "\<not> lifecycle_closed l" by (simp add: lifecycle_closed_def task_closed_def)
  show ?thesis
    by (rule conforms_cancel [OF inv db'(1), where P = "\<lambda>x _. x = task_id", OF db'(2,3)])
      (use one nc find_taskD [OF t(1)] in auto)
qed

lemma enqueue_conforms:
  assumes inv: "workflow_inv db" and "enqueue env wid kind key refs parent actor now db = Inr (db', doc)"
  shows "conforms db db'"
  using assms(2)
proof (cases rule: enqueueE)
  case (queued m at_time w t)
  note i = workflow_invD [OF inv]
  have open_w: "\<not> workflow_closed x" if "x \<in> set (workflows db)" "w_id x = wid" for x
  proof -
    have "x = w" using that find_workflowD [OF queued(3)] i(1) by (metis distinct_keyD)
    with queued(4) show ?thesis by (auto simp: workflow_closed_def)
  qed
  have ids: "t_id s \<noteq> t_id t" if "s \<in> set (tasks db)" for s using queued(16) that by (metis imageI)
  have lids: "l_task l \<noteq> t_id t" if "l \<in> set (lifecycles db)" for l using queued(17) that by (metis imageI)
  have "workflow_inv db'"
    unfolding workflow_inv_def queued(7,8,9)
  proof (intro conjI)
    show "\<forall>w\<in>set (workflows db). workflow_closed w \<longrightarrow> (\<forall>ta\<in>set (tasks db @ [t]). t_workflow ta = w_id w \<longrightarrow>
       (\<forall>l\<in>set (lifecycles db @ [fresh_lifecycle (t_id t) at_time]). l_task l = t_id ta \<longrightarrow> lifecycle_closed l))"
      using i(9) open_w ids lids queued(12) by (fastforce simp: fresh_lifecycle_def)
    show "\<forall>l\<in>set (lifecycles db @ [fresh_lifecycle (t_id t) at_time]). \<exists>ta\<in>set (tasks db @ [t]). t_id ta = l_task l \<and>
       (l_state l = ''cancelled'' \<longrightarrow> t_state ta = ''cancelled'')"
      using i(8) by (auto simp: fresh_lifecycle_def)
    show "list_all lifecycle_ok (lifecycles db @ [fresh_lifecycle (t_id t) at_time])"
      using i(6) by (simp add: fresh_lifecycle_def lifecycle_ok_def task_closed_def)
    show "list_all task_ok (tasks db @ [t])" using i(5) queued by (simp add: task_ok_def)
    show "\<forall>ta\<in>set (tasks db @ [t]). t_workflow ta \<in> w_id ` set (workflows db)"
      using i(7) find_workflowD [OF queued(3)] queued(12) by (auto intro: image_eqI [of _ _ w])
    show "distinct (map l_task (lifecycles db @ [fresh_lifecycle (t_id t) at_time]))"
      using i(3) queued(17) by (auto simp: fresh_lifecycle_def)
    show "distinct (map t_id (tasks db @ [t]))" using i(2) queued(16) by auto
  qed (use i in auto)
  then show ?thesis
    by (simp add: conforms_def queued(7,8,9) table_step_evolves table_step_append)
qed (use inv in \<open>simp add: conforms_refl\<close>)

lemma create_conforms:
  assumes inv: "workflow_inv db" and "create_workflow env eng key actor now db = Inr (db', doc)"
  shows "conforms db db'"
  using assms(2)
proof (cases rule: create_workflowE)
  case (created m at_time policy w)
  note i = workflow_invD [OF inv]
  have st: "w_status w = ''planned''" "w_version w = 1" "w_finalized w = None" using created(10) by simp_all
  have "workflow_inv db'"
    unfolding workflow_inv_def created(5,6,7)
  proof (intro conjI)
    show "distinct (map w_id (workflows db @ [w]))" using i(1) created(11) by auto
    show "list_all workflow_ok (workflows db @ [w])" using i(4) st by (simp add: workflow_ok_def workflow_closed_def)
    show "\<forall>x\<in>set (workflows db @ [w]). workflow_closed x \<longrightarrow> (\<forall>t\<in>set (tasks db). t_workflow t = w_id x \<longrightarrow>
       (\<forall>l\<in>set (lifecycles db). l_task l = t_id t \<longrightarrow> lifecycle_closed l))"
      using i(9) st(1) by (auto simp: workflow_closed_def)
  qed (use i in auto)
  then show ?thesis
    by (simp add: conforms_def created(5,6,7) table_step_evolves table_step_append)
qed (use inv in \<open>simp add: conforms_refl\<close>)

lemma recover_workflow_conforms:
  assumes inv: "workflow_inv db" and r: "recover_workflow env at_time db row = Inr db'"
  shows "conforms db db'" and "extends_log env db db'"
proof -
  note t = record_event_tables [OF r [unfolded recover_workflow_def]]
  show "conforms db db'"
    by (rule conforms_workflow [OF inv t(2) [simplified]])
      (use t in \<open>auto simp: workflow_next_def move_row_def workflow_closed_def workflow_ok_def workflow_transition_def\<close>)
  show "extends_log env db db'" using t(1) by simp
qed

lemma recover_leases:
  assumes "foldr_result (recover_lease env at_time) db leases = Inr db'" and "workflow_inv db"
  shows "conforms db db' \<and> extends_log env db db' \<and> workflows db' = workflows db \<and> checkpoints db' = checkpoints db \<and>
    receipts db' = receipts db \<and>
    (\<forall>l \<in> set (lifecycles db'). l_state l = ''leased'' \<longrightarrow> l \<in> set (lifecycles db) \<and> l \<notin> set leases)"
  using assms
proof (induction leases arbitrary: db)
  case Nil
  then show ?case by (auto simp: conforms_refl)
next
  case (Cons lease leases)
  from Cons.prems(1) obtain db1 where r: "recover_lease env at_time db lease = Inr db1"
    and rest: "foldr_result (recover_lease env at_time) db1 leases = Inr db'"
    by (auto simp: bindr_eq_Inr)
  have c1: "conforms db db1" "extends_log env db db1"
    using recover_lease_conforms [OF Cons.prems(2) r] by auto
  then have "workflow_inv db1" by (simp add: conforms_def)
  note ih = Cons.IH [OF rest this]
  note t = record_event_tables [OF r [unfolded recover_lease_def Let_def]]
  have "l \<in> set (lifecycles db) \<and> l \<noteq> lease" if "l \<in> set (lifecycles db1)" "l_state l = ''leased''" for l
  proof -
    have "l \<in> set (lifecycles db) \<and> \<not> (l_task l = l_task lease \<and> l_version l = l_version lease \<and> l_state l = ''leased'')"
      by (rule update_rows_survivor [OF that(1) [unfolded t(4) update_lease_fields], where Q = "\<lambda>l. l_state l = ''leased''"])
        (use that(2) in \<open>auto simp: settle_row_def\<close>)
    with that(2) show ?thesis by auto
  qed
  then show ?case using ih c1 t conforms_trans extends_log_trans by (auto simp: update_lease_def)
qed

lemma recover_workflows:
  assumes "foldr_result (recover_workflow env at_time) db rows = Inr db'" and "workflow_inv db"
  shows "conforms db db' \<and> extends_log env db db' \<and> lifecycles db' = lifecycles db \<and> checkpoints db' = checkpoints db \<and>
    receipts db' = receipts db \<and>
    (\<forall>w \<in> set (workflows db'). w_status w = ''running'' \<longrightarrow> w \<in> set (workflows db) \<and> w \<notin> set rows)"
  using assms
proof (induction rows arbitrary: db)
  case Nil
  then show ?case by (auto simp: conforms_refl)
next
  case (Cons row rows)
  from Cons.prems(1) obtain db1 where r: "recover_workflow env at_time db row = Inr db1"
    and rest: "foldr_result (recover_workflow env at_time) db1 rows = Inr db'"
    by (auto simp: bindr_eq_Inr)
  have c1: "conforms db db1" "extends_log env db db1"
    using recover_workflow_conforms [OF Cons.prems(2) r] by auto
  then have "workflow_inv db1" by (simp add: conforms_def)
  note ih = Cons.IH [OF rest this]
  note t = record_event_tables [OF r [unfolded recover_workflow_def]]
  have "w \<in> set (workflows db) \<and> w \<noteq> row" if "w \<in> set (workflows db1)" "w_status w = ''running''" for w
    using update_rows_survivor [OF that(1) [unfolded t(2), simplified], where Q = "\<lambda>w. w_status w = ''running''"] that(2)
    by (auto simp: move_row_def)
  then show ?case using ih c1 t conforms_trans extends_log_trans by auto
qed

lemma recover_startupE:
  assumes "recover_startup env now db = Inr (db', n)" and inv: "workflow_inv db"
  obtains "conforms db db'" and "extends_log env db db'" and "checkpoints db' = checkpoints db" and "receipts db' = receipts db"
    and "\<forall>l \<in> set (lifecycles db'). l_state l \<noteq> ''leased''" and "\<forall>w \<in> set (workflows db'). w_status w \<noteq> ''running''"
    and "n = row_count (\<lambda>w. w_status w = ''running'') (workflows db)"
proof -
  from assms(1) obtain at_time db1 where
    1: "foldr_result (recover_lease env at_time) db (filter (\<lambda>l. l_state l = ''leased'') (lifecycles db)) = Inr db1" and
    2: "foldr_result (recover_workflow env at_time) db1 (filter (\<lambda>w. w_status w = ''running'') (workflows db1)) = Inr db'" and
    n: "n = int (length (filter (\<lambda>w. w_status w = ''running'') (workflows db1)))"
    unfolding recover_startup_def Let_def by (elim bindrE) blast
  note a = recover_leases [OF 1 inv]
  then have "workflow_inv db1" by (simp add: conforms_def)
  note b = recover_workflows [OF 2 this]
  show ?thesis
    using a b n by (intro that) (auto simp: row_count_def intro: conforms_trans extends_log_trans)
qed

section \<open>Histories of the service\<close>

text \<open>
  One step of the system: an operation of the service that commits, or anything another service does
  that leaves the tables of this one alone and appends to the audit log.
\<close>

inductive workflow_step :: "policy_env \<Rightarrow> 'a workflow_db_scheme \<Rightarrow> 'a workflow_db_scheme \<Rightarrow> bool" for env where
  create: "create_workflow env eng key actor now db = Inr (db', doc) \<Longrightarrow> workflow_step env db db'"
| transition: "transition env wid target v atype actor now db = Inr (db', doc) \<Longrightarrow> workflow_step env db db'"
| enqueue: "enqueue env wid kind key refs parent actor now db = Inr (db', doc) \<Longrightarrow> workflow_step env db db'"
| cancel: "cancel_task env tid actor now db = Inr (db', doc) \<Longrightarrow> workflow_step env db db'"
| claim: "claim_task env token tid v owner secs now db = Inr (db', doc) \<Longrightarrow> workflow_step env db db'"
| heartbeat: "heartbeat_task env tid v token secs now db = Inr (db', doc) \<Longrightarrow> workflow_step env db db'"
| checkpoint: "checkpoint_task env tid v token progress refs now db = Inr (db', doc) \<Longrightarrow> workflow_step env db db'"
| finalize: "finalize_task env tid operation v token key err delay now db = Inr (db', doc) \<Longrightarrow> workflow_step env db db'"
| recover: "recover_startup env now db = Inr (db', n) \<Longrightarrow> workflow_step env db db'"
| other: "extends_log env db db' \<Longrightarrow> workflows db' = workflows db \<Longrightarrow> tasks db' = tasks db \<Longrightarrow>
    lifecycles db' = lifecycles db \<Longrightarrow> checkpoints db' = checkpoints db \<Longrightarrow> receipts db' = receipts db \<Longrightarrow>
    workflow_step env db db'"

definition digest_length :: "policy_env \<Rightarrow> bool" where
  "digest_length env \<longleftrightarrow> (\<forall>t. length (sha256_hex env t) = 64)"

lemma step_conforms:
  assumes "workflow_step env db db'" and "workflow_inv db" and "digest_length env"
  shows "conforms db db'"
  using assms
proof (induction rule: workflow_step.induct)
  case (claim token tid v owner secs now db db' doc)
  then show ?case by (intro claim_conforms) (auto simp: digest_length_def token_hash_def)
next
  case (other db db')
  then show ?case using conforms_same [OF conforms_refl] by blast
qed (auto intro: create_conforms transition_conforms enqueue_conforms cancel_task_conforms heartbeat_conforms
    checkpoint_conforms finalize_conforms elim: recover_startupE)

lemma history_conforms:
  assumes "(workflow_step env)\<^sup>*\<^sup>* db db'" and "workflow_inv db" and "digest_length env"
  shows "conforms db db'"
  using assms(1)
proof (induction rule: rtranclp_induct)
  case base
  then show ?case using assms(2) by (rule conforms_refl)
next
  case (step y z)
  then have "workflow_inv y" by (simp add: conforms_def)
  with step assms(3) show ?case by (auto intro: conforms_trans step_conforms)
qed

lemma step_extends:
  assumes "workflow_step env db db'" and "workflow_inv db"
  shows "extends_log env db db'"
  using assms
proof (induction rule: workflow_step.induct)
  case (create eng key actor now db db' doc)
  from create(1) show ?case by (cases rule: create_workflowE) auto
next
  case (transition wid target v atype actor now db db' doc)
  from transition(1) show ?case by (rule transitionE)
next
  case (enqueue wid kind key refs parent actor now db db' doc)
  from enqueue(1) show ?case by (cases rule: enqueueE) auto
next
  case (cancel tid actor now db db' doc)
  from cancel(1) show ?case by (rule cancel_taskE)
next
  case (claim token tid v owner secs now db db' doc)
  from claim(1) show ?case by (rule claim_taskE) (simp add: frame_def)
next
  case (heartbeat tid v token secs now db db' doc)
  from heartbeat(1) show ?case by (rule heartbeat_taskE) (simp add: frame_def)
next
  case (checkpoint tid v token progress refs now db db' doc)
  from checkpoint(1) show ?case by (rule checkpoint_taskE) (simp add: frame_def)
next
  case (finalize tid operation v token key err delay now db db' doc)
  from finalize(1) show ?case by (cases rule: finalize_taskE) (auto simp: frame_def)
qed (auto elim: recover_startupE)

text \<open>The service is audited, on the states that satisfy its invariant.\<close>

definition sound_step :: "policy_env \<Rightarrow> 'a workflow_db_scheme \<Rightarrow> 'a workflow_db_scheme \<Rightarrow> bool" where
  "sound_step env db db' \<longleftrightarrow> workflow_step env db db' \<and> workflow_inv db"

interpretation workflow_audit: audited_service env "sound_step env" for env
  by unfold_locales (auto simp: sound_step_def intro: step_extends)

lemma history_sound:
  assumes "(workflow_step env)\<^sup>*\<^sup>* db db'" and "workflow_inv db" and "digest_length env"
  shows "(sound_step env)\<^sup>*\<^sup>* db db'"
  using assms(1)
proof (induction rule: rtranclp_induct)
  case (step y z)
  have "workflow_inv y" using history_conforms [OF step.hyps(1) assms(2,3)] by (simp add: conforms_def)
  with step show ?case by (auto simp: sound_step_def intro: rtranclp.rtrancl_into_rtrancl)
qed simp

text \<open>Receipts are only added.\<close>

lemma step_receipts:
  assumes "workflow_step env db db'" and "workflow_inv db"
  shows "prefix (receipts db) (receipts db')"
  using assms
proof (induction rule: workflow_step.induct)
  case (create eng key actor now db db' doc)
  from create(1) show ?case by (cases rule: create_workflowE) auto
next
  case (transition wid target v atype actor now db db' doc)
  from transition(1) show ?case by (rule transitionE) simp
next
  case (enqueue wid kind key refs parent actor now db db' doc)
  from enqueue(1) show ?case by (cases rule: enqueueE) auto
next
  case (cancel tid actor now db db' doc)
  from cancel(1) show ?case by (rule cancel_taskE) simp
next
  case (claim token tid v owner secs now db db' doc)
  from claim(1) show ?case by (rule claim_taskE) simp
next
  case (heartbeat tid v token secs now db db' doc)
  from heartbeat(1) show ?case by (rule heartbeat_taskE) simp
next
  case (checkpoint tid v token progress refs now db db' doc)
  from checkpoint(1) show ?case by (rule checkpoint_taskE) simp
next
  case (finalize tid operation v token key err delay now db db' doc)
  from finalize(1) show ?case by (cases rule: finalize_taskE) auto
next
  case (recover now db db' n)
  from recover(1,2) have "receipts db' = receipts db" by (rule recover_startupE)
  then show ?case by simp
qed simp

lemma history_receipts: "(sound_step env)\<^sup>*\<^sup>* db db' \<Longrightarrow> prefix (receipts db) (receipts db')"
  by (induction rule: rtranclp_induct) (auto simp: sound_step_def dest: step_receipts)

section \<open>Theorems on histories\<close>

text \<open>
  C13. On every history of committed operations, interleaved with any activity of other services, the
  state of the workflow service stays consistent: identifiers are unique, every row satisfies the CHECK
  constraints of its table (a lifecycle is leased exactly when it has an owner, a token hash and an
  expiry; attempts never exceed the maximum; a row has a finalization time exactly when it is closed),
  a cancelled lifecycle belongs to a cancelled task, and a completed or cancelled workflow has no open
  task. The digest is assumed to have 64 characters.
\<close>

theorem workflow_invariant:
  assumes "(workflow_step env)\<^sup>*\<^sup>* db db'" and "workflow_inv db" and "digest_length env"
  shows "workflow_inv db'"
  using history_conforms [OF assms] by (simp add: conforms_def)

text \<open>
  C14. Refinement of the schema's state machines: on every history, each workflow, task and lifecycle
  row moves only along the transitions that the database triggers list (stated from the schema, not from
  the transition table of the service), its identity columns never change and no row disappears.
\<close>

theorem workflow_refines_schema:
  assumes "(workflow_step env)\<^sup>*\<^sup>* db db'" and "workflow_inv db" and "digest_length env"
  shows "table_evolves workflow_next (workflows db) (workflows db') \<and>
    table_evolves task_next (tasks db) (tasks db') \<and> table_evolves lifecycle_next (lifecycles db) (lifecycles db')"
  using history_conforms [OF assms] by (simp add: conforms_def)

text \<open>
  Version fencing is sound: along any history the version of a task's lifecycle never decreases, a
  lifecycle seen twice at the same version is the very same row (so a caller that presents the version
  it read has missed no change), and a succeeded, dead-lettered or cancelled lifecycle never changes
  again.
\<close>

theorem lifecycle_fencing:
  assumes h: "(workflow_step env)\<^sup>*\<^sup>* db db'" and inv: "workflow_inv db" and dl: "digest_length env"
    and l: "find_lifecycle db tid = Some l" and l': "find_lifecycle db' tid = Some l'"
  shows "l_version l \<le> l_version l' \<and> (l_version l' = l_version l \<longrightarrow> l' = l) \<and> (lifecycle_closed l \<longrightarrow> l' = l)"
proof -
  have c: "table_evolves lifecycle_next (lifecycles db) (lifecycles db')" "workflow_inv db'"
    using history_conforms [OF h inv dl] by (auto simp: conforms_def)
  show ?thesis
    using lifecycle_rows.fenced [OF c(1) workflow_invD(3) [OF c(2)], of l l'] find_lifecycleD [OF l] find_lifecycleD [OF l']
    by auto
qed

text \<open>
  The audit log under the workflow service: on every history the log is extended at its end only,
  and a log that is chained stays chained.
\<close>

theorem workflow_audit_chained:
  assumes "(workflow_step env)\<^sup>*\<^sup>* db db'" and "workflow_inv db" and "digest_length env" and "chained env (audit db)"
  shows "chained env (audit db') \<and> prefix (audit db) (audit db')"
  using history_sound [OF assms(1-3)] assms(4)
  by (auto intro: workflow_audit.history_chained workflow_audit.history_prefix)

lemma find_lifecycle_update:
  assumes "lifecycles db' = update_rows p f (lifecycles db)" and "\<And>l. l_task (f l) = l_task l"
    and "find_lifecycle db tid = Some l"
  shows "find_lifecycle db' tid = Some (if p l then f l else l)"
proof -
  have "find (\<lambda>l. l_task l = tid) ls = Some l \<Longrightarrow>
      find (\<lambda>l. l_task l = tid) (update_rows p f ls) = Some (if p l then f l else l)" for ls
    using assms(2) by (induction ls) (auto simp: update_rows_def split: if_splits)
  with assms(1,3) show ?thesis by (simp add: find_lifecycle_def)
qed

lemma claim_result:
  assumes "claim_task env token tid v owner secs now db = Inr (db', lease)"
  obtains l expires_at at_time where "find_lifecycle db tid = Some l" and "l_version l = v"
    and "find_lifecycle db' tid = Some (claim_row (v + 1) owner (token_hash env token) expires_at at_time l)"
  using assms
proof (rule claim_taskE)
  fix m at_time expires_at l
  assume h: "task_authority db tid m = Inr l" "l_version l = v" "l_state l \<in> set [''queued'', ''retry_wait'']"
    "lifecycles db' = update_rows
           (\<lambda>l. l_task l = tid \<and> l_version l = v \<and> l_state l \<in> set [''queued'', ''retry_wait''])
           (claim_row (v + 1) owner (token_hash env token) expires_at at_time) (lifecycles db)"
  from h(1) have f: "find_lifecycle db tid = Some l" by (rule task_authorityE)
  from find_lifecycle_update [OF h(4) _ f] h(2,3) find_lifecycleD [OF f]
  have "find_lifecycle db' tid = Some (claim_row (v + 1) owner (token_hash env token) expires_at at_time l)"
    by (auto simp: claim_row_def)
  with f h(2) that show thesis by blast
qed

text \<open>
  C15. A claim is exclusive: once a task was claimed at version \<open>v\<close>, no later claim that presents the
  same version can succeed, whatever happened in between; two workers that read the same version never
  both obtain the lease.
\<close>

theorem claim_exclusive:
  assumes c: "claim_task env token tid v owner secs now db = Inr (db1, lease)"
    and h: "(workflow_step env)\<^sup>*\<^sup>* db1 db2" and inv: "workflow_inv db" and dl: "digest_length env"
  shows "\<exists>e. claim_task env token' tid v owner' secs' now' db2 = Inl e"
proof (cases "claim_task env token' tid v owner' secs' now' db2")
  case (Inr r)
  obtain db3 lease' where "claim_task env token' tid v owner' secs' now' db2 = Inr (db3, lease')"
    using Inr by (cases r) auto
  then obtain l2 where l2: "find_lifecycle db2 tid = Some l2" "l_version l2 = v" by (rule claim_result)
  from c obtain l1 where l1: "find_lifecycle db1 tid = Some l1" "l_version l1 = v + 1"
    by (rule claim_result) (simp add: claim_row_def)
  have "workflow_inv db1"
    using claim_conforms [OF inv _ c] dl by (auto simp: conforms_def digest_length_def token_hash_def)
  from history_conforms [OF h this dl] have e: "table_evolves lifecycle_next (lifecycles db1) (lifecycles db2)" "workflow_inv db2"
    by (auto simp: conforms_def)
  have "v + 1 \<le> v"
    using lifecycle_rows.fenced(1) [OF e(1) workflow_invD(3) [OF e(2)], of l1 l2] l1 l2 find_lifecycleD by metis
  then show ?thesis by simp
qed simp

text \<open>
  C16. Only the holder of a live lease can settle a task: when \<open>finalize_task\<close> commits a new result, the
  caller presented the current version and a token whose hash is the stored one, the lease had not
  expired, the workflow was running and its policy bundle was still the engagement's active one. The
  task then is succeeded, or waits for a retry, or is dead-lettered when its attempts are used up.
\<close>

theorem finalize_requires_lease:
  assumes "finalize_task env tid operation v token key err delay now db = Inr (db', doc)"
    and "find_receipt db tid operation key = None"
  shows "\<exists>m l e t w tr l'. trusted_time now = Inr m \<and> find_lifecycle db tid = Some l \<and> l_version l = v \<and> l_state l = ''leased'' \<and>
    l_token_hash l = Some (token_hash env token) \<and> l_expires l = Some e \<and> parse_time_str e = Inr t \<and> utc m < t \<and>
    find_task db tid = Some tr \<and> find_workflow db (t_workflow tr) = Some w \<and> w_status w = ''running'' \<and>
    active_authority db (w_engagement w) m = Inr (w_policy w) \<and>
    find_lifecycle db' tid = Some l' \<and> l_version l' = v + 1 \<and> l_token_hash l' = None \<and>
    l_state l' = (if operation = ''complete'' then ''succeeded'' else if l_max l \<le> l_attempts l then ''dead_letter'' else ''retry_wait'')"
  using assms(1)
proof (cases rule: finalize_taskE)
  case (settled m at_time l l' s n f r)
  from settled(3) obtain e t where l: "find_lifecycle db tid = Some l" "l_version l = v" "l_state l = ''leased''"
    "l_token_hash l = Some (token_hash env token)" "l_expires l = Some e" "parse_time_str e = Inr t" "utc m < t"
    by (rule leased_taskE)
  from settled(4) obtain tr w where w: "find_task db tid = Some tr" "find_workflow db (t_workflow tr) = Some w"
    "w_status w = ''running''" "workflow_authority db w m = Inr ()"
    by (rule task_authorityE)
  have a: "active_authority db (w_engagement w) m = Inr (w_policy w)"
    using w(4) by (auto simp: workflow_authority_def bindr_eq_Inr guardr_eq_Inr)
  have f: "find_lifecycle db' tid = Some (settle_row s (v + 1) n err at_time f l)"
    using find_lifecycle_update [OF settled(9) _ l(1)] l find_lifecycleD [OF l(1)] by (simp add: settle_row_def)
  have s: "s = (if operation = ''complete'' then ''succeeded'' else if l_max l \<le> l_attempts l then ''dead_letter'' else ''retry_wait'')"
    using settled(5) by (auto elim: settlementE)
  show ?thesis
    by (intro exI [of _ m] exI [of _ l] exI [of _ e] exI [of _ t] exI [of _ w] exI [of _ tr]
        exI [of _ "settle_row s (v + 1) n err at_time f l"] conjI)
      (use settled(1) l w a f s in \<open>simp_all add: settle_row_def\<close>)
qed (use assms(2) in simp)

text \<open>
  C17. Settling a task is idempotent: after \<open>finalize_task\<close> committed under an idempotency key, the same
  request returns the same document at any later time and changes nothing, even though the lease is
  gone and whatever other operations happened in between.
\<close>

theorem finalize_replay:
  assumes c: "finalize_task env tid operation v token key err delay now db = Inr (db1, doc)"
    and inv: "workflow_inv db" and dl: "digest_length env" and h: "(workflow_step env)\<^sup>*\<^sup>* db1 db2"
    and now': "trusted_time now' = Inr m'" "wf_timestamp m' = Inr at'"
  shows "finalize_task env tid operation v token key err delay now' db2 = Inr (db2, doc)"
proof -
  have inv1: "workflow_inv db1" using finalize_conforms [OF inv c] by (simp add: conforms_def)
  obtain r where r: "find_receipt db1 tid operation key = Some r" "r_token_hash r = token_hash env token" "r_result r = doc"
    using c
  proof (cases rule: finalize_taskE)
    case (settled m at_time l l' s n f r)
    have "find_receipt db1 tid operation key = Some r"
      using settled(7,11-14) by (auto simp: find_receipt_def find_append split: option.splits)
    with settled that show ?thesis by blast
  qed auto
  have "prefix (receipts db1) (receipts db2)" using history_receipts history_sound [OF h inv1 dl] by blast
  then have "find_receipt db2 tid operation key = Some r"
    using r(1) by (auto simp: find_receipt_def prefix_def find_append)
  moreover obtain g where "check_key key = Inr g" "operation \<in> set [''complete'', ''fail'']"
    "\<not> (operation = ''complete'' \<and> err \<noteq> None)" "\<not> (operation = ''fail'' \<and> err \<in> {None, Some []})"
    "\<not> (case err of None \<Rightarrow> False | Some c \<Rightarrow> \<not> error_code_pattern c)" "0 \<le> delay \<and> delay \<le> 3600"
    using c unfolding finalize_task_def by (elim bindrE guardrE) blast
  ultimately show ?thesis
    using now' r by (simp add: finalize_task_def guardr_def)
qed

text \<open>
  C19. Recovery at startup leaves nothing in flight: no task is leased and no workflow is running
  afterwards, leases that had attempts left wait for a retry, and the result is the number of workflows
  that were running. Resuming is never automatic, since no workflow or lease is restarted.
\<close>

theorem recovery_quiesces:
  assumes "recover_startup env now db = Inr (db', n)" and "workflow_inv db"
  shows "(\<forall>l \<in> set (lifecycles db'). l_state l \<noteq> ''leased'') \<and> (\<forall>w \<in> set (workflows db'). w_status w \<noteq> ''running'') \<and>
    n = row_count (\<lambda>w. w_status w = ''running'') (workflows db) \<and> workflow_inv db'"
  using assms by (rule recover_startupE) (simp add: conforms_def)

definition running_in :: "'a workflow_db_scheme \<Rightarrow> string \<Rightarrow> bool" where
  "running_in db wid \<longleftrightarrow> (\<exists>w \<in> set (workflows db). w_id w = wid \<and> w_status w = ''running'')"

lemma running_in_update:
  assumes "workflows db' = update_rows p f (workflows db)" and "running_in db' wid" and "\<not> running_in db wid"
    and "\<And>w. w_id (f w) = w_id w"
  shows "\<exists>w \<in> set (workflows db). w_id w = wid \<and> p w \<and> w_status (f w) = ''running''"
proof -
  obtain w' where w': "w' \<in> set (update_rows p f (workflows db))" "w_id w' = wid" "w_status w' = ''running''"
    using assms(1,2) by (auto simp: running_in_def)
  then obtain w where w: "w \<in> set (workflows db)" "w' = (if p w then f w else w)" unfolding in_update_rows by blast
  have "p w"
  proof (rule ccontr)
    assume "\<not> p w"
    with w have "w' = w" by simp
    with w(1) w' assms(3) show False by (auto simp: running_in_def)
  qed
  with w w' assms(4) [of w] show ?thesis by auto
qed

text \<open>
  C18. Supervision: the only step that makes a workflow run is a transition to \<open>running\<close> requested by a
  human, from a ready or paused workflow, while the workflow's policy bundle is the active one of an
  active, unexpired engagement and the global safety state is active.
\<close>

theorem only_humans_start:
  assumes "workflow_step env db db'" and "workflow_inv db" and "running_in db' wid" and "\<not> running_in db wid"
  shows "\<exists>v actor now doc m w. transition env wid ''running'' v ''human'' actor now db = Inr (db', doc) \<and>
    trusted_time now = Inr m \<and> find_workflow db wid = Some w \<and> w_status w \<in> {''ready'', ''paused''} \<and>
    active_authority db (w_engagement w) m = Inr (w_policy w)"
  using assms
proof (induction rule: workflow_step.induct)
  case (create eng key actor now db db' doc)
  from create(1,3,4) show ?case by (cases rule: create_workflowE) (auto simp: running_in_def)
next
  case (transition wid' target v atype actor now db db' doc)
  note tr = transition(1)
  from transition(1) show ?case
  proof (rule transitionE)
    fix m at_time w db1
    assume h: "trusted_time now = Inr m" "find_workflow db wid' = Some w" "target \<in> set (allowed_targets (w_status w))"
      "target = ''running'' \<Longrightarrow> atype = ''human''"
      "target \<in> set [''ready'', ''running'', ''completed''] \<Longrightarrow> workflow_authority db w m = Inr ()"
      "db1 = db\<lparr>workflows := update_rows
           (\<lambda>x. w_id x = wid' \<and> w_version x = v \<and> w_status x = w_status w)
           (move_row target (v + 1) at_time
             (if target = ''running'' \<and> w_started w = None then Some at_time else w_started w)
             (if target \<in> set [''completed'', ''cancelled''] then Some at_time else None)) (workflows db)\<rparr>"
      "workflows db' = workflows db1"
    have t: "target = ''running''" "wid' = wid"
      using running_in_update [OF h(7) [unfolded h(6), simplified] transition(3,4)] by (auto simp: move_row_def)
    have "active_authority db (w_engagement w) m = Inr (w_policy w)"
      using h(5) t by (auto simp: workflow_authority_def bindr_eq_Inr guardr_eq_Inr)
    moreover have "w_status w \<in> {''ready'', ''paused''}"
      using h(3) t by (auto elim: allowed_targets_cases)
    ultimately show ?thesis using tr t h(1,2,4) by blast
  qed
next
  case (enqueue wid kind key refs parent actor now db db' doc)
  from enqueue(1,3,4) show ?case by (cases rule: enqueueE) (auto simp: running_in_def)
next
  case (cancel tid actor now db db' doc)
  from cancel(1) have "workflows db' = workflows db" by (rule cancel_taskE)
  with cancel(3,4) show ?case by (simp add: running_in_def)
next
  case (claim token tid v owner secs now db db' doc)
  from claim(1) have "workflows db' = workflows db" by (rule claim_taskE) (simp add: frame_def)
  with claim(3,4) show ?case by (simp add: running_in_def)
next
  case (heartbeat tid v token secs now db db' doc)
  from heartbeat(1) have "workflows db' = workflows db" by (rule heartbeat_taskE) (simp add: frame_def)
  with heartbeat(3,4) show ?case by (simp add: running_in_def)
next
  case (checkpoint tid v token progress refs now db db' doc)
  from checkpoint(1) have "workflows db' = workflows db" by (rule checkpoint_taskE) (simp add: frame_def)
  with checkpoint(3,4) show ?case by (simp add: running_in_def)
next
  case (finalize tid operation v token key err delay now db db' doc)
  from finalize(1) have "workflows db' = workflows db" by (cases rule: finalize_taskE) (auto simp: frame_def)
  with finalize(3,4) show ?case by (simp add: running_in_def)
next
  case (recover now db db' n)
  from recover(1,2) have "\<forall>w \<in> set (workflows db'). w_status w \<noteq> ''running''" by (rule recover_startupE)
  with recover(3) show ?case by (auto simp: running_in_def)
qed (simp add: running_in_def)

section \<open>Checkpoints\<close>

text \<open>The checkpoints of a task are numbered 1, 2, 3 and so on, and their progress never decreases.\<close>

definition progress_ok :: "checkpoint_row list \<Rightarrow> bool" where
  "progress_ok cs \<longleftrightarrow> map c_sequence cs = map int [1..<Suc (length cs)] \<and> sorted (map c_progress cs) \<and>
     list_all (\<lambda>c. 0 \<le> c_progress c \<and> c_progress c \<le> 100) cs"

definition checkpoints_ok :: "'a workflow_db_scheme \<Rightarrow> bool" where
  "checkpoints_ok db \<longleftrightarrow> (\<forall>tid. progress_ok (filter (\<lambda>c. c_task c = tid) (checkpoints db)))"

lemma task_checkpoints_filter:
  assumes "checkpoints_ok db"
  shows "task_checkpoints db tid = filter (\<lambda>c. c_task c = tid) (checkpoints db)"
proof -
  let ?cs = "filter (\<lambda>c. c_task c = tid) (checkpoints db)"
  have "map c_sequence ?cs = map int [1..<Suc (length ?cs)]"
    using assms by (auto simp: checkpoints_ok_def progress_ok_def)
  then have "sorted (map c_sequence ?cs)" by (simp only: sorted_map) (rule sorted_wrt_mono_rel [OF _ sorted_upt], simp)
  then show ?thesis by (simp add: task_checkpoints_def sort_key_id_if_sorted)
qed

lemma progress_ok_snoc:
  assumes "progress_ok cs" and "c_sequence c = (if cs = [] then 0 else c_sequence (last cs)) + 1"
    and "cs = [] \<or> c_progress (last cs) \<le> c_progress c" and "0 \<le> c_progress c" "c_progress c \<le> 100"
  shows "progress_ok (cs @ [c])"
proof (cases cs rule: rev_cases)
  case (snoc ds d)
  with assms have "c_sequence d = int (length cs)" by (auto simp: progress_ok_def)
  moreover have "c_progress x \<le> c_progress d" if "x \<in> set cs" for x
    using that assms(1) snoc by (auto simp: progress_ok_def sorted_append)
  ultimately show ?thesis using assms snoc by (force simp: progress_ok_def sorted_append)
qed (use assms in \<open>simp add: progress_ok_def\<close>)

lemma step_checkpoints:
  assumes "workflow_step env db db'" and "workflow_inv db" and "checkpoints_ok db"
  shows "checkpoints_ok db' \<and> prefix (checkpoints db) (checkpoints db')"
  using assms
proof (induction rule: workflow_step.induct)
  case (create eng key actor now db db' doc)
  from create(1,3) show ?case by (cases rule: create_workflowE) (auto simp: checkpoints_ok_def)
next
  case (transition wid target v atype actor now db db' doc)
  from transition(1) have "checkpoints db' = checkpoints db" by (rule transitionE)
  with transition(3) show ?case by (simp add: checkpoints_ok_def)
next
  case (enqueue wid kind key refs parent actor now db db' doc)
  from enqueue(1,3) show ?case by (cases rule: enqueueE) (auto simp: checkpoints_ok_def)
next
  case (cancel tid actor now db db' doc)
  from cancel(1) have "checkpoints db' = checkpoints db" by (rule cancel_taskE)
  with cancel(3) show ?case by (simp add: checkpoints_ok_def)
next
  case (claim token tid v owner secs now db db' doc)
  from claim(1) have "checkpoints db' = checkpoints db" by (rule claim_taskE)
  with claim(3) show ?case by (simp add: checkpoints_ok_def)
next
  case (heartbeat tid v token secs now db db' doc)
  from heartbeat(1) have "checkpoints db' = checkpoints db" by (rule heartbeat_taskE)
  with heartbeat(3) show ?case by (simp add: checkpoints_ok_def)
next
  case (checkpoint tid v token progress refs now db db' doc)
  from checkpoint(1) obtain c where c: "checkpoints db' = checkpoints db @ [c]" "c_task c = tid"
    "c_progress c = progress" "0 \<le> progress" "progress \<le> 100"
    "c_sequence c = (if task_checkpoints db tid = [] then 0 else c_sequence (last (task_checkpoints db tid))) + 1"
    "task_checkpoints db tid = [] \<or> c_progress (last (task_checkpoints db tid)) \<le> progress"
    by (rule checkpoint_taskE)
  note f = task_checkpoints_filter [OF checkpoint(3), of tid]
  have "progress_ok (filter (\<lambda>c. c_task c = tid) (checkpoints db) @ [c])"
    using checkpoint(3) c [unfolded f] by (intro progress_ok_snoc) (auto simp: checkpoints_ok_def)
  then show ?case using checkpoint(3) c(1,2) by (auto simp: checkpoints_ok_def)
next
  case (finalize tid operation v token key err delay now db db' doc)
  from finalize(1,3) show ?case by (cases rule: finalize_taskE) (auto simp: checkpoints_ok_def)
next
  case (recover now db db' n)
  from recover(1,2) have "checkpoints db' = checkpoints db" by (rule recover_startupE)
  with recover(3) show ?case by (simp add: checkpoints_ok_def)
qed (simp add: checkpoints_ok_def)

text \<open>
  Checkpoints are append-only and monotone: on every history, the checkpoints recorded so far stay,
  the checkpoints of each task are numbered consecutively from 1, their progress lies between 0 and 100
  and never decreases.
\<close>

theorem checkpoints_monotone:
  assumes "(workflow_step env)\<^sup>*\<^sup>* db db'" and "workflow_inv db" and "digest_length env" and "checkpoints_ok db"
  shows "checkpoints_ok db' \<and> prefix (checkpoints db) (checkpoints db')"
  using history_sound [OF assms(1-3)] assms(4)
  by (induction rule: rtranclp_induct) (auto simp: sound_step_def dest: step_checkpoints)

end
