(* ===== verification/Sample_Workflow.thy ===== *)
theory Sample_Workflow
  imports Workflow_Safety
begin

text \<open>
  A concrete state of the workflow service, with a running workflow and a queued task. The operations
  are computed on it in the logic; it instantiates the hypotheses of the theorems on histories.
\<close>

section \<open>A sample workflow\<close>

definition sample_digest :: "string \<Rightarrow> string" where
  "sample_digest s = take 64 (s @ replicate 64 CHR ''0'')"

definition sample_core_env :: policy_env where
  "sample_core_env =
     \<lparr>sha256_hex = sample_digest, float_repr = (\<lambda>_. ''0.5''), uuid5 = (\<lambda>_ s. s), idna_encode = Some,
      iter_errors = (\<lambda>_ _. []), zone_info = (\<lambda>_. Inr \<lparr>utc_offset = (\<lambda>_. 0), wall_offset = (\<lambda>_ _. 0)\<rparr>),
      float_times = (*), type_error_text = []\<rparr>"

text \<open>2026-01-15T00:00:00Z.\<close>

definition sample_clock :: datetime where
  "sample_clock = Aware 63904032000000000 0"

definition sample_workflow :: workflow_row where
  "sample_workflow =
     \<lparr>w_id = ''w1'', w_engagement = ''e1'', w_policy = ''p1'', w_key = ''workflow-key-0001'', w_status = ''running'',
      w_version = 3, w_created = ''2026-01-14T00:00:00Z'', w_updated = ''2026-01-14T00:00:00Z'',
      w_started = Some ''2026-01-14T00:00:00Z'', w_finalized = None\<rparr>"

definition sample_task :: task_row where
  "sample_task =
     \<lparr>t_id = ''t1'', t_workflow = ''w1'', t_parent = None, t_kind = ''evidence_capture'', t_state = ''queued'',
      t_key = ''task-key-00000001'', t_refs = JList [], t_created = ''2026-01-14T00:00:00Z'', t_finalized = None\<rparr>"

definition sample_db :: workflow_db where
  "sample_db =
     \<lparr>engagements = [\<lparr>e_id = ''e1'', e_policy = Some ''p1'', e_status = ''active'', e_expires = ''2026-02-01T00:00:00Z''\<rparr>],
      bundles = [\<lparr>b_id = ''p1'', b_activated = Some ''2026-01-01T00:00:00Z'', b_revoked = None, b_policy = None\<rparr>],
      safety = [''active''], audit = [], outbox = [], uuid4 = (\<lambda>n. CHR ''u'' # decimal (int n)), drawn = 0,
      workflows = [sample_workflow], tasks = [sample_task],
      lifecycles = [fresh_lifecycle ''t1'' ''2026-01-14T00:00:00Z''], checkpoints = [], receipts = []\<rparr>"

definition sample_token :: string where
  "sample_token = ''0123456789abcdef0123456789abcdef''"

definition state_after :: "('s \<times> 'r) result \<Rightarrow> 's \<Rightarrow> 's" where
  "state_after r s = (case r of Inl _ \<Rightarrow> s | Inr (s', _) \<Rightarrow> s')"

definition reply :: "('s \<times> 'r) result \<Rightarrow> 'r \<Rightarrow> 'r" where
  "reply r d = (case r of Inl _ \<Rightarrow> d | Inr (_, x) \<Rightarrow> x)"

lemma state_after_reply: "\<not> isl r \<Longrightarrow> r = Inr (state_after r s, reply r d)"
  by (cases r) (auto simp: state_after_def reply_def)

definition sample_claim :: "(workflow_db \<times> json) result" where
  "sample_claim = claim_task sample_core_env sample_token ''t1'' 1 ''worker'' 60 sample_clock sample_db"

definition claimed_db :: workflow_db where
  "claimed_db = state_after sample_claim sample_db"

lemma sample_digest_length: "digest_length sample_core_env"
  by (auto simp: digest_length_def sample_core_env_def sample_digest_def)



lemma sample_claim_ok: "\<not> isl sample_claim"
  by code_simp


lemma sample_inv: "workflow_inv sample_db"
  by code_simp

lemma sample_claim_result:
  "claim_task sample_core_env sample_token ''t1'' 1 ''worker'' 60 sample_clock sample_db =
     Inr (claimed_db, reply sample_claim JNull)"
  using state_after_reply [OF sample_claim_ok, of sample_db JNull] by (simp add: claimed_db_def sample_claim_def)

lemma sample_claim_step: "workflow_step sample_core_env sample_db claimed_db"
  by (rule workflow_step.claim [OF sample_claim_result])

lemma sample_history: "(workflow_step sample_core_env)\<^sup>*\<^sup>* sample_db claimed_db"
  using sample_claim_step by blast

lemma claimed_inv: "workflow_inv claimed_db"
  using step_conforms [OF sample_claim_step sample_inv sample_digest_length] by (simp add: conforms_def)

theorem workflow_invariant_witness: "workflow_inv claimed_db \<and> lifecycles claimed_db \<noteq> lifecycles sample_db"
proof
  show "workflow_inv claimed_db"
    by (rule workflow_invariant [OF sample_history sample_inv sample_digest_length])
  show "lifecycles claimed_db \<noteq> lifecycles sample_db" by code_simp
qed

theorem workflow_refines_schema_witness:
  "table_evolves lifecycle_next (lifecycles sample_db) (lifecycles claimed_db)"
  using workflow_refines_schema [OF sample_history sample_inv sample_digest_length] by simp

definition sample_finalize :: "(workflow_db \<times> json) result" where
  "sample_finalize =
     finalize_task sample_core_env ''t1'' ''fail'' 2 sample_token ''receipt-key-00001'' (Some ''TIMEOUT'') 30 sample_clock claimed_db"

definition settled_db :: workflow_db where
  "settled_db = state_after sample_finalize claimed_db"

lemma sample_finalize_ok: "\<not> isl sample_finalize"
  by code_simp

lemma sample_finalize_result:
  "finalize_task sample_core_env ''t1'' ''fail'' 2 sample_token ''receipt-key-00001'' (Some ''TIMEOUT'') 30 sample_clock
     claimed_db = Inr (settled_db, reply sample_finalize JNull)"
  using state_after_reply [OF sample_finalize_ok, of claimed_db JNull] by (simp add: settled_db_def sample_finalize_def)

lemma sample_finalize_step: "workflow_step sample_core_env claimed_db settled_db"
  by (rule workflow_step.finalize [OF sample_finalize_result])

theorem claim_exclusive_witness:
  "\<exists>e. claim_task sample_core_env ''another-token-0123456789abcdef0123'' ''t1'' 1 ''rival'' 60 sample_clock settled_db = Inl e"
  using claim_exclusive [OF sample_claim_result r_into_rtranclp [of "workflow_step sample_core_env", OF sample_finalize_step]
      sample_inv sample_digest_length] .

theorem finalize_requires_lease_witness:
  "\<exists>l'. find_lifecycle settled_db ''t1'' = Some l' \<and> l_version l' = 3 \<and> l_token_hash l' = None"
proof -
  have "find_receipt claimed_db ''t1'' ''fail'' ''receipt-key-00001'' = None" by code_simp
  from finalize_requires_lease [OF sample_finalize_result this] show ?thesis by auto
qed

theorem finalize_replay_witness:
  "finalize_task sample_core_env ''t1'' ''fail'' 2 sample_token ''receipt-key-00001'' (Some ''TIMEOUT'') 30 (Aware 63904033000000000 0)
     settled_db = Inr (settled_db, reply sample_finalize JNull)"
proof -
  have "trusted_time (Aware 63904033000000000 0) = Inr (63904033000000000, 0)" by code_simp
  moreover have "wf_timestamp (63904033000000000, 0) = Inr ''2026-01-15T00:16:40Z''" by code_simp
  ultimately show ?thesis
    by (rule finalize_replay [OF sample_finalize_result claimed_inv sample_digest_length rtranclp.rtrancl_refl])
qed

definition sample_recovery :: "(workflow_db \<times> int) result" where
  "sample_recovery = recover_startup sample_core_env sample_clock claimed_db"

theorem recovery_quiesces_witness:
  "list_all (\<lambda>w. w_status w \<noteq> ''running'') (workflows (state_after sample_recovery claimed_db))"
proof -
  have "\<not> isl sample_recovery" by code_simp
  from recovery_quiesces [OF state_after_reply [OF this, of claimed_db 0, unfolded sample_recovery_def] claimed_inv]
  show ?thesis by (simp add: sample_recovery_def list_all_iff)
qed

definition paused_db :: workflow_db where
  "paused_db = sample_db\<lparr>workflows := [sample_workflow\<lparr>w_status := ''paused''\<rparr>]\<rparr>"

definition sample_resume :: "(workflow_db \<times> json) result" where
  "sample_resume = transition sample_core_env ''w1'' ''running'' 3 ''human'' ''operator'' sample_clock paused_db"

theorem only_humans_start_witness:
  "\<exists>v actor now doc. transition sample_core_env ''w1'' ''running'' v ''human'' actor now paused_db =
     Inr (state_after sample_resume paused_db, doc)"
proof -
  have ok: "\<not> isl sample_resume" by code_simp
  have "workflow_step sample_core_env paused_db (state_after sample_resume paused_db)"
    by (rule workflow_step.transition [OF state_after_reply [OF ok, of paused_db JNull, unfolded sample_resume_def], folded sample_resume_def])
  moreover have "workflow_inv paused_db" by code_simp
  moreover have "running_in (state_after sample_resume paused_db) ''w1''" "\<not> running_in paused_db ''w1''" by code_simp+
  ultimately show ?thesis using only_humans_start by blast
qed

section \<open>The audit log of the sample\<close>

theorem equal_heads_equal_logs_witness:
  "audit (claimed_db\<lparr>drawn := 9\<rparr>) = audit claimed_db \<and> length (audit claimed_db) = 1"
proof
  have v: "index (verify_audit_chain sample_core_env claimed_db) ''valid'' = Inr (JBool True)" by code_simp
  have "length (audit claimed_db) = 1" by code_simp
  then obtain x where "audit claimed_db = [x]" by (cases "audit claimed_db") auto
  then have "collision_free sample_core_env (audit claimed_db) (audit (claimed_db\<lparr>drawn := 9\<rparr>))"
    by (simp add: collision_free_def)
  then show "audit (claimed_db\<lparr>drawn := 9\<rparr>) = audit claimed_db"
    by (intro equal_heads_equal_logs [OF v]) (simp_all add: verify_audit_chain_def)
  show "length (audit claimed_db) = 1" by fact
qed

end
