(* ===== verification/Sample_Budget.thy ===== *)
theory Sample_Budget
  imports Ai_Budget Sample_Workflow
begin

text \<open>
  A concrete provider configuration and ledger: a reservation, its commitment, and a recovery. The
  contract validator is a function that accepts documents whose amounts are not negative and whose
  version is a positive integer, written as an int or as a float.
\<close>

section \<open>A sample ledger\<close>

definition sample_provider :: provider_policy where
  "sample_provider =
     \<lparr>registry_id = ''reg'', registry_revision = 2, registry_expires_at = Aware 63908000000000000 0,
      approved_models = [(''p'', [''m''])], provider_types = [(''p'', ''local_runtime'')],
      allowed_inputs = [(''p'', [''public'', ''internal''])],
      budget_ceilings = \<lparr>max_input_tokens = 100, max_output_tokens = 100, max_requests = 10, max_cost_microusd = 0,
        max_runtime_seconds = 60\<rparr>,
      remote_providers_enabled = False, max_configuration_lifetime = 30 * us_day\<rparr>"

definition sample_configuration :: dict where
  "sample_configuration =
     [(''configuration_id'', JStr ''c1''), (''provider_type'', JStr ''local_runtime''), (''provider_id'', JStr ''p''),
      (''model_id'', JStr ''m''), (''secret_ref'', JNull), (''allowed_input_classifications'', JList [JStr ''public'']),
      (''budgets'', JObj [(''max_input_tokens'', JInt 50), (''max_output_tokens'', JInt 50), (''max_requests'', JInt 5),
         (''max_cost_microusd'', JInt 0), (''max_runtime_seconds'', JInt 60)]),
      (''configured_at'', JStr ''2026-01-10T00:00:00Z''), (''expires_at'', JStr ''2026-01-20T00:00:00Z''),
      (''execution_enabled'', JBool False)]"

definition sample_setup :: ledger_setup where
  "sample_setup = \<lparr>configuration = sample_configuration, trusted_policy = sample_provider\<rparr>"

definition sample_request :: dict where
  "sample_request =
     [(''configuration_id'', JStr ''c1''), (''registry_id'', JStr ''reg''), (''registry_revision'', JInt 2),
      (''idempotency_key'', JStr ''budget-key-000001''), (''expected_ledger_version'', JInt 0),
      (''amounts'', JObj [(''input_tokens'', JInt 10), (''output_tokens'', JInt 5), (''requests'', JInt 1),
         (''cost_microusd'', JInt 0), (''runtime_seconds'', JInt 3)]),
      (''requested_at'', JStr ''2026-01-15T00:00:00Z''), (''expires_at'', JStr ''2026-01-15T00:03:00Z''),
      (''execution_enabled'', JBool False)]"

definition plausible_record :: "json \<Rightarrow> bool" where
  "plausible_record v =
     (case v of
        JObj r \<Rightarrow> list_all (\<lambda>f. 0 \<le> amount_of (dict_get r ''amounts'') f) budget_fields \<and>
          dict_get r ''state'' \<in> set [JStr ''reserved'', JStr ''committed'', JStr ''released''] \<and>
          (case dict_get r ''ledger_version'' of JInt i \<Rightarrow> 1 \<le> i | JFloat q \<Rightarrow> 1 \<le> q \<and> of_int \<lfloor>q\<rfloor> = q | _ \<Rightarrow> False)
      | _ \<Rightarrow> False)"

definition budget_env :: policy_env where
  "budget_env = sample_core_env\<lparr>iter_errors := (\<lambda>schema v.
     if schema = ''ai-budget-reservation-v1.schema.json'' \<and> \<not> plausible_record v
     then [\<lparr>err_path_text = [], err_path = [], err_message = []\<rparr>] else [])\<rparr>"

lemma sample_record_contract: "record_contract budget_env"
  unfolding record_contract_def
proof (intro allI impI)
  fix r assume "contract_issues budget_env (JObj r) ''ai-budget-reservation-v1.schema.json'' = []"
  then have "plausible_record (JObj r)"
    by (auto simp: contract_issues_def budget_env_def split: if_splits)
  then show "(\<forall>f \<in> set budget_fields. 0 \<le> amount_of (dict_get r ''amounts'') f) \<and>
     dict_get r ''state'' \<in> {JStr ''reserved'', JStr ''committed'', JStr ''released''}"
    by (auto simp: plausible_record_def list_all_iff split: json.splits)
qed

lemma sample_budgets_contract: "budgets_contract sample_setup"
proof -
  have "list_all (\<lambda>f. case budget_limit sample_setup f of Inl _ \<Rightarrow> False | Inr q \<Rightarrow> 0 \<le> q) budget_fields" by code_simp
  then have "\<exists>q. budget_limit sample_setup f = Inr q \<and> 0 \<le> q" if "f \<in> set budget_fields" for f
    using that by (cases "budget_limit sample_setup f") (auto simp: list_all_iff dest!: bspec)
  then show ?thesis by (simp add: budgets_contract_def)
qed

definition sample_reserve :: "ledger \<times> json result" where
  "sample_reserve = reserve budget_env sample_setup ''r1'' sample_clock sample_request empty_ledger"

definition reserved_ledger :: ledger where
  "reserved_ledger = fst sample_reserve"

definition sample_commit :: "ledger \<times> json result" where
  "sample_commit = commit budget_env sample_setup ''r1'' 1 sample_clock reserved_ledger"

definition committed_ledger :: ledger where
  "committed_ledger = fst sample_commit"

lemma sample_reserve_step: "ledger_step budget_env sample_setup empty_ledger reserved_ledger"
  by (rule ledger_step.reserve [of "''r1''" _ _ _ sample_clock sample_request _ "snd sample_reserve"])
    (simp_all add: empty_ledger_def reserved_ledger_def sample_reserve_def)

lemma sample_commit_step: "ledger_step budget_env sample_setup reserved_ledger committed_ledger"
  by (rule ledger_step.commit [of _ _ "''r1''" 1 sample_clock _ _ "snd sample_commit"])
    (simp add: committed_ledger_def sample_commit_def)

lemma sample_ledger_history: "(ledger_step budget_env sample_setup)\<^sup>*\<^sup>* empty_ledger committed_ledger"
  using sample_reserve_step sample_commit_step by auto

lemma sample_accepted: "\<not> isl (snd sample_reserve)" "\<not> isl (snd sample_commit)"
  by code_simp+

theorem budget_never_exceeded_witness:
  "\<exists>limit. budget_limit sample_setup ''input_tokens'' = Inr limit \<and> spent committed_ledger ''input_tokens'' \<le> limit \<and>
     spent committed_ledger ''input_tokens'' = 10"
proof -
  have "''input_tokens'' \<in> set budget_fields" by (simp add: budget_fields_def)
  note bound = budget_never_exceeded [OF sample_ledger_history sample_budgets_contract sample_record_contract this]
  have "spent committed_ledger ''input_tokens'' = 10" by code_simp
  with bound show ?thesis by auto
qed

theorem reservation_settled_once_witness:
  "\<exists>r r'. map_of (lg_records reserved_ledger) (JStr ''r1'') = Some r \<and> map_of (lg_records committed_ledger) (JStr ''r1'') = Some r' \<and>
     dict_get r' ''amounts'' = dict_get r ''amounts''"
proof -
  have "map_of (lg_records reserved_ledger) (JStr ''r1'') \<noteq> None" "map_of (lg_records committed_ledger) (JStr ''r1'') \<noteq> None"
    by code_simp+
  then obtain r r' where r: "map_of (lg_records reserved_ledger) (JStr ''r1'') = Some r"
    "map_of (lg_records committed_ledger) (JStr ''r1'') = Some r'" by blast
  have "ledger_inv sample_setup reserved_ledger"
    by (rule step_ledger_inv [OF sample_reserve_step empty_ledger_inv [OF sample_budgets_contract] sample_record_contract])
  from reservation_settled_once [OF r_into_rtranclp [of "ledger_step budget_env sample_setup", OF sample_commit_step] this sample_record_contract r] r
  show ?thesis by blast
qed

text \<open>The records of the ledger as another writer might have stored them, the version as a float.\<close>

definition stored_records :: "dict list" where
  "stored_records = map (\<lambda>p. dict_put (snd p) ''ledger_version'' (JFloat 2)) (lg_records committed_ledger)"

definition recovered_ledger :: "ledger result" where
  "recovered_ledger = recover budget_env sample_setup sample_clock sample_clock stored_records"

theorem recovery_restores_invariant_witness:
  "\<exists>L. recovered_ledger = Inr L \<and> ledger_inv sample_setup L \<and> length (lg_records L) = 1 \<and> lg_version L = PyFloat 2"
proof -
  have "(case recovered_ledger of Inl _ \<Rightarrow> False | Inr L \<Rightarrow> length (lg_records L) = 1 \<and> lg_version L = PyFloat 2)" by code_simp
  then obtain L where L: "recovered_ledger = Inr L" "length (lg_records L) = 1" "lg_version L = PyFloat 2" by (auto split: sum.splits)
  have "list_all double_version stored_records" by code_simp
  from recovery_restores_invariant [OF L(1) [unfolded recovered_ledger_def] sample_record_contract sample_budgets_contract this] L
  show ?thesis by blast
qed

theorem accepted_provider_configuration_witness:
  "\<exists>pid models. map_of (approved_models sample_provider) pid = Some models \<and> map_of sample_configuration ''provider_id'' = Some (JStr pid)"
proof -
  have "validate_provider_configuration budget_env sample_configuration sample_provider sample_clock = Inr ()" by code_simp
  from accepted_provider_configuration [OF this, of "[JStr ''public'']"] show ?thesis
    by (auto simp: sample_configuration_def)
qed

end
