(* ===== verification/Coverage.thy ===== *)
theory Coverage
  imports Workflow
begin

text \<open>
  The assessment coverage service, \<open>coverage.py\<close>: the human assertions of what was tested.

  The rows of \<open>assessment_coverage\<close> have the columns of migration 0026, whose keys and CHECK
  constraints guard the insertion; of \<open>evidence_objects\<close> and \<open>evidence_deletions\<close> only the columns that
  the service reads are kept. Text columns compare as text. Foreign keys are those of the workflow row
  and hold with it.

  Results: a new row is only recorded for a workflow under way, with an asset rule that the bundle of
  the workflow allows, a capability rule it does not deny, and evidence of the same workflow and bundle
  that has not been deleted; the table is append-only with unique keys; a repeated request returns the
  recorded document. An interval that starts on a whole second and ends within that second is
  refused by the schema, because the CHECK constraint compares the two times as text.
\<close>

section \<open>Tables and requests\<close>

record coverage_row =
  cv_id :: string
  cv_workflow :: string
  cv_engagement :: string
  cv_policy :: string
  cv_key :: string
  cv_asset_rule :: string
  cv_capability_rule :: string
  cv_capability :: string
  cv_outcome :: string
  cv_started :: string
  cv_ended :: string
  cv_evidence :: json
  cv_limitations :: json
  cv_notes :: string
  cv_by :: string
  cv_at :: string
  cv_document :: json
  cv_hash :: string

record evidence_row =
  eo_id :: string
  eo_workflow :: string
  eo_policy :: string

text \<open>A deletion is the type and the identifier of an artifact.\<close>

record coverage_db = workflow_db +
  evidence_objects :: "evidence_row list"
  evidence_deletions :: "(string \<times> string) list"
  coverages :: "coverage_row list"

text \<open>The keyword arguments of \<open>record\<close>.\<close>

record coverage_request =
  q_key :: string
  q_asset_rule :: string
  q_capability_rule :: string
  q_capability :: string
  q_outcome :: string
  q_started :: datetime
  q_ended :: datetime
  q_evidence :: "string list"
  q_limitations :: "string list"
  q_notes :: string
  q_actor :: string

abbreviation coverage_error :: "string \<Rightarrow> exn" where
  "coverage_error c \<equiv> CodedError ''CoverageError'' c"

section \<open>Identifiers\<close>

text \<open>\<open>s.replace(p, "")\<close>.\<close>

fun remove_substring :: "string \<Rightarrow> string \<Rightarrow> string" where
  "remove_substring p [] = []"
| "remove_substring p (c # s) =
     (if p \<noteq> [] \<and> prefix p (c # s) then remove_substring p (drop (length p - 1) s)
      else c # remove_substring p s)"

text \<open>
  \<open>int(s, 16)\<close> accepts white space around an optional sign, an optional prefix \<open>0x\<close> that one underscore
  may follow, and hexadecimal digits with single underscores between them.
\<close>

definition is_int_space :: "char \<Rightarrow> bool" where
  "is_int_space c \<longleftrightarrow> (is_space_char c \<and> \<not> (c \<in> {CHR 0x1C, CHR 0x1D, CHR 0x1E, CHR 0x1F}))"

definition drop_sign :: "string \<Rightarrow> string" where
  "drop_sign s = (case s of c # cs \<Rightarrow> if c = CHR ''+'' \<or> c = CHR ''-'' then cs else s | [] \<Rightarrow> [])"

definition drop_hex_prefix :: "string \<Rightarrow> string" where
  "drop_hex_prefix s =
     (case s of
        z # x # rest \<Rightarrow>
          if z = CHR ''0'' \<and> (x = CHR ''x'' \<or> x = CHR ''X'')
          then (case rest of c # cs \<Rightarrow> if c = CHR ''_'' then cs else rest | [] \<Rightarrow> [])
          else s
      | _ \<Rightarrow> s)"

definition int16_digits :: "string \<Rightarrow> string" where
  "int16_digits s = drop_hex_prefix (drop_sign (rstrip is_int_space (lstrip is_int_space s)))"

definition int16_literal :: "string \<Rightarrow> bool" where
  "int16_literal s =
     list_all (\<lambda>part. part \<noteq> [] \<and> list_all is_hex_char part) (split_on CHR ''_'' (int16_digits s))"

text \<open>
  \<open>UUID(value)\<close> does not raise: the text has 32 characters, without the prefixes, braces and hyphens
  that are removed, and is a hexadecimal number. Without a minus sign the number is in range.
\<close>

definition uuid_hex :: "string \<Rightarrow> string" where
  "uuid_hex v =
     (let brace = (\<lambda>c. c = CHR ''{'' \<or> c = CHR ''}'');
          bare = rstrip brace (lstrip brace (remove_substring ''uuid:'' (remove_substring ''urn:'' v)))
      in replace_char CHR ''-'' [] bare)"

definition uuid_text :: "string \<Rightarrow> bool" where
  "uuid_text v \<longleftrightarrow> length (uuid_hex v) = 32 \<and> int16_literal (uuid_hex v)"

definition check_uuid :: "string \<Rightarrow> string \<Rightarrow> unit result" where
  "check_uuid v c = guardr (\<not> uuid_text v) (coverage_error c) (Inr ())"

section \<open>Validation of a request\<close>

definition coverage_aware :: "datetime \<Rightarrow> string \<Rightarrow> instant result" where
  "coverage_aware v c =
     (case v of Naive _ \<Rightarrow> Inl (coverage_error c) | Aware loc off \<Rightarrow> to_utc loc off)"

definition coverage_instant :: "datetime \<Rightarrow> instant result" where
  "coverage_instant now = coverage_aware now ''COVERAGE_TIME_INVALID''"

definition coverage_identity :: "string \<Rightarrow> unit result" where
  "coverage_identity v =
     guardr (\<not> (1 \<le> length (strip v) \<and> length (strip v) \<le> 128)) (coverage_error ''COVERAGE_ACTOR_REQUIRED'') (Inr ())"

definition capability_pattern :: "string \<Rightarrow> bool" where
  "capability_pattern s \<longleftrightarrow> 2 \<le> length s \<and> is_lower_char (hd s) \<and>
     list_all (\<lambda>c. is_lower_char c \<or> is_digit_char c \<or> c \<in> set ''_.-'') (tl s)"

definition coverage_outcomes :: "string list" where
  "coverage_outcomes = [''tested_no_findings'', ''finding_identified'', ''blocked'', ''not_tested'']"

definition tested_outcomes :: "string list" where
  "tested_outcomes = [''tested_no_findings'', ''finding_identified'']"

definition coverage_strings :: "string list \<Rightarrow> nat \<Rightarrow> nat \<Rightarrow> nat \<Rightarrow> string \<Rightarrow> string list result" where
  "coverage_strings vals minimum maximum len c =
     (let normalized = map strip vals in
      guardr (\<not> (minimum \<le> length normalized \<and> length normalized \<le> maximum) \<or> \<not> distinct normalized \<or>
              list_ex (\<lambda>v. v = [] \<or> len < length v) normalized) (coverage_error c) (Inr normalized))"

definition check_evidence_ids :: "coverage_request \<Rightarrow> unit result" where
  "check_evidence_ids q =
     guardr (128 < length (q_evidence q) \<or> \<not> distinct (q_evidence q)) (coverage_error ''COVERAGE_EVIDENCE_INVALID'')
     (bindr (traverse (\<lambda>e. check_uuid e ''COVERAGE_EVIDENCE_INVALID'') (q_evidence q)) (\<lambda>_.
      guardr (q_outcome q \<in> set tested_outcomes \<and> q_evidence q = [])
        (coverage_error ''COVERAGE_EVIDENCE_REQUIRED'') (Inr ())))"

text \<open>The times of the request, its recording time and the text collections as they are stored.\<close>

record coverage_input =
  ci_recorded :: instant
  ci_started :: instant
  ci_ended :: instant
  ci_limitations :: "string list"
  ci_notes :: string

definition check_coverage :: "coverage_request \<Rightarrow> datetime \<Rightarrow> coverage_input result" where
  "check_coverage q now =
     bindr (coverage_instant now) (\<lambda>recorded.
     bindr (coverage_aware (q_started q) ''COVERAGE_INTERVAL_INVALID'') (\<lambda>started.
     bindr (coverage_aware (q_ended q) ''COVERAGE_INTERVAL_INVALID'') (\<lambda>ended.
     guardr (ended < started \<or> recorded < ended) (coverage_error ''COVERAGE_INTERVAL_INVALID'')
    (bindr (coverage_identity (q_actor q)) (\<lambda>_.
     guardr (\<not> key_pattern (q_key q)) (coverage_error ''COVERAGE_IDEMPOTENCY_INVALID'')
    (guardr (q_outcome q \<notin> set coverage_outcomes) (coverage_error ''COVERAGE_OUTCOME_INVALID'')
    (guardr (\<not> capability_pattern (q_capability q) \<or> 128 < length (q_capability q))
       (coverage_error ''COVERAGE_CAPABILITY_INVALID'')
    (bindr (check_uuid (q_asset_rule q) ''COVERAGE_ASSET_RULE_INVALID'') (\<lambda>_.
     bindr (check_uuid (q_capability_rule q) ''COVERAGE_CAPABILITY_RULE_INVALID'') (\<lambda>_.
     bindr (check_evidence_ids q) (\<lambda>_.
     bindr (coverage_strings (q_limitations q) 1 32 500 ''COVERAGE_LIMITATIONS_INVALID'') (\<lambda>lims.
     guardr (\<not> (1 \<le> int (length (strip (q_notes q))) \<and> int (length (strip (q_notes q))) \<le> 5000))
       (coverage_error ''COVERAGE_NOTES_INVALID'')
      (Inr \<lparr>ci_recorded = recorded, ci_started = started, ci_ended = ended, ci_limitations = lims,
            ci_notes = strip (q_notes q)\<rparr>)))))))))))))"

definition requested :: "coverage_request \<Rightarrow> coverage_input \<Rightarrow> dict" where
  "requested q i =
     [(''asset_rule_id'', JStr (q_asset_rule q)), (''capability_rule_id'', JStr (q_capability_rule q)),
      (''capability'', JStr (q_capability q)), (''outcome'', JStr (q_outcome q)),
      (''started_at'', JStr (timestamp (ci_started i))), (''ended_at'', JStr (timestamp (ci_ended i))),
      (''evidence_ids'', JList (map JStr (q_evidence q))),
      (''limitations'', JList (map JStr (ci_limitations i))), (''notes'', JStr (ci_notes i))]"

section \<open>Links to the policy and the evidence\<close>

text \<open>\<open>next((item for item in rules if ...), None)\<close> on the rules that are dicts.\<close>

definition rule_with_id :: "json list \<Rightarrow> string \<Rightarrow> json option" where
  "rule_with_id rules rid =
     find (\<lambda>item. case item of JObj d \<Rightarrow> py_eq (dict_get d ''rule_id'') (JStr rid) | _ \<Rightarrow> False) rules"

definition rule_get :: "json \<Rightarrow> string \<Rightarrow> json" where
  "rule_get r k = (case r of JObj d \<Rightarrow> dict_get d k | _ \<Rightarrow> JNull)"

definition asset_rule_allowed :: "json list \<Rightarrow> string \<Rightarrow> bool" where
  "asset_rule_allowed rules rid =
     (case rule_with_id rules rid of None \<Rightarrow> False | Some r \<Rightarrow> py_eq (rule_get r ''effect'') (JStr ''allow''))"

definition capability_rule_permitted :: "json list \<Rightarrow> string \<Rightarrow> string \<Rightarrow> bool" where
  "capability_rule_permitted rules rid capability =
     (case rule_with_id rules rid of None \<Rightarrow> False
      | Some r \<Rightarrow> py_eq (rule_get r ''capability'') (JStr capability) \<and>
                  \<not> py_eq (rule_get r ''effect'') (JStr ''deny''))"

definition rule_applies :: "json list \<Rightarrow> string \<Rightarrow> string \<Rightarrow> bool" where
  "rule_applies rules rid asset_rule_id =
     (case rule_with_id rules rid of None \<Rightarrow> False
      | Some r \<Rightarrow> (case rule_get r ''applicable_asset_rule_ids'' of
                     JNull \<Rightarrow> True | JList ids \<Rightarrow> py_in (JStr asset_rule_id) ids | _ \<Rightarrow> False))"

definition policy_links :: "json \<Rightarrow> string \<Rightarrow> string \<Rightarrow> string \<Rightarrow> unit result" where
  "policy_links policy asset_rule_id capability_rule_id capability =
     bindr (get policy ''asset_rules'' JNull) (\<lambda>asset_rules.
     bindr (get policy ''capability_rules'' JNull) (\<lambda>capability_rules.
     case (asset_rules, capability_rules) of
       (JList assets, JList rules) \<Rightarrow>
         guardr (\<not> asset_rule_allowed assets asset_rule_id) (coverage_error ''COVERAGE_ASSET_DENIED'')
        (guardr (\<not> capability_rule_permitted rules capability_rule_id capability)
           (coverage_error ''COVERAGE_CAPABILITY_DENIED'')
        (guardr (\<not> rule_applies rules capability_rule_id asset_rule_id)
           (coverage_error ''COVERAGE_CAPABILITY_DENIED'') (Inr ())))
     | _ \<Rightarrow> Inl (coverage_error ''COVERAGE_POLICY_INVALID'')))"

definition evidence_linked :: "'a coverage_db_scheme \<Rightarrow> string \<Rightarrow> string \<Rightarrow> string \<Rightarrow> bool" where
  "evidence_linked db workflow_id policy_bundle_id evidence_id =
     (case find (\<lambda>r. eo_id r = evidence_id \<and> (''original'', eo_id r) \<notin> set (evidence_deletions db))
             (evidence_objects db) of
        None \<Rightarrow> False
      | Some r \<Rightarrow> eo_workflow r = workflow_id \<and> eo_policy r = policy_bundle_id)"

definition evidence_links :: "'a coverage_db_scheme \<Rightarrow> string \<Rightarrow> string \<Rightarrow> string list \<Rightarrow> unit result" where
  "evidence_links db workflow_id policy_bundle_id evidence_ids =
     bindr (traverse (\<lambda>e. guardr (\<not> evidence_linked db workflow_id policy_bundle_id e)
              (coverage_error ''COVERAGE_EVIDENCE_UNAVAILABLE'') (Inr ())) evidence_ids) (\<lambda>_. Inr ())"

section \<open>Recording and listing\<close>

definition coverage_valid :: "policy_env \<Rightarrow> json \<Rightarrow> unit result" where
  "coverage_valid env doc =
     guardr (contract_issues env doc ''assessment-coverage-v1.schema.json'' \<noteq> [])
       (coverage_error ''COVERAGE_CONTRACT_INVALID'') (Inr ())"

definition coverage_doc :: "string \<Rightarrow> workflow_row \<Rightarrow> coverage_request \<Rightarrow> coverage_input \<Rightarrow> json" where
  "coverage_doc ident w q i = JObj
     ([(''schema_version'', JStr ''1.0.0''), (''coverage_id'', JStr ident), (''workflow_id'', JStr (w_id w)),
       (''engagement_id'', JStr (w_engagement w)), (''policy_bundle_id'', JStr (w_policy w))] @
      requested q i @
      [(''recorded_by'', JStr (q_actor q)), (''recorded_at'', JStr (timestamp (ci_recorded i))),
       (''coverage_complete'', JBool False)])"

definition coverage_row_of ::
  "policy_env \<Rightarrow> string \<Rightarrow> workflow_row \<Rightarrow> coverage_request \<Rightarrow> coverage_input \<Rightarrow> coverage_row" where
  "coverage_row_of env ident w q i =
     \<lparr>cv_id = ident, cv_workflow = w_id w, cv_engagement = w_engagement w, cv_policy = w_policy w,
      cv_key = q_key q, cv_asset_rule = q_asset_rule q, cv_capability_rule = q_capability_rule q,
      cv_capability = q_capability q, cv_outcome = q_outcome q,
      cv_started = timestamp (ci_started i), cv_ended = timestamp (ci_ended i),
      cv_evidence = JList (map JStr (q_evidence q)), cv_limitations = JList (map JStr (ci_limitations i)),
      cv_notes = ci_notes i, cv_by = q_actor q, cv_at = timestamp (ci_recorded i),
      cv_document = coverage_doc ident w q i, cv_hash = content_hash env (coverage_doc ident w q i)\<rparr>"

definition coverage_insert :: "coverage_row \<Rightarrow> 'a coverage_db_scheme \<Rightarrow> 'a coverage_db_scheme result" where
  "coverage_insert r db =
     guardr (list_ex (\<lambda>r'. cv_id r' = cv_id r \<or> cv_hash r' = cv_hash r \<or>
                        (cv_workflow r' = cv_workflow r \<and> cv_key r' = cv_key r)) (coverages db) \<or>
             length (cv_hash r) \<noteq> 64 \<or> cv_outcome r \<notin> set coverage_outcomes \<or> cv_ended r < cv_started r \<or>
             \<not> (cv_outcome r \<in> set [''blocked'', ''not_tested''] \<or> cv_evidence r \<noteq> JList [])) IntegrityError
       (Inr (db\<lparr>coverages := coverages db @ [r]\<rparr>))"

definition coverage_event :: "coverage_row \<Rightarrow> audit_args" where
  "coverage_event r =
     event_args ''coverage.recorded'' ''assessment_coverage'' (cv_id r) ''human'' (cv_by r)
       [(''workflow_id'', JStr (cv_workflow r)), (''policy_bundle_id'', JStr (cv_policy r)),
        (''asset_rule_id'', JStr (cv_asset_rule r)), (''capability_rule_id'', JStr (cv_capability_rule r)),
        (''outcome'', JStr (cv_outcome r)), (''content_hash'', JStr (cv_hash r)),
        (''coverage_complete'', JBool False)] (cv_at r)"

definition replay_coverage :: "policy_env \<Rightarrow> coverage_row \<Rightarrow> dict \<Rightarrow> json result" where
  "replay_coverage env existing wanted =
     bindr (anyr (\<lambda>(k, v). mapr (\<lambda>d. \<not> py_eq d v) (index (cv_document existing) k)) wanted) (\<lambda>differs.
       guardr differs (coverage_error ''COVERAGE_IDEMPOTENCY_CONFLICT'')
         (bindr (coverage_valid env (cv_document existing)) (\<lambda>_. Inr (cv_document existing))))"

text \<open>The workflow and the bundle that a new coverage row needs.\<close>

definition coverage_workflow :: "'a coverage_db_scheme \<Rightarrow> string \<Rightarrow> instant \<Rightarrow> workflow_row result" where
  "coverage_workflow db workflow_id started =
     (case find_workflow db workflow_id of None \<Rightarrow> Inl (coverage_error ''COVERAGE_WORKFLOW_DENIED'')
      | Some w \<Rightarrow>
          guardr (w_status w \<notin> set [''running'', ''paused'', ''completed'']) (coverage_error ''COVERAGE_WORKFLOW_DENIED'')
          (case w_started w of None \<Rightarrow> Inl (coverage_error ''COVERAGE_INTERVAL_INVALID'')
           | Some s \<Rightarrow> bindr (parse_time_str s) (\<lambda>t.
               guardr (started < t) (coverage_error ''COVERAGE_INTERVAL_INVALID'') (Inr w))))"

definition coverage_policy :: "'a core_db_scheme \<Rightarrow> string \<Rightarrow> json result" where
  "coverage_policy db policy_bundle_id =
     (case find (\<lambda>b. b_id b = policy_bundle_id) (bundles db) of
        None \<Rightarrow> Inl (coverage_error ''COVERAGE_POLICY_MISSING'')
      | Some b \<Rightarrow> (case b_policy b of None \<Rightarrow> Inl (coverage_error ''COVERAGE_POLICY_INVALID'')
                   | Some policy \<Rightarrow> Inr policy))"

definition record_coverage ::
  "policy_env \<Rightarrow> string \<Rightarrow> coverage_request \<Rightarrow> datetime \<Rightarrow> 'a coverage_db_scheme \<Rightarrow>
   ('a coverage_db_scheme \<times> json) result" where
  "record_coverage env workflow_id q now db =
     bindr (check_coverage q now) (\<lambda>i.
     case find (\<lambda>r. cv_workflow r = workflow_id \<and> cv_key r = q_key q) (coverages db) of
       Some existing \<Rightarrow> mapr (\<lambda>doc. (db, doc)) (replay_coverage env existing (requested q i))
     | None \<Rightarrow>
         bindr (coverage_workflow db workflow_id (ci_started i)) (\<lambda>w.
         bindr (coverage_policy db (w_policy w)) (\<lambda>policy.
         bindr (policy_links policy (q_asset_rule q) (q_capability_rule q) (q_capability q)) (\<lambda>_.
         bindr (evidence_links db workflow_id (w_policy w) (q_evidence q)) (\<lambda>_.
         let r = coverage_row_of env (new_uuid db) w q i in
         bindr (coverage_valid env (cv_document r)) (\<lambda>_.
         bindr (coverage_insert r (draw db)) (\<lambda>db.
         bindr (append_audit_event env (coverage_event r) db) (\<lambda>(db, _).
         Inr (db, cv_document r)))))))))"

definition list_for_workflow :: "policy_env \<Rightarrow> string \<Rightarrow> 'a coverage_db_scheme \<Rightarrow> json list result" where
  "list_for_workflow env workflow_id db =
     (let rows = sort_key cv_started (sort_key cv_id (filter (\<lambda>r. cv_workflow r = workflow_id) (coverages db)));
          documents = map cv_document rows
      in bindr (traverse (coverage_valid env) documents) (\<lambda>_. Inr documents))"

section \<open>What a recorded row rests on\<close>

text \<open>The rules of a policy bundle that permit a capability on an asset.\<close>

definition permitted_by :: "json \<Rightarrow> string \<Rightarrow> string \<Rightarrow> string \<Rightarrow> bool" where
  "permitted_by policy asset_rule_id capability_rule_id capability \<longleftrightarrow>
     (\<exists>d assets rules a c. policy = JObj d \<and>
        map_of d ''asset_rules'' = Some (JList assets) \<and> map_of d ''capability_rules'' = Some (JList rules) \<and>
        JObj a \<in> set assets \<and> map_of a ''rule_id'' = Some (JStr asset_rule_id) \<and>
        map_of a ''effect'' = Some (JStr ''allow'') \<and>
        JObj c \<in> set rules \<and> map_of c ''rule_id'' = Some (JStr capability_rule_id) \<and>
        map_of c ''capability'' = Some (JStr capability) \<and> map_of c ''effect'' \<noteq> Some (JStr ''deny'') \<and>
        (dict_get c ''applicable_asset_rule_ids'' = JNull \<or>
         (\<exists>ids. dict_get c ''applicable_asset_rule_ids'' = JList ids \<and> JStr asset_rule_id \<in> set ids)))"

definition available_evidence :: "'a coverage_db_scheme \<Rightarrow> string \<Rightarrow> string \<Rightarrow> string \<Rightarrow> bool" where
  "available_evidence db workflow_id policy_bundle_id evidence_id \<longleftrightarrow>
     (''original'', evidence_id) \<notin> set (evidence_deletions db) \<and>
     (\<exists>r \<in> set (evidence_objects db). eo_id r = evidence_id \<and> eo_workflow r = workflow_id \<and> eo_policy r = policy_bundle_id)"

lemma dict_get_Some: "dict_get d k = v \<Longrightarrow> v \<noteq> JNull \<Longrightarrow> map_of d k = Some v"
  by (auto simp: dict_get_def split: option.splits)

lemma rule_with_idD:
  assumes "rule_with_id rules rid = Some r"
  obtains d where "r = JObj d" and "JObj d \<in> set rules" and "map_of d ''rule_id'' = Some (JStr rid)"
proof (cases r)
  case (JObj d)
  with find_SomeD [OF assms [unfolded rule_with_id_def]] that show thesis by (auto intro: dict_get_Some)
qed (use find_SomeD [OF assms [unfolded rule_with_id_def]] in auto)

lemma asset_rule_allowedD:
  assumes "asset_rule_allowed rules rid"
  obtains a where "JObj a \<in> set rules" and "map_of a ''rule_id'' = Some (JStr rid)"
    and "map_of a ''effect'' = Some (JStr ''allow'')"
proof -
  obtain r where r: "rule_with_id rules rid = Some r"
    using assms by (auto simp: asset_rule_allowed_def split: option.splits)
  then obtain a where a: "r = JObj a" "JObj a \<in> set rules" "map_of a ''rule_id'' = Some (JStr rid)"
    by (rule rule_with_idD)
  with assms r have "dict_get a ''effect'' = JStr ''allow''"
    by (simp add: asset_rule_allowed_def rule_get_def)
  with a(2,3) that show thesis by (auto intro: dict_get_Some)
qed

lemma capability_ruleD:
  assumes "capability_rule_permitted rules rid capability" and "rule_applies rules rid asset"
  obtains c where "JObj c \<in> set rules" and "map_of c ''rule_id'' = Some (JStr rid)"
    and "map_of c ''capability'' = Some (JStr capability)" and "map_of c ''effect'' \<noteq> Some (JStr ''deny'')"
    and "dict_get c ''applicable_asset_rule_ids'' = JNull \<or>
         (\<exists>ids. dict_get c ''applicable_asset_rule_ids'' = JList ids \<and> JStr asset \<in> set ids)"
proof -
  obtain r where r: "rule_with_id rules rid = Some r"
    using assms(1) by (auto simp: capability_rule_permitted_def split: option.splits)
  then obtain c where c: "r = JObj c" "JObj c \<in> set rules" "map_of c ''rule_id'' = Some (JStr rid)"
    by (rule rule_with_idD)
  have "dict_get c ''capability'' = JStr capability" "dict_get c ''effect'' \<noteq> JStr ''deny''"
    using assms(1) r c(1) by (simp_all add: capability_rule_permitted_def rule_get_def)
  then have "map_of c ''capability'' = Some (JStr capability)" "map_of c ''effect'' \<noteq> Some (JStr ''deny'')"
    by (auto intro: dict_get_Some simp: dict_get_def)
  moreover have "dict_get c ''applicable_asset_rule_ids'' = JNull \<or>
      (\<exists>ids. dict_get c ''applicable_asset_rule_ids'' = JList ids \<and> JStr asset \<in> set ids)"
    using assms(2) r c(1) by (auto simp: rule_applies_def rule_get_def py_in_iff split: json.splits)
  ultimately show thesis using c(2,3) that by blast
qed

lemma getE:
  assumes "get v k dflt = Inr x" and "x \<noteq> dflt"
  obtains d where "v = JObj d" and "map_of d k = Some x"
  using assms by (cases v) (auto split: option.splits)

lemma policy_links_permitted:
  assumes "policy_links policy asset rid capability = Inr u"
  shows "permitted_by policy asset rid capability"
proof -
  obtain assets rules where l: "get policy ''asset_rules'' JNull = Inr (JList assets)"
      "get policy ''capability_rules'' JNull = Inr (JList rules)"
      "asset_rule_allowed assets asset" "capability_rule_permitted rules rid capability" "rule_applies rules rid asset"
  proof -
    obtain x y where xy: "get policy ''asset_rules'' JNull = Inr x" "get policy ''capability_rules'' JNull = Inr y"
        "(case (x, y) of (JList assets, JList rules) \<Rightarrow>
            guardr (\<not> asset_rule_allowed assets asset) (coverage_error ''COVERAGE_ASSET_DENIED'')
           (guardr (\<not> capability_rule_permitted rules rid capability) (coverage_error ''COVERAGE_CAPABILITY_DENIED'')
           (guardr (\<not> rule_applies rules rid asset) (coverage_error ''COVERAGE_CAPABILITY_DENIED'') (Inr ())))
          | _ \<Rightarrow> Inl (coverage_error ''COVERAGE_POLICY_INVALID'')) = Inr u"
      using assms unfolding policy_links_def by (elim bindrE)
    then show thesis by (cases x; cases y) (auto simp: guardr_eq_Inr intro: that)
  qed
  obtain d where d: "policy = JObj d" "map_of d ''asset_rules'' = Some (JList assets)"
    using l(1) by (rule getE) auto
  have e: "map_of d ''capability_rules'' = Some (JList rules)"
    using l(2) d(1) by (auto split: option.splits)
  obtain a where a: "JObj a \<in> set assets" "map_of a ''rule_id'' = Some (JStr asset)"
      "map_of a ''effect'' = Some (JStr ''allow'')"
    using l(3) by (rule asset_rule_allowedD)
  obtain c where c: "JObj c \<in> set rules" "map_of c ''rule_id'' = Some (JStr rid)"
      "map_of c ''capability'' = Some (JStr capability)" "map_of c ''effect'' \<noteq> Some (JStr ''deny'')"
      "dict_get c ''applicable_asset_rule_ids'' = JNull \<or>
       (\<exists>ids. dict_get c ''applicable_asset_rule_ids'' = JList ids \<and> JStr asset \<in> set ids)"
    using l(4,5) by (rule capability_ruleD)
  show ?thesis unfolding permitted_by_def
    by (rule exI [of _ d], rule exI [of _ assets], rule exI [of _ rules], rule exI [of _ a], rule exI [of _ c])
      (use d e a c in simp)
qed

lemma evidence_links_available:
  assumes "evidence_links db wid policy ids = Inr u" and "e \<in> set ids"
  shows "available_evidence db wid policy e"
proof -
  have "evidence_linked db wid policy e"
    using assms by (auto simp: evidence_links_def bindr_eq_Inr guardr_eq_Inr dest!: traverse_memD)
  then show ?thesis
    by (auto simp: evidence_linked_def available_evidence_def split: option.splits dest!: find_SomeD)
qed

lemma coverage_workflowD:
  assumes "coverage_workflow db wid started = Inr w"
  shows "find_workflow db wid = Some w" and "w_id w = wid" and "w_status w \<in> {''running'', ''paused'', ''completed''}"
    and "\<exists>s t. w_started w = Some s \<and> parse_time_str s = Inr t \<and> t \<le> started"
  using assms unfolding coverage_workflow_def
  by (auto simp: bindr_eq_Inr guardr_eq_Inr find_workflow_def not_less split: option.splits dest: find_SomeD)

lemma check_coverageE:
  assumes "check_coverage q now = Inr i"
  obtains "coverage_instant now = Inr (ci_recorded i)"
    and "coverage_aware (q_started q) ''COVERAGE_INTERVAL_INVALID'' = Inr (ci_started i)"
    and "coverage_aware (q_ended q) ''COVERAGE_INTERVAL_INVALID'' = Inr (ci_ended i)"
    and "ci_started i \<le> ci_ended i" and "ci_ended i \<le> ci_recorded i"
    and "q_outcome q \<in> set coverage_outcomes"
    and "q_outcome q \<in> set tested_outcomes \<Longrightarrow> q_evidence q \<noteq> []"
    and "\<And>now' t. coverage_instant now' = Inr t \<Longrightarrow> ci_ended i \<le> t \<Longrightarrow>
           check_coverage q now' = Inr (i\<lparr>ci_recorded := t\<rparr>)"
proof -
  from assms obtain recorded started ended lims where h: "coverage_instant now = Inr recorded"
      "coverage_aware (q_started q) ''COVERAGE_INTERVAL_INVALID'' = Inr started"
      "coverage_aware (q_ended q) ''COVERAGE_INTERVAL_INVALID'' = Inr ended"
      "\<not> (ended < started \<or> recorded < ended)" "coverage_identity (q_actor q) = Inr ()" "key_pattern (q_key q)"
      "q_outcome q \<in> set coverage_outcomes"
      "\<not> (\<not> capability_pattern (q_capability q) \<or> 128 < length (q_capability q))"
      "check_uuid (q_asset_rule q) ''COVERAGE_ASSET_RULE_INVALID'' = Inr ()"
      "check_uuid (q_capability_rule q) ''COVERAGE_CAPABILITY_RULE_INVALID'' = Inr ()"
      "check_evidence_ids q = Inr ()"
      "coverage_strings (q_limitations q) 1 32 500 ''COVERAGE_LIMITATIONS_INVALID'' = Inr lims"
      "1 \<le> int (length (strip (q_notes q))) \<and> int (length (strip (q_notes q))) \<le> 5000"
      "i = \<lparr>ci_recorded = recorded, ci_started = started, ci_ended = ended, ci_limitations = lims,
            ci_notes = strip (q_notes q)\<rparr>"
    unfolding check_coverage_def by (elim bindrE guardrE) simp
  have "q_evidence q \<noteq> []" if "q_outcome q \<in> set tested_outcomes"
    using h(11) that unfolding check_evidence_ids_def by (elim bindrE guardrE) simp
  moreover have "check_coverage q now' = Inr (i\<lparr>ci_recorded := t\<rparr>)" if "coverage_instant now' = Inr t" "ci_ended i \<le> t" for now' t
    unfolding check_coverage_def using h that by (simp add: not_less)
  ultimately show thesis using h that by (simp add: not_less)
qed

text \<open>The row that \<open>record\<close> adds and the state it leaves.\<close>

definition with_coverage :: "policy_env \<Rightarrow> coverage_row \<Rightarrow> 'a coverage_db_scheme \<Rightarrow> 'a coverage_db_scheme" where
  "with_coverage env r db =
     (let db1 = (draw db)\<lparr>coverages := coverages db @ [r]\<rparr>
      in (draw db1)\<lparr>audit := audit db @ [audit_event env (coverage_event r) db1]\<rparr>)"

definition coverage_row_ok :: "policy_env \<Rightarrow> coverage_row \<Rightarrow> bool" where
  "coverage_row_ok env r \<longleftrightarrow>
     cv_outcome r \<in> set coverage_outcomes \<and> (cv_outcome r \<in> set tested_outcomes \<longrightarrow> cv_evidence r \<noteq> JList []) \<and>
     cv_started r \<le> cv_ended r \<and>
     cv_hash r = content_hash env (cv_document r) \<and> coverage_valid env (cv_document r) = Inr () \<and>
     index (cv_document r) ''coverage_id'' = Inr (JStr (cv_id r)) \<and>
     index (cv_document r) ''workflow_id'' = Inr (JStr (cv_workflow r)) \<and>
     index (cv_document r) ''policy_bundle_id'' = Inr (JStr (cv_policy r)) \<and>
     index (cv_document r) ''outcome'' = Inr (JStr (cv_outcome r)) \<and>
     index (cv_document r) ''evidence_ids'' = Inr (cv_evidence r) \<and>
     index (cv_document r) ''coverage_complete'' = Inr (JBool False)"

lemma coverage_insertE:
  assumes "coverage_insert r db = Inr db'"
  obtains "db' = db\<lparr>coverages := coverages db @ [r]\<rparr>" and "cv_started r \<le> cv_ended r"
    and "cv_id r \<notin> cv_id ` set (coverages db)" and "cv_hash r \<notin> cv_hash ` set (coverages db)"
    and "(cv_workflow r, cv_key r) \<notin> (\<lambda>r. (cv_workflow r, cv_key r)) ` set (coverages db)"
    and "cv_outcome r \<in> set coverage_outcomes" and "cv_outcome r \<in> set tested_outcomes \<Longrightarrow> cv_evidence r \<noteq> JList []"
proof -
  have h: "db' = db\<lparr>coverages := coverages db @ [r]\<rparr>" "\<not> cv_ended r < cv_started r" "cv_outcome r \<in> set coverage_outcomes"
      "cv_outcome r \<in> set [''blocked'', ''not_tested''] \<or> cv_evidence r \<noteq> JList []"
      "\<not> list_ex (\<lambda>r'. cv_id r' = cv_id r \<or> cv_hash r' = cv_hash r \<or>
                        (cv_workflow r' = cv_workflow r \<and> cv_key r' = cv_key r)) (coverages db)"
    using assms by (simp_all add: coverage_insert_def guardr_eq_Inr)
  show thesis
  proof (rule that)
    show "cv_started r \<le> cv_ended r" using h(2) by simp
    show "cv_outcome r \<in> set tested_outcomes \<Longrightarrow> cv_evidence r \<noteq> JList []"
      using h(4) by (auto simp: tested_outcomes_def)
  qed (use h in \<open>auto simp: list_ex_iff\<close>)
qed

lemma record_coverageE:
  assumes "record_coverage env wid q now db = Inr (db', doc)"
  obtains (replay) i existing where "check_coverage q now = Inr i" and "db' = db"
      and "find (\<lambda>r. cv_workflow r = wid \<and> cv_key r = q_key q) (coverages db) = Some existing"
      and "doc = cv_document existing"
  | (fresh) i w policy r where "check_coverage q now = Inr i"
      and "find (\<lambda>r. cv_workflow r = wid \<and> cv_key r = q_key q) (coverages db) = None"
      and "coverage_workflow db wid (ci_started i) = Inr w" and "coverage_policy db (w_policy w) = Inr policy"
      and "policy_links policy (q_asset_rule q) (q_capability_rule q) (q_capability q) = Inr ()"
      and "evidence_links db wid (w_policy w) (q_evidence q) = Inr ()"
      and "r = coverage_row_of env (new_uuid db) w q i" and "coverage_valid env (cv_document r) = Inr ()"
      and "coverage_insert r (draw db) = Inr ((draw db)\<lparr>coverages := coverages db @ [r]\<rparr>)"
      and "db' = with_coverage env r db" and "doc = cv_document r"
proof (cases "find (\<lambda>r. cv_workflow r = wid \<and> cv_key r = q_key q) (coverages db)")
  case (Some existing)
  with assms show thesis unfolding record_coverage_def replay_coverage_def
    by (elim bindrE) (auto elim!: maprE bindrE guardrE intro: replay)
next
  case None
  obtain i w policy u v x db1 y where h: "check_coverage q now = Inr i"
      "coverage_workflow db wid (ci_started i) = Inr w" "coverage_policy db (w_policy w) = Inr policy"
      "policy_links policy (q_asset_rule q) (q_capability_rule q) (q_capability q) = Inr u"
      "evidence_links db wid (w_policy w) (q_evidence q) = Inr v"
      "coverage_valid env (cv_document (coverage_row_of env (new_uuid db) w q i)) = Inr x"
      "coverage_insert (coverage_row_of env (new_uuid db) w q i) (draw db) = Inr db1"
      "append_audit_event env (coverage_event (coverage_row_of env (new_uuid db) w q i)) db1 = Inr y"
      "(case y of (db2, _) \<Rightarrow> Inr (db2, cv_document (coverage_row_of env (new_uuid db) w q i))) = (Inr (db', doc) :: _ result)"
    using assms unfolding record_coverage_def Let_def None option.case by (elim bindrE) blast
  let ?r = "coverage_row_of env (new_uuid db) w q i"
  have d1: "db1 = (draw db)\<lparr>coverages := coverages db @ [?r]\<rparr>"
    using h(7) by (rule coverage_insertE) (simp add: draw_def)
  have "db' = with_coverage env ?r db \<and> doc = cv_document ?r"
    using h(8,9) unfolding d1 with_coverage_def Let_def
    by (cases y) (auto elim!: append_audit_eventE simp: draw_def)
  with h None d1 show thesis by (intro fresh [of i w policy ?r]) simp_all
qed

text \<open>
  C26. A coverage assertion that \<open>record\<close> adds is supported: its workflow is running, paused or completed
  and started no later than the interval; the interval ends before it is recorded; the bundle of
  the workflow has an allow rule for the asset and a rule for exactly this capability that neither
  denies it nor leaves the asset out; each piece of evidence it cites belongs to the same workflow and
  bundle and has not been deleted, and a tested outcome cites some. The new row is the only row
  added, its columns hold these rules, this outcome and this evidence, and one event of the audit log names it.
\<close>

theorem coverage_supported:
  assumes "record_coverage env wid q now db = Inr (db', doc)" and "coverages db' \<noteq> coverages db"
  shows "\<exists>i w b policy r. check_coverage q now = Inr i \<and> find_workflow db wid = Some w \<and>
     w_status w \<in> {''running'', ''paused'', ''completed''} \<and>
     (\<exists>s t. w_started w = Some s \<and> parse_time_str s = Inr t \<and> t \<le> ci_started i) \<and>
     ci_started i \<le> ci_ended i \<and> ci_ended i \<le> ci_recorded i \<and>
     b \<in> set (bundles db) \<and> b_id b = w_policy w \<and> b_policy b = Some policy \<and>
     permitted_by policy (q_asset_rule q) (q_capability_rule q) (q_capability q) \<and>
     list_all (available_evidence db wid (w_policy w)) (q_evidence q) \<and>
     (q_outcome q \<in> set tested_outcomes \<longrightarrow> q_evidence q \<noteq> []) \<and>
     coverages db' = coverages db @ [r] \<and> doc = cv_document r \<and> cv_key r = q_key q \<and> cv_workflow r = wid \<and>
     cv_policy r = w_policy w \<and> cv_asset_rule r = q_asset_rule q \<and> cv_capability_rule r = q_capability_rule q \<and>
     cv_capability r = q_capability q \<and> cv_outcome r = q_outcome q \<and> cv_evidence r = JList (map JStr (q_evidence q)) \<and>
     (\<exists>e. audit db' = audit db @ [e] \<and> ev_action e = ''coverage.recorded'' \<and> ev_subject e = cv_id r)"
  using assms(1)
proof (cases rule: record_coverageE)
  case replay
  with assms(2) show ?thesis by simp
next
  case (fresh i w policy r)
  obtain b where b: "b \<in> set (bundles db)" "b_id b = w_policy w" "b_policy b = Some policy"
    using fresh(4) by (auto simp: coverage_policy_def split: option.splits dest!: find_SomeD)
  note w = coverage_workflowD [OF fresh(3)]
  have r: "cv_key r = q_key q" "cv_workflow r = wid" "cv_policy r = w_policy w" "cv_asset_rule r = q_asset_rule q"
    "cv_capability_rule r = q_capability_rule q" "cv_capability r = q_capability q" "cv_outcome r = q_outcome q"
    "cv_evidence r = JList (map JStr (q_evidence q))"
    using fresh(7) w(2) by (simp_all add: coverage_row_of_def)
  have d: "coverages db' = coverages db @ [r]"
      "audit db' = audit db @ [audit_event env (coverage_event r) ((draw db)\<lparr>coverages := coverages db @ [r]\<rparr>)]"
    using fresh(10) by (simp_all add: with_coverage_def Let_def draw_def)
  have ev: "list_all (available_evidence db wid (w_policy w)) (q_evidence q)"
    using evidence_links_available [OF fresh(6)] by (simp add: list_all_iff)
  obtain iv: "ci_started i \<le> ci_ended i" "ci_ended i \<le> ci_recorded i"
      "q_outcome q \<in> set tested_outcomes \<longrightarrow> q_evidence q \<noteq> []"
    using fresh(1) by (rule check_coverageE) blast
  show ?thesis
    by (rule exI [of _ i], rule exI [of _ w], rule exI [of _ b], rule exI [of _ policy], rule exI [of _ r])
      (intro conjI fresh w b r d(1) iv ev policy_links_permitted [OF fresh(5)]
         exI [of _ "audit_event env (coverage_event r) ((draw db)\<lparr>coverages := coverages db @ [r]\<rparr>)"] d(2);
       simp add: audit_event_def coverage_event_def event_args_def)
qed

section \<open>Histories\<close>

definition coverage_key :: "coverage_row \<Rightarrow> string \<times> string" where
  "coverage_key r = (cv_workflow r, cv_key r)"

definition coverage_logged :: "audit_row list \<Rightarrow> coverage_row \<Rightarrow> bool" where
  "coverage_logged events r \<longleftrightarrow>
     (\<exists>e \<in> set events. ev_action e = ''coverage.recorded'' \<and> ev_subject e = cv_id r \<and>
        ev_data e = Some (a_data (coverage_event r)))"

definition coverage_inv :: "policy_env \<Rightarrow> 'a coverage_db_scheme \<Rightarrow> bool" where
  "coverage_inv env db \<longleftrightarrow>
     distinct (map cv_id (coverages db)) \<and> distinct (map coverage_key (coverages db)) \<and>
     distinct (map cv_hash (coverages db)) \<and>
     list_all (coverage_row_ok env) (coverages db) \<and> list_all (coverage_logged (audit db)) (coverages db)"

text \<open>
  A step of the database as this service sees it: one of its own operations, or a step of another
  service, which leaves the table alone (its triggers refuse updates and deletions) and appends to the
  log.
\<close>

inductive coverage_step :: "policy_env \<Rightarrow> 'a coverage_db_scheme \<Rightarrow> 'a coverage_db_scheme \<Rightarrow> bool" for env where
  recorded: "record_coverage env wid q now db = Inr (db', doc) \<Longrightarrow> coverage_step env db db'"
| other: "coverages db' = coverages db \<Longrightarrow> extends_log env db db' \<Longrightarrow> coverage_step env db db'"

lemma with_coverage_extends:
  "extends_log env db (with_coverage env r db)"
proof -
  let ?db1 = "(draw db)\<lparr>coverages := coverages db @ [r]\<rparr>"
  have "audit ?db1 = audit db" by (simp add: draw_def)
  then show ?thesis
    using audit_event_links [of env ?db1 "coverage_event r"]
    by (simp add: extends_log_def with_coverage_def Let_def)
qed

lemma record_coverage_extends:
  "record_coverage env wid q now db = Inr (db', doc) \<Longrightarrow> extends_log env db db'"
  by (erule record_coverageE) (simp_all add: with_coverage_extends)

interpretation coverage_audit: audited_service env "coverage_step env" for env
  by unfold_locales (auto elim!: coverage_step.cases intro: record_coverage_extends)

lemma coverage_logged_prefix: "coverage_logged xs r \<Longrightarrow> prefix xs ys \<Longrightarrow> coverage_logged ys r"
  by (auto simp: coverage_logged_def prefix_def)

lemma with_coverage_simps [simp]:
  "coverages (with_coverage env r db) = coverages db @ [r]"
  "coverage_logged (audit (with_coverage env r db)) r"
  by (simp_all add: with_coverage_def Let_def draw_def coverage_logged_def)
    (simp add: audit_event_def coverage_event_def event_args_def)

lemma new_row_ok:
  assumes "r = coverage_row_of env ident w q i" and "coverage_valid env (cv_document r) = Inr ()"
    and "cv_started r \<le> cv_ended r" and "cv_outcome r \<in> set coverage_outcomes"
    and "cv_outcome r \<in> set tested_outcomes \<Longrightarrow> cv_evidence r \<noteq> JList []"
  shows "coverage_row_ok env r"
  using assms by (simp add: coverage_row_ok_def coverage_row_of_def coverage_doc_def requested_def)

lemma coverage_step_inv:
  assumes "coverage_step env db db'" and "coverage_inv env db"
  shows "coverage_inv env db' \<and> prefix (coverages db) (coverages db')"
proof -
  have logged: "list_all (coverage_logged (audit db')) (coverages db)"
    using coverage_audit.history_prefix [OF r_into_rtranclp [of "coverage_step env", OF assms(1)]] assms(2)
    by (auto simp: coverage_inv_def list_all_iff intro: coverage_logged_prefix)
  show ?thesis using assms(1)
  proof cases
    case (recorded wid q now doc)
    from recorded(1) show ?thesis
    proof (cases rule: record_coverageE)
      case replay
      with assms(2) show ?thesis by simp
    next
      case (fresh i w policy r)
      from fresh(9) have "coverage_row_ok env r \<and> cv_id r \<notin> cv_id ` set (coverages db) \<and>
          cv_hash r \<notin> cv_hash ` set (coverages db) \<and> coverage_key r \<notin> coverage_key ` set (coverages db)"
        by (rule coverage_insertE) (use new_row_ok [OF fresh(7,8)] in \<open>auto simp: draw_def coverage_key_def\<close>)
      with assms(2) logged fresh(10) show ?thesis
        by (simp add: coverage_inv_def)
    qed
  next
    case other
    with assms(2) logged show ?thesis by (simp add: coverage_inv_def)
  qed
qed

lemma coverage_history:
  assumes "(coverage_step env)\<^sup>*\<^sup>* db db'" and "coverage_inv env db"
  shows "coverage_inv env db' \<and> prefix (coverages db) (coverages db')"
  using assms
proof (induction rule: rtranclp_induct)
  case (step y z)
  with coverage_step_inv [of env y z] show ?case by (auto intro: prefix_order.order_trans)
qed simp

text \<open>
  C27. The coverage table is append-only and consistent: in every history of recordings interleaved
  with steps of other services, identifiers, hashes and the pairs of workflow and idempotency key stay
  unique, every row agrees with the document stored in it and with its hash, meets the contract,
  cites evidence when its outcome is a tested one and never claims completeness; every row is named by an event of the audit log,
  the log stays chained, and no row is ever changed or removed.
\<close>

theorem coverage_append_only:
  assumes "(coverage_step env)\<^sup>*\<^sup>* db db'" and "coverage_inv env db" and "chained env (audit db)"
  shows "coverage_inv env db' \<and> prefix (coverages db) (coverages db') \<and> chained env (audit db')"
  using coverage_history [OF assms(1,2)] coverage_audit.history_chained [OF assms(1,3)] by simp

lemma anyr_all_False: "(\<And>x. x \<in> set xs \<Longrightarrow> f x = Inr False) \<Longrightarrow> anyr f xs = Inr False"
  by (induction xs) auto

lemma replay_same_request:
  assumes "r = coverage_row_of env ident w q i" and "coverage_valid env (cv_document r) = Inr ()"
  shows "replay_coverage env r (requested q (i\<lparr>ci_recorded := t\<rparr>)) = Inr (cv_document r)"
proof -
  have "anyr (\<lambda>(k, v). mapr (\<lambda>d. \<not> py_eq d v) (index (cv_document r) k)) (requested q (i\<lparr>ci_recorded := t\<rparr>)) = Inr False"
    by (rule anyr_all_False) (auto simp: assms(1) coverage_row_of_def coverage_doc_def requested_def)
  with assms(2) show ?thesis by (simp add: replay_coverage_def)
qed

lemma recorded_row:
  assumes "record_coverage env wid q now db = Inr (db', doc)" and "coverage_inv env db"
  obtains r where "r \<in> set (coverages db')" and "cv_document r = doc" and "coverage_key r = (wid, q_key q)"
  using assms(1)
proof (cases rule: record_coverageE)
  case (replay i existing)
  with that [of existing] show thesis by (auto dest!: find_SomeD simp: coverage_key_def)
next
  case (fresh i w policy r)
  with that [of r] coverage_workflowD(2) [OF fresh(3)] show thesis
    by (auto simp: coverage_key_def coverage_row_of_def)
qed

lemma find_coverage_key:
  assumes "distinct (map coverage_key rows)" and "r \<in> set rows" and "coverage_key r = (wid, key)"
  shows "find (\<lambda>r. cv_workflow r = wid \<and> cv_key r = key) rows = Some r"
  using find_key [OF assms(1,2)] assms(3) by (simp add: coverage_key_def)

text \<open>
  Recording is idempotent through time: when a request was recorded, the same request with the
  same key, repeated after any history and at any clock that is not before the end of the interval,
  returns the same document and changes nothing.
\<close>

theorem coverage_replays:
  assumes "record_coverage env wid q now db = Inr (db', doc)" and "coverages db' \<noteq> coverages db"
    and "coverage_inv env db" and "(coverage_step env)\<^sup>*\<^sup>* db' db''"
    and "check_coverage q now = Inr i" and "coverage_instant now' = Inr t" and "ci_ended i \<le> t"
  shows "record_coverage env wid q now' db'' = Inr (db'', doc)"
  using assms(1)
proof (cases rule: record_coverageE)
  case replay
  with assms(2) show ?thesis by simp
next
  case (fresh j w policy r)
  have j: "j = i" using fresh(1) assms(5) by simp
  have inv: "coverage_inv env db'"
    using coverage_step_inv [OF coverage_step.recorded [OF assms(1)] assms(3)] by simp
  from coverage_history [OF assms(4) inv] fresh(10)
  have d: "distinct (map coverage_key (coverages db''))" "r \<in> set (coverages db'')"
    by (auto simp: coverage_inv_def prefix_def)
  have "coverage_key r = (wid, q_key q)"
    using fresh(7) coverage_workflowD(2) [OF fresh(3)] by (simp add: coverage_key_def coverage_row_of_def)
  with find_coverage_key [OF d] have f: "find (\<lambda>r. cv_workflow r = wid \<and> cv_key r = q_key q) (coverages db'') = Some r"
    by simp
  have "check_coverage q now' = Inr (i\<lparr>ci_recorded := t\<rparr>)"
    using assms(5) by (rule check_coverageE) (use assms(6,7) in blast)
  with f replay_same_request [OF fresh(7,8), of t] fresh(11) j show ?thesis
    by (simp add: record_coverage_def)
qed

section \<open>Listing\<close>

lemma traverse_unit: "(\<And>x. x \<in> set xs \<Longrightarrow> f x = Inr ()) \<Longrightarrow> \<exists>us. traverse f xs = Inr us"
  by (induction xs) auto

lemma list_for_workflow_inv:
  assumes "coverage_inv env db"
  shows "list_for_workflow env wid db =
     Inr (map cv_document (sort_key cv_started (sort_key cv_id (filter (\<lambda>r. cv_workflow r = wid) (coverages db)))))"
proof -
  let ?docs = "map cv_document (sort_key cv_started (sort_key cv_id (filter (\<lambda>r. cv_workflow r = wid) (coverages db))))"
  obtain us where "traverse (coverage_valid env) ?docs = Inr us"
    using traverse_unit [of ?docs "coverage_valid env"] assms
    by (auto simp: coverage_inv_def coverage_row_ok_def list_all_iff)
  then show ?thesis by (simp add: list_for_workflow_def Let_def)
qed

text \<open>
  What was recorded can be read: after a recording and any later history, listing the coverage of
  the workflow does not raise; it returns the documents of exactly the rows of that workflow, each as
  often as it is stored, in the textual order of their start times, and the recorded document is one of
  them.
\<close>

theorem recorded_coverage_listed:
  assumes "record_coverage env wid q now db = Inr (db', doc)" and "coverage_inv env db"
    and "(coverage_step env)\<^sup>*\<^sup>* db' db''"
  shows "\<exists>rows. list_for_workflow env wid db'' = Inr (map cv_document rows) \<and> doc \<in> set (map cv_document rows) \<and>
     mset rows = mset (filter (\<lambda>r. cv_workflow r = wid) (coverages db'')) \<and> sorted (map cv_started rows)"
proof -
  have inv: "coverage_inv env db'"
    using coverage_step_inv [OF coverage_step.recorded [OF assms(1)] assms(2)] by simp
  obtain r where r: "r \<in> set (coverages db')" "cv_document r = doc" "coverage_key r = (wid, q_key q)"
    using assms(1,2) by (rule recorded_row)
  let ?rows = "sort_key cv_started (sort_key cv_id (filter (\<lambda>r. cv_workflow r = wid) (coverages db'')))"
  from coverage_history [OF assms(3) inv] r have m: "coverage_inv env db''" "r \<in> set ?rows"
    by (auto simp: prefix_def coverage_key_def)
  show ?thesis
    by (rule exI [of _ ?rows]) (use list_for_workflow_inv [OF m(1), of wid] m(2) r(2) in \<open>auto simp: multiset.map_id\<close>)
qed

section \<open>Intervals within a second\<close>

lemma same_prefix_less: "p @ xs < p @ ys \<longleftrightarrow> xs < (ys :: string)"
  by (induction p) simp_all

lemma same_second:
  assumes "s mod us_second = 0" and "0 \<le> d" and "d < us_second"
  shows "(s + d) div us_day = s div us_day" and "(s + d) mod us_day div us_second = s mod us_day div us_second"
    and "(s + d) mod us_day mod us_second = d"
proof -
  obtain k where k: "s = us_second * k" using assms(1) by auto
  have q: "(s + d) div us_second = k" "(s + d) mod us_second = d"
    using assms(2,3) k by simp_all
  show "(s + d) div us_day = s div us_day"
    using q(1) k zdiv_zmult2_eq [of 86400 "s + d" us_second] zdiv_zmult2_eq [of 86400 s us_second] by simp
  have "(s + d) mod us_day = us_second * (k mod 86400) + d" "s mod us_day = us_second * (k mod 86400)"
    using zmod_zmult2_eq [of 86400 "s + d" us_second] q k mult_mod_right [of us_second k 86400] by simp_all
  then show "(s + d) mod us_day div us_second = s mod us_day div us_second" "(s + d) mod us_day mod us_second = d"
    using assms(2,3) by simp_all
qed

lemma timestamp_same_second:
  assumes "s mod us_second = 0" and "0 < d" and "d < us_second"
  shows "timestamp (s + d) < timestamp s"
proof -
  note e = same_second [OF assms(1) less_imp_le [OF assms(2)] assms(3)] same_second(3) [OF assms(1) order.refl, simplified]
  show ?thesis
    using assms(2) unfolding timestamp_def Let_def e
    by (auto simp: e same_prefix_less less_char_def split: prod.splits)
qed

text \<open>
  C28. A limit of the schema: the interval of a request that starts on a whole second and ends later
  within that second passes the checks of the service, but its two times compare the other way as text, so
  the CHECK constraint refuses the row; without an earlier row of the same key, such a request always
  raises an error.
\<close>

theorem subsecond_interval_refused:
  assumes "check_coverage q now = Inr i" and "ci_started i mod us_second = 0"
    and "ci_started i < ci_ended i" and "ci_ended i < ci_started i + us_second"
    and "find (\<lambda>r. cv_workflow r = wid \<and> cv_key r = q_key q) (coverages db) = None"
  shows "\<exists>e. record_coverage env wid q now db = Inl e"
proof (cases "record_coverage env wid q now db")
  case (Inr res)
  obtain db' doc where res: "res = (db', doc)" by (cases res)
  from Inr res have "record_coverage env wid q now db = Inr (db', doc)" by simp
  then show ?thesis
  proof (cases rule: record_coverageE)
    case replay
    with assms(5) show ?thesis by simp
  next
    case (fresh j w policy r)
    from fresh(9) have "cv_started r \<le> cv_ended r" by (rule coverage_insertE)
    with timestamp_same_second [of "ci_started i" "ci_ended i - ci_started i"] assms fresh(1,7) show ?thesis
      by (simp add: coverage_row_of_def)
  qed
qed simp

end
