(* ===== verification/Sample_Coverage.thy ===== *)
theory Sample_Coverage
  imports Sample_Workflow Coverage
begin

text \<open>
  A concrete request to the coverage service, recorded and listed, and one that the schema
  refuses; it instantiates the hypotheses of the theorems on coverage.
\<close>


section \<open>A sample request\<close>

definition sample_asset_rule :: string where
  "sample_asset_rule = ''11111111-1111-4111-8111-111111111111''"

definition sample_capability_rule :: string where
  "sample_capability_rule = ''22222222-2222-4222-8222-222222222222''"

definition sample_evidence :: string where
  "sample_evidence = ''33333333-3333-4333-8333-333333333333''"

definition sample_bundle_policy :: json where
  "sample_bundle_policy = JObj
     [(''asset_rules'', JList [JObj [(''rule_id'', JStr sample_asset_rule), (''effect'', JStr ''allow'')]]),
      (''capability_rules'', JList [JObj
         [(''rule_id'', JStr sample_capability_rule), (''capability'', JStr ''http.request''),
          (''effect'', JStr ''allow''), (''applicable_asset_rule_ids'', JList [JStr sample_asset_rule])]])]"

definition sample_coverage_db :: coverage_db where
  "sample_coverage_db = workflow_db.extend
     (sample_db\<lparr>bundles := [\<lparr>b_id = ''p1'', b_activated = Some ''2026-01-01T00:00:00Z'', b_revoked = None,
                           b_policy = Some sample_bundle_policy\<rparr>]\<rparr>)
     (coverage_db.fields [\<lparr>eo_id = sample_evidence, eo_workflow = ''w1'', eo_policy = ''p1''\<rparr>] [] [])"

text \<open>From 2026-01-14T12:00:00Z, for the given number of microseconds.\<close>

definition sample_request :: "int \<Rightarrow> coverage_request" where
  "sample_request d =
     \<lparr>q_key = ''coverage-key-0001'', q_asset_rule = sample_asset_rule, q_capability_rule = sample_capability_rule,
      q_capability = ''http.request'', q_outcome = ''tested_no_findings'',
      q_started = Aware 63903988800000000 0, q_ended = Aware (63903988800000000 + d) 0,
      q_evidence = [sample_evidence], q_limitations = ['' unauthenticated only ''], q_notes = ''No findings.'',
      q_actor = ''analyst''\<rparr>"

definition sample_recording :: "(coverage_db \<times> json) result" where
  "sample_recording = record_coverage sample_core_env ''w1'' (sample_request 3600000000) sample_clock sample_coverage_db"

definition covered_db :: coverage_db where
  "covered_db = state_after sample_recording sample_coverage_db"

lemma sample_recording_ok: "\<not> isl sample_recording"
  by code_simp

lemma sample_recording_result:
  "record_coverage sample_core_env ''w1'' (sample_request 3600000000) sample_clock sample_coverage_db =
     Inr (covered_db, reply sample_recording JNull)"
  using state_after_reply [OF sample_recording_ok, of sample_coverage_db JNull]
  by (simp add: covered_db_def sample_recording_def)

lemma sample_coverage_inv: "coverage_inv sample_core_env sample_coverage_db"
  by (simp add: coverage_inv_def sample_coverage_db_def workflow_db.defs coverage_db.defs)

lemma covered_once: "length (coverages covered_db) = 1"
proof -
  have e: "coverages sample_coverage_db = []" by (simp add: sample_coverage_db_def workflow_db.defs coverage_db.defs)
  from sample_recording_result show ?thesis
  proof (cases rule: record_coverageE)
    case (replay i existing)
    from replay(3) e show ?thesis by simp
  next
    case (fresh i w policy r)
    with e show ?thesis by (simp only: fresh(10) with_coverage_simps) simp
  qed
qed

lemma sample_recording_adds: "coverages covered_db \<noteq> coverages sample_coverage_db"
  using covered_once by (auto simp: sample_coverage_db_def workflow_db.defs coverage_db.defs)

lemma sample_coverage_history: "(coverage_step sample_core_env)\<^sup>*\<^sup>* sample_coverage_db covered_db"
  using coverage_step.recorded [OF sample_recording_result] by blast

definition checked_request :: "coverage_request \<Rightarrow> coverage_input" where
  "checked_request q = (case check_coverage q sample_clock of Inr i \<Rightarrow> i | Inl _ \<Rightarrow> undefined)"

lemma sample_check:
  "check_coverage (sample_request d) sample_clock = Inr (checked_request (sample_request d))"
  if "d = 3600000000 \<or> d = 500000"
proof -
  have "\<not> isl (check_coverage (sample_request 3600000000) sample_clock)" "\<not> isl (check_coverage (sample_request 500000) sample_clock)"
    by code_simp+
  with that show ?thesis
    by (auto simp: checked_request_def split: sum.splits)
qed

theorem coverage_supported_witness:
  "permitted_by sample_bundle_policy sample_asset_rule sample_capability_rule ''http.request'' \<and>
   available_evidence sample_coverage_db ''w1'' ''p1'' sample_evidence \<and> coverages covered_db \<noteq> []"
proof -
  have b: "bundles sample_coverage_db = [\<lparr>b_id = ''p1'', b_activated = Some ''2026-01-01T00:00:00Z'', b_revoked = None,
        b_policy = Some sample_bundle_policy\<rparr>]"
    by (simp add: sample_coverage_db_def workflow_db.defs coverage_db.defs)
  have w: "find_workflow sample_coverage_db ''w1'' = Some w \<Longrightarrow> w_policy w = ''p1''" for w
    by (auto simp: find_workflow_def sample_coverage_db_def sample_db_def sample_workflow_def workflow_db.defs coverage_db.defs)
  obtain v bb policy r where s: "find_workflow sample_coverage_db ''w1'' = Some v" "bb \<in> set (bundles sample_coverage_db)"
      "b_policy bb = Some policy"
      "permitted_by policy (q_asset_rule (sample_request 3600000000)) (q_capability_rule (sample_request 3600000000))
         (q_capability (sample_request 3600000000))"
      "list_all (available_evidence sample_coverage_db ''w1'' (w_policy v)) (q_evidence (sample_request 3600000000))"
      "coverages covered_db = coverages sample_coverage_db @ [r]"
    using coverage_supported [OF sample_recording_result sample_recording_adds] by blast
  have "policy = sample_bundle_policy" using s(2,3) by (simp add: b)
  with s w [OF s(1)] show ?thesis by (simp add: sample_request_def)
qed

theorem coverage_append_only_witness:
  "coverage_inv sample_core_env covered_db \<and> chained sample_core_env (audit covered_db) \<and> length (coverages covered_db) = 1"
proof -
  have "chained sample_core_env (audit sample_coverage_db)"
    by (simp add: sample_coverage_db_def sample_db_def workflow_db.defs coverage_db.defs)
  from coverage_append_only [OF sample_coverage_history sample_coverage_inv this]
  have "coverage_inv sample_core_env covered_db \<and> chained sample_core_env (audit covered_db)" by simp
  with covered_once show ?thesis by simp
qed

text \<open>Half a second.\<close>

theorem subsecond_interval_refused_witness:
  "\<exists>e. record_coverage sample_core_env ''w1'' (sample_request 500000) sample_clock sample_coverage_db = Inl e"
proof -
  let ?i = "checked_request (sample_request 500000)"
  have i: "ci_started ?i mod us_second = 0 \<and> ci_started ?i < ci_ended ?i \<and> ci_ended ?i < ci_started ?i + us_second"
    by code_simp
  show ?thesis
    by (rule subsecond_interval_refused [OF sample_check]) (use i in \<open>simp_all add: sample_coverage_db_def workflow_db.defs coverage_db.defs\<close>)
qed

end
