(* ===== verification/Findings.thy ===== *)
theory Findings
  imports Coverage Cvss
begin

text \<open>
  The finding service, \<open>findings.py\<close>: supervised findings, their review states and versions.

  The rows have the columns of the two tables of migration 0024. INSERT statements are subject to the
  keys, CHECK constraints and triggers of the tables; the UPDATE of \<open>transition\<close> is written without
  them: that it respects them is a theorem. Arguments whose type the code tests at run time are
  JSON values. \<open>casefold\<close> is exact up to U+00FF except for the micro sign, whose case folding is
  not in that range.

  Results: a finding that is validated, ready for a report or closed was confirmed and is no duplicate;
  the versions of a finding are the run of its state machine, one version per transition, the last one
  being the current document; a transition needs the current version, and closed and rejected findings
  never change.
\<close>

section \<open>Tables\<close>

record finding_row =
  f_id :: string
  f_workflow :: string
  f_engagement :: string
  f_policy :: string
  f_key :: string
  f_state :: string
  f_version :: int
  f_title :: string
  f_severity :: string
  f_vector :: string
  f_score :: rat
  f_cwe :: string
  f_confidence :: int
  f_validation :: string
  f_duplicate :: string
  f_duplicate_of :: "string option"
  f_assets :: json
  f_evidence :: json
  f_reproduction :: string
  f_impact :: string
  f_remediation :: string
  f_references :: json
  f_fingerprint :: string
  f_created_by :: string
  f_created :: string
  f_updated :: string
  f_document :: "json option"
  f_hash :: string

record version_row =
  v_id :: string
  v_finding :: string
  v_version :: int
  v_document :: "json option"
  v_hash :: string
  v_reason :: string
  v_author_type :: string
  v_author :: string
  v_created :: string

record findings_db = coverage_db +
  findings :: "finding_row list"
  finding_versions :: "version_row list"

text \<open>The keyword arguments of \<open>create\<close>.\<close>

record finding_request =
  n_key :: string
  n_title :: string
  n_severity :: string
  n_vector :: string
  n_score :: json
  n_cwe :: string
  n_confidence :: json
  n_assets :: json
  n_evidence :: json
  n_reproduction :: string
  n_impact :: string
  n_remediation :: string
  n_references :: json
  n_actor :: string

abbreviation finding_error :: "string \<Rightarrow> exn" where
  "finding_error c \<equiv> CodedError ''FindingError'' c"

section \<open>Arguments\<close>

definition finding_timestamp :: "datetime \<Rightarrow> string result" where
  "finding_timestamp now =
     (case now of Naive _ \<Rightarrow> Inl (finding_error ''FINDING_TIME_INVALID'')
      | Aware loc off \<Rightarrow> mapr timestamp (to_utc loc off))"

definition finding_identity :: "string \<Rightarrow> unit result" where
  "finding_identity actor_id =
     guardr (\<not> (1 \<le> length actor_id \<and> length actor_id \<le> 128)) (finding_error ''FINDING_ACTOR_INVALID'') (Inr ())"

definition finding_key :: "string \<Rightarrow> unit result" where
  "finding_key v =
     guardr (\<not> (16 \<le> length v \<and> length v \<le> 128)) (finding_error ''FINDING_IDEMPOTENCY_INVALID'') (Inr ())"

definition finding_severities :: "string list" where
  "finding_severities = [''informational'', ''low'', ''medium'', ''high'', ''critical'']"

definition cwe_pattern :: "string \<Rightarrow> bool" where
  "cwe_pattern s \<longleftrightarrow> prefix ''CWE-'' s \<and>
     (let n = drop 4 s in 1 \<le> length n \<and> length n \<le> 5 \<and> list_all is_digit_char n \<and> hd n \<noteq> CHR ''0'')"

definition confidence_of :: "json \<Rightarrow> int result" where
  "confidence_of v =
     (case v of
        JInt c \<Rightarrow> guardr (\<not> (0 \<le> c \<and> c \<le> 100)) (finding_error ''FINDING_CONFIDENCE_INVALID'') (Inr c)
      | _ \<Rightarrow> Inl (finding_error ''FINDING_CONFIDENCE_INVALID''))"

text \<open>\<open>isinstance(v, (int, float)) and not isinstance(v, bool) and v == calculated\<close>.\<close>

definition supplied_score :: "json \<Rightarrow> rat \<Rightarrow> bool" where
  "supplied_score v calculated =
     (case v of JInt i \<Rightarrow> of_int i = calculated | JFloat r \<Rightarrow> r = calculated | _ \<Rightarrow> False)"

text \<open>\<open>str(UUID(v))\<close>: 32 lower case digits in groups of 8, 4, 4, 4 and 12.\<close>

fun pad_hex :: "nat \<Rightarrow> int \<Rightarrow> string" where
  "pad_hex 0 n = []"
| "pad_hex (Suc w) n = pad_hex w (n div 16) @ [hex_char_lower (n mod 16)]"

definition uuid_str :: "string \<Rightarrow> string" where
  "uuid_str v =
     (let h = pad_hex 32 (int_of_hex (filter (\<lambda>c. c \<noteq> CHR ''_'') (int16_digits (uuid_hex v))))
      in take 8 h @ ''-'' @ take 4 (drop 8 h) @ ''-'' @ take 4 (drop 12 h) @ ''-'' @ take 4 (drop 16 h) @ ''-'' @ drop 20 h)"

definition uuid_item :: "json \<Rightarrow> string option" where
  "uuid_item v = (case v of JStr s \<Rightarrow> if uuid_text s then Some (uuid_str s) else None | _ \<Rightarrow> None)"

definition uuid_list :: "json \<Rightarrow> nat \<Rightarrow> string \<Rightarrow> string list result" where
  "uuid_list v maximum c =
     (case v of
        JList xs \<Rightarrow>
          guardr (\<not> (1 \<le> length xs \<and> length xs \<le> maximum)) (finding_error c)
         (guardr (list_ex (\<lambda>x. uuid_item x = None) xs) (finding_error c)
         (let normalized = sort (remdups (map (\<lambda>x. the (uuid_item x)) xs)) in
          guardr (length normalized \<noteq> length xs) (finding_error c) (Inr normalized)))
      | _ \<Rightarrow> Inl (finding_error c))"

definition reference_ok :: "string \<Rightarrow> bool result" where
  "reference_ok v =
     (if \<not> (1 \<le> int (length v) \<and> int (length v) \<le> 2048) then Inr False
      else bindr (urlsplit v) (\<lambda>parsed.
        Inr (if url_scheme parsed = ''https''
             then (url_hostname parsed \<noteq> None \<and> url_hostname parsed \<noteq> Some []) \<and> \<not> has_userinfo parsed
             else url_scheme parsed = ''urn'' \<and> url_path parsed \<noteq> [])))"

definition references_of :: "json \<Rightarrow> string list result" where
  "references_of v =
     (case v of
        JList xs \<Rightarrow>
          guardr (list_ex (\<lambda>x. \<not> is_str x) xs) (finding_error ''FINDING_REFERENCES_INVALID'')
         (let references = sort (remdups (map str_of xs)) in
          guardr (32 < length references) (finding_error ''FINDING_REFERENCES_INVALID'')
         (bindr (anyr (\<lambda>r. mapr Not (reference_ok r)) references) (\<lambda>bad.
          guardr bad (finding_error ''FINDING_REFERENCES_INVALID'') (Inr references))))
      | _ \<Rightarrow> Inl (finding_error ''FINDING_REFERENCES_INVALID''))"

definition finding_text :: "string \<Rightarrow> int \<Rightarrow> string result" where
  "finding_text v limit =
     guardr (\<not> (1 \<le> int (length (strip v)) \<and> int (length (strip v)) \<le> limit)) (finding_error ''FINDING_CONTENT_INVALID'') (Inr (strip v))"

record finding_content =
  k_title :: string
  k_severity :: string
  k_vector :: string
  k_score :: rat
  k_cwe :: string
  k_confidence :: int
  k_assets :: "string list"
  k_evidence :: "string list"
  k_reproduction :: string
  k_impact :: string
  k_remediation :: string
  k_references :: "string list"

definition content_of :: "(rat \<Rightarrow> nat \<Rightarrow> rat) \<Rightarrow> finding_request \<Rightarrow> finding_content result" where
  "content_of pow n =
     (let title = strip (n_title n) in
      guardr (\<not> (1 \<le> length title \<and> length title \<le> 200) \<or> n_severity n \<notin> set finding_severities \<or>
              \<not> cwe_pattern (n_cwe n)) (finding_error ''FINDING_CLASSIFICATION_INVALID'')
     (bindr (confidence_of (n_confidence n)) (\<lambda>confidence.
      bindr (cvss_score pow (n_vector n)) (\<lambda>calculated.
      guardr (\<not> supplied_score (n_score n) calculated) (finding_error ''FINDING_CVSS_INVALID'')
     (guardr (n_severity n \<noteq> severity_of calculated) (finding_error ''FINDING_SEVERITY_INVALID'')
     (bindr (uuid_list (n_assets n) 64 ''FINDING_ASSETS_INVALID'') (\<lambda>assets.
      bindr (uuid_list (n_evidence n) 128 ''FINDING_EVIDENCE_INVALID'') (\<lambda>evidence.
      bindr (references_of (n_references n)) (\<lambda>references.
      bindr (finding_text (n_reproduction n) 20000) (\<lambda>reproduction.
      bindr (finding_text (n_impact n) 10000) (\<lambda>impact.
      bindr (finding_text (n_remediation n) 10000) (\<lambda>remediation.
      Inr \<lparr>k_title = title, k_severity = n_severity n, k_vector = n_vector n, k_score = calculated,
           k_cwe = n_cwe n, k_confidence = confidence, k_assets = assets, k_evidence = evidence,
           k_reproduction = reproduction, k_impact = impact, k_remediation = remediation,
           k_references = references\<rparr>))))))))))))"

definition content_dict :: "finding_content \<Rightarrow> dict" where
  "content_dict k =
     [(''title'', JStr (k_title k)), (''severity'', JStr (k_severity k)),
      (''cvss'', JObj [(''version'', JStr ''3.1''), (''vector'', JStr (k_vector k)), (''base_score'', JFloat (k_score k))]),
      (''cwe'', JStr (k_cwe k)), (''confidence'', JInt (k_confidence k)),
      (''affected_asset_rule_ids'', JList (map JStr (k_assets k))), (''evidence_ids'', JList (map JStr (k_evidence k))),
      (''reproduction'', JStr (k_reproduction k)), (''impact'', JStr (k_impact k)),
      (''remediation'', JStr (k_remediation k)), (''references'', JList (map JStr (k_references k)))]"

section \<open>Documents, links and records\<close>

definition finding_valid :: "policy_env \<Rightarrow> json \<Rightarrow> unit result" where
  "finding_valid env doc =
     guardr (contract_issues env doc ''finding-v1.schema.json'' \<noteq> []) (finding_error ''FINDING_CONTRACT_INVALID'') (Inr ())"

text \<open>The stored document, which has to be a dict with the stored hash.\<close>

definition stored_document :: "policy_env \<Rightarrow> json option \<Rightarrow> string \<Rightarrow> dict result" where
  "stored_document env doc digest =
     (case doc of
        Some (JObj d) \<Rightarrow>
          guardr (content_hash env (JObj d) \<noteq> digest) (finding_error ''FINDING_INTEGRITY_FAILED'') (Inr d)
      | _ \<Rightarrow> Inl (finding_error ''FINDING_INTEGRITY_FAILED''))"

definition finding_document :: "policy_env \<Rightarrow> finding_row \<Rightarrow> dict result" where
  "finding_document env f = stored_document env (f_document f) (f_hash f)"

definition allow_rule_ids :: "json list \<Rightarrow> json list result" where
  "allow_rule_ids rules =
     traverse (\<lambda>rule. bindr (index rule ''rule_id'') (\<lambda>v. guardr (\<not> hashable v) TypeError (Inr v)))
       (filter (\<lambda>rule. is_dict rule \<and> py_eq (rule_get rule ''effect'') (JStr ''allow'')) rules)"

definition asset_links :: "json \<Rightarrow> string list \<Rightarrow> unit result" where
  "asset_links policy wanted =
     (case policy of
        JObj d \<Rightarrow>
          (case dict_get d ''asset_rules'' of
             JList rules \<Rightarrow>
               bindr (allow_rule_ids rules) (\<lambda>allowed.
               guardr (\<not> list_all (\<lambda>a. py_in (JStr a) allowed) wanted) (finding_error ''FINDING_ASSET_OUT_OF_SCOPE'') (Inr ()))
           | _ \<Rightarrow> Inl (finding_error ''FINDING_POLICY_INVALID''))
      | _ \<Rightarrow> Inl (finding_error ''FINDING_POLICY_INVALID''))"

text \<open>The identifiers that the query returns have to be those asked for.\<close>

definition finding_evidence_links :: "'a coverage_db_scheme \<Rightarrow> string \<Rightarrow> string \<Rightarrow> string list \<Rightarrow> unit result" where
  "finding_evidence_links db workflow_id policy_bundle_id evidence_ids =
     (let rows = filter (\<lambda>r. eo_id r \<in> set evidence_ids \<and> eo_workflow r = workflow_id \<and> eo_policy r = policy_bundle_id \<and>
                          (''original'', eo_id r) \<notin> set (evidence_deletions db)) (evidence_objects db)
      in guardr (set (map eo_id rows) \<noteq> set evidence_ids) (finding_error ''FINDING_EVIDENCE_MISMATCH'') (Inr ()))"

definition casefold :: "string \<Rightarrow> string" where
  "casefold s = concat (map (\<lambda>c. if c = CHR 0xDF then ''ss'' else [to_lower_char c]) s)"

definition finding_fingerprint :: "policy_env \<Rightarrow> finding_content \<Rightarrow> string" where
  "finding_fingerprint env k = content_hash env (JObj
     [(''title'', JStr (casefold (k_title k))), (''cwe'', JStr (k_cwe k)),
      (''affected_asset_rule_ids'', JList (map JStr (k_assets k)))])"

definition finding_doc ::
  "policy_env \<Rightarrow> string \<Rightarrow> workflow_row \<Rightarrow> finding_content \<Rightarrow> string \<Rightarrow> string \<Rightarrow> dict" where
  "finding_doc env ident w k actor_id created_at =
     [(''schema_version'', JStr ''1.0.0''), (''finding_id'', JStr ident), (''workflow_id'', JStr (w_id w)),
      (''engagement_id'', JStr (w_engagement w)), (''policy_bundle_id'', JStr (w_policy w)),
      (''state'', JStr ''candidate''), (''version'', JInt 1)] @ content_dict k @
     [(''validation_status'', JStr ''unverified''), (''duplicate_status'', JStr ''pending''),
      (''duplicate_of'', JNull), (''fingerprint'', JStr (finding_fingerprint env k)),
      (''created_by'', JStr actor_id), (''created_at'', JStr created_at), (''updated_at'', JStr created_at)]"

definition new_finding ::
  "policy_env \<Rightarrow> string \<Rightarrow> workflow_row \<Rightarrow> string \<Rightarrow> finding_content \<Rightarrow> string \<Rightarrow> string \<Rightarrow> finding_row" where
  "new_finding env ident w key k actor_id created_at =
     (let doc = JObj (finding_doc env ident w k actor_id created_at) in
      \<lparr>f_id = ident, f_workflow = w_id w, f_engagement = w_engagement w, f_policy = w_policy w, f_key = key,
       f_state = ''candidate'', f_version = 1, f_title = k_title k, f_severity = k_severity k,
       f_vector = k_vector k, f_score = k_score k, f_cwe = k_cwe k, f_confidence = k_confidence k,
       f_validation = ''unverified'', f_duplicate = ''pending'', f_duplicate_of = None,
       f_assets = JList (map JStr (k_assets k)), f_evidence = JList (map JStr (k_evidence k)),
       f_reproduction = k_reproduction k, f_impact = k_impact k, f_remediation = k_remediation k,
       f_references = JList (map JStr (k_references k)), f_fingerprint = finding_fingerprint env k,
       f_created_by = actor_id, f_created = created_at, f_updated = created_at,
       f_document = Some doc, f_hash = content_hash env doc\<rparr>)"

text \<open>The keys and CHECK constraints of \<open>findings\<close> that an insertion can violate.\<close>

definition finding_states :: "string list" where
  "finding_states = [''candidate'', ''scope_reviewed'', ''duplicate_reviewed'', ''validated'', ''report_ready'',
     ''closed'', ''rejected'']"

definition validation_statuses :: "string list" where
  "validation_statuses = [''unverified'', ''confirmed'', ''not_reproduced'', ''false_positive'', ''needs_retest'']"

definition duplicate_statuses :: "string list" where
  "duplicate_statuses = [''pending'', ''clear'', ''duplicate'']"

definition finding_checks :: "finding_row \<Rightarrow> bool" where
  "finding_checks f \<longleftrightarrow>
     f_state f \<in> set finding_states \<and> 1 \<le> f_version f \<and> f_severity f \<in> set finding_severities \<and>
     0 \<le> f_score f \<and> f_score f \<le> 10 \<and> 0 \<le> f_confidence f \<and> f_confidence f \<le> 100 \<and>
     f_validation f \<in> set validation_statuses \<and> f_duplicate f \<in> set duplicate_statuses \<and>
     length (f_fingerprint f) = 64 \<and> length (f_hash f) = 64 \<and>
     (if f_duplicate f = ''duplicate'' then f_duplicate_of f \<noteq> None \<and> f_duplicate_of f \<noteq> Some (f_id f)
      else f_duplicate_of f = None)"

definition finding_insert :: "finding_row \<Rightarrow> 'a findings_db_scheme \<Rightarrow> 'a findings_db_scheme result" where
  "finding_insert f db =
     guardr (list_ex (\<lambda>g. f_id g = f_id f \<or> f_hash g = f_hash f \<or>
                       (f_workflow g = f_workflow f \<and> f_key g = f_key f)) (findings db) \<or> \<not> finding_checks f)
       IntegrityError (Inr (db\<lparr>findings := findings db @ [f]\<rparr>))"

definition versions_of :: "'a findings_db_scheme \<Rightarrow> string \<Rightarrow> version_row list" where
  "versions_of db fid = filter (\<lambda>v. v_finding v = fid) (finding_versions db)"

text \<open>The keys and checks of \<open>finding_versions\<close> and the trigger \<open>finding_versions_chain_guard\<close>.\<close>

definition next_version :: "version_row list \<Rightarrow> int" where
  "next_version rows = (if rows = [] then 1 else Max (v_version ` set rows) + 1)"

definition version_insert :: "version_row \<Rightarrow> 'a findings_db_scheme \<Rightarrow> 'a findings_db_scheme result" where
  "version_insert v db =
     guardr (list_ex (\<lambda>u. v_id u = v_id v \<or> v_hash u = v_hash v \<or>
                       (v_finding u = v_finding v \<and> v_version u = v_version v)) (finding_versions db) \<or>
             v_version v < 1 \<or> length (v_hash v) \<noteq> 64 \<or> v_author_type v \<noteq> ''human'' \<or>
             v_version v \<noteq> next_version (versions_of db (v_finding v)))
       IntegrityError (Inr (db\<lparr>finding_versions := finding_versions db @ [v]\<rparr>))"

text \<open>
  \<open>_version\<close>: the identifier and the version are read from the document, whose contract makes them a
  string and an integer.
\<close>

definition store_version ::
  "policy_env \<Rightarrow> dict \<Rightarrow> string \<Rightarrow> string \<Rightarrow> string \<Rightarrow> 'a findings_db_scheme \<Rightarrow> 'a findings_db_scheme result" where
  "store_version env d reason actor_id created_at db =
     bindr (index (JObj d) ''finding_id'') (\<lambda>fid.
     bindr (index (JObj d) ''version'') (\<lambda>version.
     case (fid, version) of
       (JStr fid, JInt version) \<Rightarrow>
         version_insert \<lparr>v_id = new_uuid db, v_finding = fid, v_version = version, v_document = Some (JObj d),
           v_hash = content_hash env (JObj d), v_reason = reason, v_author_type = ''human'', v_author = actor_id,
           v_created = created_at\<rparr> (draw db)
     | _ \<Rightarrow> Inl TypeError))"

definition finding_audit_fields :: "string list" where
  "finding_audit_fields = [''workflow_id'', ''policy_bundle_id'', ''state'', ''version'', ''validation_status'',
     ''duplicate_status'', ''evidence_ids'', ''affected_asset_rule_ids'']"

definition finding_audit ::
  "policy_env \<Rightarrow> dict \<Rightarrow> string \<Rightarrow> string \<Rightarrow> string \<Rightarrow> 'a core_db_scheme \<Rightarrow> 'a core_db_scheme result" where
  "finding_audit env d action actor_id occurred_at db =
     bindr (index (JObj d) ''finding_id'') (\<lambda>fid.
     bindr (traverse (\<lambda>k. mapr (\<lambda>v. (k, v)) (index (JObj d) k)) finding_audit_fields) (\<lambda>data.
     mapr fst (append_audit_event env
       (event_args action ''finding'' (py_str (float_repr env) fid) ''human'' actor_id data occurred_at) db)))"

section \<open>Operations\<close>

definition finding_workflow :: "'a workflow_db_scheme \<Rightarrow> string \<Rightarrow> workflow_row result" where
  "finding_workflow db workflow_id =
     (case find_workflow db workflow_id of None \<Rightarrow> Inl (finding_error ''FINDING_WORKFLOW_MISSING'')
      | Some w \<Rightarrow> guardr (w_status w \<notin> set [''running'', ''paused'', ''completed''])
                    (finding_error ''FINDING_WORKFLOW_DENIED'') (Inr w))"

definition finding_policy :: "'a core_db_scheme \<Rightarrow> string \<Rightarrow> json result" where
  "finding_policy db policy_bundle_id =
     (case find (\<lambda>b. b_id b = policy_bundle_id) (bundles db) of
        None \<Rightarrow> Inl (finding_error ''FINDING_POLICY_MISSING'')
      | Some b \<Rightarrow> (case b_policy b of None \<Rightarrow> Inl (finding_error ''FINDING_POLICY_INVALID'')
                   | Some policy \<Rightarrow> Inr policy))"

definition replay_finding :: "policy_env \<Rightarrow> finding_row \<Rightarrow> dict \<Rightarrow> json result" where
  "replay_finding env existing wanted =
     bindr (finding_document env existing) (\<lambda>d.
     bindr (traverse (\<lambda>(k, _). mapr (\<lambda>v. (k, v)) (index (JObj d) k)) wanted) (\<lambda>stored.
     guardr (\<not> py_eq (JObj wanted) (JObj stored)) (finding_error ''FINDING_IDEMPOTENCY_CONFLICT'') (Inr (JObj d))))"

definition create_finding ::
  "policy_env \<Rightarrow> (rat \<Rightarrow> nat \<Rightarrow> rat) \<Rightarrow> string \<Rightarrow> finding_request \<Rightarrow> datetime \<Rightarrow> 'a findings_db_scheme \<Rightarrow>
   ('a findings_db_scheme \<times> json) result" where
  "create_finding env pow workflow_id n now db =
     bindr (finding_timestamp now) (\<lambda>created_at.
     bindr (finding_identity (n_actor n)) (\<lambda>_.
     bindr (finding_key (n_key n)) (\<lambda>_.
     bindr (content_of pow n) (\<lambda>k.
     case find (\<lambda>f. f_workflow f = workflow_id \<and> f_key f = n_key n) (findings db) of
       Some existing \<Rightarrow> mapr (\<lambda>doc. (db, doc)) (replay_finding env existing (content_dict k))
     | None \<Rightarrow>
         bindr (finding_workflow db workflow_id) (\<lambda>w.
         bindr (finding_policy db (w_policy w)) (\<lambda>policy.
         bindr (asset_links policy (k_assets k)) (\<lambda>_.
         bindr (finding_evidence_links db workflow_id (w_policy w) (k_evidence k)) (\<lambda>_.
         let d = finding_doc env (new_uuid db) w k (n_actor n) created_at in
         bindr (finding_valid env (JObj d)) (\<lambda>_.
         bindr (finding_insert (new_finding env (new_uuid db) w (n_key n) k (n_actor n) created_at) (draw db)) (\<lambda>db.
         bindr (store_version env d ''candidate created'' (n_actor n) created_at db) (\<lambda>db.
         bindr (finding_audit env d ''finding.created'' (n_actor n) created_at db) (\<lambda>db.
         Inr (db, JObj d)))))))))))))"

definition finding_targets :: "string \<Rightarrow> string list" where
  "finding_targets state =
     (if state = ''candidate'' then [''scope_reviewed'', ''rejected'']
      else if state = ''scope_reviewed'' then [''duplicate_reviewed'', ''rejected'']
      else if state = ''duplicate_reviewed'' then [''validated'', ''rejected'']
      else if state = ''validated'' then [''report_ready'', ''duplicate_reviewed'']
      else if state = ''report_ready'' then [''closed'', ''validated'']
      else [])"

definition find_finding :: "'a findings_db_scheme \<Rightarrow> string \<Rightarrow> finding_row option" where
  "find_finding db fid = find (\<lambda>f. f_id f = fid) (findings db)"

definition duplicate_target :: "'a findings_db_scheme \<Rightarrow> finding_row \<Rightarrow> string option \<Rightarrow> unit result" where
  "duplicate_target db f target =
     (case target of None \<Rightarrow> Inl (finding_error ''FINDING_DUPLICATE_INVALID'')
      | Some t \<Rightarrow>
          guardr (t = f_id f) (finding_error ''FINDING_DUPLICATE_INVALID'')
          (case find_finding db t of None \<Rightarrow> Inl (finding_error ''FINDING_DUPLICATE_INVALID'')
           | Some g \<Rightarrow> guardr (f_engagement g \<noteq> f_engagement f \<or> f_state g = ''rejected'')
                         (finding_error ''FINDING_DUPLICATE_INVALID'') (Inr ())))"

text \<open>The review outcome that a transition needs.\<close>

definition check_review ::
  "'a findings_db_scheme \<Rightarrow> finding_row \<Rightarrow> string \<Rightarrow> string \<Rightarrow> string \<Rightarrow> string option \<Rightarrow> unit result" where
  "check_review db f target_state validation dup dup_of =
     guardr (validation \<notin> set validation_statuses \<or> dup \<notin> set duplicate_statuses) (finding_error ''FINDING_REVIEW_INVALID'')
    (bindr (if dup = ''duplicate'' then duplicate_target db f dup_of
            else guardr (dup_of \<noteq> None) (finding_error ''FINDING_DUPLICATE_INVALID'') (Inr ())) (\<lambda>_.
     guardr (target_state = ''scope_reviewed'' \<and> (validation \<noteq> ''unverified'' \<or> dup \<noteq> ''pending''))
       (finding_error ''FINDING_REVIEW_INVALID'')
    (guardr (target_state = ''duplicate_reviewed'' \<and> dup = ''pending'') (finding_error ''FINDING_DUPLICATE_REQUIRED'')
    (guardr (target_state \<in> set [''validated'', ''report_ready'', ''closed''] \<and> (dup \<noteq> ''clear'' \<or> validation \<noteq> ''confirmed''))
       (finding_error ''FINDING_VALIDATION_REQUIRED'')
    (guardr (target_state = ''rejected'' \<and> dup \<noteq> ''duplicate'' \<and> validation \<notin> set [''not_reproduced'', ''false_positive''])
       (finding_error ''FINDING_REJECTION_REVIEW_REQUIRED'') (Inr ()))))))"

definition dict_update :: "dict \<Rightarrow> dict \<Rightarrow> dict" where
  "dict_update d changes = foldl (\<lambda>d (k, v). dict_put d k v) d changes"

definition transition_dict ::
  "dict \<Rightarrow> string \<Rightarrow> int \<Rightarrow> string \<Rightarrow> string \<Rightarrow> string option \<Rightarrow> string \<Rightarrow> dict" where
  "transition_dict d target_state version validation dup dup_of changed_at = dict_update d
     [(''state'', JStr target_state), (''version'', JInt version), (''validation_status'', JStr validation),
      (''duplicate_status'', JStr dup), (''duplicate_of'', opt_str dup_of), (''updated_at'', JStr changed_at)]"

definition transition_row ::
  "policy_env \<Rightarrow> dict \<Rightarrow> string \<Rightarrow> int \<Rightarrow> string \<Rightarrow> string \<Rightarrow> string option \<Rightarrow> string \<Rightarrow> finding_row \<Rightarrow> finding_row" where
  "transition_row env d target_state version validation dup dup_of changed_at f =
     f\<lparr>f_state := target_state, f_version := version, f_validation := validation, f_duplicate := dup,
       f_duplicate_of := dup_of, f_updated := changed_at, f_document := Some (JObj d), f_hash := content_hash env (JObj d)\<rparr>"

record finding_review =
  g_target :: string
  g_version :: int
  g_reason :: string
  g_actor :: string
  g_validation :: "string option"
  g_duplicate :: "string option"
  g_duplicate_of :: "string option"

definition transition_finding ::
  "policy_env \<Rightarrow> string \<Rightarrow> finding_review \<Rightarrow> datetime \<Rightarrow> 'a findings_db_scheme \<Rightarrow>
   ('a findings_db_scheme \<times> json) result" where
  "transition_finding env finding_id g now db =
     bindr (finding_timestamp now) (\<lambda>changed_at.
     bindr (finding_identity (g_actor g)) (\<lambda>_.
     let reason = strip (g_reason g) in
     guardr (\<not> (1 \<le> int (length reason) \<and> int (length reason) \<le> 1000)) (finding_error ''FINDING_REASON_INVALID'')
    (case find_finding db finding_id of None \<Rightarrow> Inl (finding_error ''FINDING_NOT_FOUND'')
     | Some f \<Rightarrow>
         guardr (f_version f \<noteq> g_version g) (finding_error ''FINDING_FENCED'')
        (guardr (g_target g \<notin> set (finding_targets (f_state f))) (finding_error ''FINDING_TRANSITION_DENIED'')
        (let validation = (case g_validation g of Some v \<Rightarrow> v | None \<Rightarrow> f_validation f);
             dup = (case g_duplicate g of Some s \<Rightarrow> s | None \<Rightarrow> f_duplicate f);
             dup_of = (if g_duplicate g \<noteq> None then g_duplicate_of g else f_duplicate_of f);
             version = g_version g + 1 in
         bindr (check_review db f (g_target g) validation dup dup_of) (\<lambda>_.
         bindr (finding_document env f) (\<lambda>stored.
         let d = transition_dict stored (g_target g) version validation dup dup_of changed_at;
             p = (\<lambda>r. f_id r = finding_id \<and> f_version r = g_version g \<and> f_state r = f_state f) in
         bindr (finding_valid env (JObj d)) (\<lambda>_.
         bindr (store_version env d reason (g_actor g) changed_at db) (\<lambda>db.
         guardr (row_count p (findings db) \<noteq> 1) (finding_error ''FINDING_FENCED'')
        (bindr (finding_audit env d ''finding.transitioned'' (g_actor g) changed_at
            (db\<lparr>findings := update_rows p
               (transition_row env d (g_target g) version validation dup dup_of changed_at) (findings db)\<rparr>)) (\<lambda>db.
         Inr (db, JObj d))))))))))))"

definition get_finding :: "policy_env \<Rightarrow> string \<Rightarrow> 'a findings_db_scheme \<Rightarrow> json result" where
  "get_finding env finding_id db =
     (case find_finding db finding_id of None \<Rightarrow> Inl (finding_error ''FINDING_NOT_FOUND'')
      | Some f \<Rightarrow> bindr (finding_document env f) (\<lambda>d. bindr (finding_valid env (JObj d)) (\<lambda>_. Inr (JObj d))))"

definition list_findings :: "policy_env \<Rightarrow> string \<Rightarrow> 'a findings_db_scheme \<Rightarrow> json list result" where
  "list_findings env workflow_id db =
     (let rows = sort_key f_created (sort_key f_id (filter (\<lambda>f. f_workflow f = workflow_id) (findings db))) in
      bindr (traverse (\<lambda>f. mapr JObj (finding_document env f)) rows) (\<lambda>documents.
      bindr (traverse (finding_valid env) documents) (\<lambda>_. Inr documents)))"

definition history_entry :: "policy_env \<Rightarrow> version_row \<Rightarrow> json result" where
  "history_entry env v =
     bindr (stored_document env (v_document v) (v_hash v)) (\<lambda>d.
     bindr (finding_valid env (JObj d)) (\<lambda>_.
     Inr (JObj [(''version'', JInt (v_version v)), (''document'', JObj d), (''transition_reason'', JStr (v_reason v)),
                (''author_type'', JStr (v_author_type v)), (''author_id'', JStr (v_author v)),
                (''created_at'', JStr (v_created v))])))"

definition finding_history :: "policy_env \<Rightarrow> string \<Rightarrow> 'a findings_db_scheme \<Rightarrow> json list result" where
  "finding_history env finding_id db =
     (let rows = sort_key v_version (versions_of db finding_id) in
      guardr (rows = []) (finding_error ''FINDING_NOT_FOUND'') (traverse (history_entry env) rows))"

section \<open>What a successful operation did\<close>

lemma store_versionE:
  assumes "store_version env d reason actor at_time db = Inr db'"
  obtains fid version v where "map_of d ''finding_id'' = Some (JStr fid)" and "map_of d ''version'' = Some (JInt version)"
    and "v_finding v = fid" and "v_version v = version" and "v_document v = Some (JObj d)"
    and "v_hash v = content_hash env (JObj d)" and "v_hash v \<notin> v_hash ` set (finding_versions db)" and "length (v_hash v) = 64"
    and "v_author v = actor" and "v_author_type v = ''human''"
    and "db' = (draw db)\<lparr>finding_versions := finding_versions db @ [v]\<rparr>"
proof -
  obtain x y where xy: "index (JObj d) ''finding_id'' = Inr x" "index (JObj d) ''version'' = Inr y"
      "(case (x, y) of (JStr fid, JInt version) \<Rightarrow>
         version_insert \<lparr>v_id = new_uuid db, v_finding = fid, v_version = version, v_document = Some (JObj d),
           v_hash = content_hash env (JObj d), v_reason = reason, v_author_type = ''human'', v_author = actor,
           v_created = at_time\<rparr> (draw db)
       | _ \<Rightarrow> Inl TypeError) = Inr db'"
    using assms unfolding store_version_def by (elim bindrE)
  obtain fid version where s: "x = JStr fid" "y = JInt version"
    using xy(3) by (cases x; cases y) auto
  let ?v = "\<lparr>v_id = new_uuid db, v_finding = fid, v_version = version, v_document = Some (JObj d),
           v_hash = content_hash env (JObj d), v_reason = reason, v_author_type = ''human'', v_author = actor,
           v_created = at_time\<rparr>"
  have "version_insert ?v (draw db) = Inr db'" using xy(3) s by simp
  then have "db' = (draw db)\<lparr>finding_versions := finding_versions db @ [?v]\<rparr>"
      "v_hash ?v \<notin> v_hash ` set (finding_versions db)" "length (v_hash ?v) = 64"
    by (auto simp: version_insert_def guardr_eq_Inr draw_def list_ex_iff)
  then show thesis
    using xy(1,2) s by (intro that [of fid version ?v]) (auto split: option.splits)
qed

lemma finding_auditE:
  assumes "finding_audit env d action actor at_time db = Inr db'"
  obtains e where "db' = (draw db)\<lparr>audit := audit db @ [e]\<rparr>" and "extends_log env db db'"
proof -
  obtain a x where x: "append_audit_event env a db = Inr x" "db' = fst x"
    using assms unfolding finding_audit_def by (elim bindrE maprE)
  then have "append_audit_event env a db = Inr (db', snd x)" by simp
  with that show thesis by (metis append_audit_eventE append_audit_event_extends)
qed

lemma finding_insertE:
  assumes "finding_insert f db = Inr db'"
  obtains "db' = db\<lparr>findings := findings db @ [f]\<rparr>" and "finding_checks f" and "f_id f \<notin> f_id ` set (findings db)"
    and "(f_workflow f, f_key f) \<notin> (\<lambda>f. (f_workflow f, f_key f)) ` set (findings db)"
proof (rule that)
  have h: "\<not> list_ex (\<lambda>g. f_id g = f_id f \<or> f_hash g = f_hash f \<or>
      (f_workflow g = f_workflow f \<and> f_key g = f_key f)) (findings db)" "finding_checks f"
      "db' = db\<lparr>findings := findings db @ [f]\<rparr>"
    using assms by (simp_all add: finding_insert_def guardr_eq_Inr)
  from h(1) show "f_id f \<notin> f_id ` set (findings db)"
    "(f_workflow f, f_key f) \<notin> (\<lambda>f. (f_workflow f, f_key f)) ` set (findings db)"
    by (auto simp: list_ex_iff)
  from h show "db' = db\<lparr>findings := findings db @ [f]\<rparr>" "finding_checks f" by simp_all
qed

lemma new_finding_fields [simp]:
  "f_workflow (new_finding env ident w key k actor at_time) = w_id w"
  "f_state (new_finding env ident w key k actor at_time) = ''candidate''"
  "f_version (new_finding env ident w key k actor at_time) = 1"
  "f_assets (new_finding env ident w key k actor at_time) = JList (map JStr (k_assets k))"
  "f_evidence (new_finding env ident w key k actor at_time) = JList (map JStr (k_evidence k))"
  "f_severity (new_finding env ident w key k actor at_time) = k_severity k"
  by (simp_all add: new_finding_def Let_def)

text \<open>The version row of a document.\<close>

definition version_of :: "policy_env \<Rightarrow> version_row \<Rightarrow> finding_row \<Rightarrow> dict \<Rightarrow> bool" where
  "version_of env v f d \<longleftrightarrow>
     v_finding v = f_id f \<and> v_version v = f_version f \<and> v_document v = Some (JObj d) \<and>
     f_document f = Some (JObj d) \<and> v_hash v = content_hash env (JObj d) \<and> f_hash f = content_hash env (JObj d) \<and>
     v_author_type v = ''human'' \<and> finding_valid env (JObj d) = Inr () \<and>
     map_of d ''finding_id'' = Some (JStr (f_id f)) \<and> map_of d ''version'' = Some (JInt (f_version f)) \<and>
     map_of d ''state'' = Some (JStr (f_state f)) \<and> map_of d ''validation_status'' = Some (JStr (f_validation f)) \<and>
     map_of d ''duplicate_status'' = Some (JStr (f_duplicate f))"

lemma draw_findings [simp]:
  "findings (draw db) = findings db" "finding_versions (draw db) = finding_versions db" "audit (draw db) = audit db"
  by (simp_all add: draw_def)

lemma create_findingE:
  assumes "create_finding env pow wid n now db = Inr (db', doc)"
  obtains (replay) existing where "db' = db" and "find (\<lambda>f. f_workflow f = wid \<and> f_key f = n_key n) (findings db) = Some existing"
  | (fresh) f v d w k policy where "findings db' = findings db @ [f]" and "finding_versions db' = finding_versions db @ [v]"
      and "version_of env v f d" and "doc = JObj d" and "finding_checks f" and "f_id f \<notin> f_id ` set (findings db)"
      and "(f_workflow f, f_key f) \<notin> (\<lambda>f. (f_workflow f, f_key f)) ` set (findings db)"
      and "v_hash v \<notin> v_hash ` set (finding_versions db)" and "f_state f = ''candidate''" and "f_version f = 1"
      and "extends_log env db db'"
      and "f_workflow f = wid" and "finding_workflow db wid = Inr w" and "finding_policy db (w_policy w) = Inr policy"
      and "content_of pow n = Inr k" and "asset_links policy (k_assets k) = Inr ()"
      and "finding_evidence_links db wid (w_policy w) (k_evidence k) = Inr ()"
      and "f_assets f = JList (map JStr (k_assets k))" and "f_evidence f = JList (map JStr (k_evidence k))"
      and "f_severity f = k_severity k"
proof (cases "find (\<lambda>f. f_workflow f = wid \<and> f_key f = n_key n) (findings db)")
  case (Some existing)
  with assms show thesis unfolding create_finding_def
    by (elim bindrE) (auto elim!: maprE intro: replay)
next
  case None
  obtain at_time k w policy u1 u2 u3 db1 db2 db3 where h: "content_of pow n = Inr k" "finding_workflow db wid = Inr w"
      "finding_policy db (w_policy w) = Inr policy" "asset_links policy (k_assets k) = Inr u1"
      "finding_evidence_links db wid (w_policy w) (k_evidence k) = Inr u2"
      "finding_valid env (JObj (finding_doc env (new_uuid db) w k (n_actor n) at_time)) = Inr u3"
      "finding_insert (new_finding env (new_uuid db) w (n_key n) k (n_actor n) at_time) (draw db) = Inr db1"
      "store_version env (finding_doc env (new_uuid db) w k (n_actor n) at_time) ''candidate created'' (n_actor n) at_time db1 = Inr db2"
      "finding_audit env (finding_doc env (new_uuid db) w k (n_actor n) at_time) ''finding.created'' (n_actor n) at_time db2 = Inr db3"
      "Inr (db3, JObj (finding_doc env (new_uuid db) w k (n_actor n) at_time)) = (Inr (db', doc) :: _ result)"
    using assms unfolding create_finding_def Let_def None option.case by (elim bindrE) blast
  let ?f = "new_finding env (new_uuid db) w (n_key n) k (n_actor n) at_time"
  let ?d = "finding_doc env (new_uuid db) w k (n_actor n) at_time"
  have w: "w_id w = wid" using h(2) by (auto simp: finding_workflow_def guardr_eq_Inr find_workflow_def split: option.splits dest!: find_SomeD)
  note fd = new_finding_def finding_doc_def content_dict_def Let_def
  obtain i: "db1 = (draw db)\<lparr>findings := findings db @ [?f]\<rparr>" "finding_checks ?f" "f_id ?f \<notin> f_id ` set (findings db)"
      "(f_workflow ?f, f_key ?f) \<notin> (\<lambda>f. (f_workflow f, f_key f)) ` set (findings db)"
    using h(7) by (rule finding_insertE) simp
  obtain fid version v where v: "map_of ?d ''finding_id'' = Some (JStr fid)" "map_of ?d ''version'' = Some (JInt version)"
      "v_finding v = fid" "v_version v = version" "v_document v = Some (JObj ?d)" "v_hash v = content_hash env (JObj ?d)"
      "v_hash v \<notin> v_hash ` set (finding_versions db1)" "v_author_type v = ''human''"
      "db2 = (draw db1)\<lparr>finding_versions := finding_versions db1 @ [v]\<rparr>"
    using h(8) by (rule store_versionE) blast
  obtain e where e: "db3 = (draw db2)\<lparr>audit := audit db2 @ [e]\<rparr>" "extends_log env db2 db3"
    using h(9) by (rule finding_auditE)
  have x: "extends_log env db db3" using e(2) by (rule extends_log_same [rotated 2]) (simp_all add: v(9) i(1))
  have vf: "version_of env v ?f ?d"
    using v(1-6,8) h(6) by (auto simp: version_of_def fd)
  have r: "db' = db3" "doc = JObj ?d" using h(10) by simp_all
  have t: "findings db' = findings db @ [?f]" "finding_versions db' = finding_versions db @ [v]"
    by (simp_all add: r(1) e(1) v(9) i(1))
  show thesis
    by (rule fresh [of ?f v ?d w policy k])
      (use t vf r(2) i(2-4) v(7) x r(1) w h(1-5) in \<open>simp_all add: i(1)\<close>)
qed


lemma dict_update_lookup: "distinct (map fst changes) \<Longrightarrow>
  map_of (dict_update d changes) k = (case map_of changes k of None \<Rightarrow> map_of d k | Some v \<Rightarrow> Some v)"
proof (induction changes arbitrary: d)
  case (Cons c changes)
  obtain k' v where c: "c = (k', v)" by (cases c)
  have "map_of changes k' = None" using Cons.prems c by (simp add: map_of_eq_None_iff image_def)
  with Cons.IH [of "dict_put d k' v"] Cons.prems c show ?case
    by (auto simp: dict_update_def split: option.splits)
qed (simp add: dict_update_def)

text \<open>The review that a transition requires of the state it enters.\<close>

definition reviewed :: "string \<Rightarrow> string \<Rightarrow> string \<Rightarrow> bool" where
  "reviewed state validation dup \<longleftrightarrow>
     (state \<in> {''validated'', ''report_ready'', ''closed''} \<longrightarrow> validation = ''confirmed'' \<and> dup = ''clear'') \<and>
     (state = ''rejected'' \<longrightarrow> dup = ''duplicate'' \<or> validation \<in> {''not_reproduced'', ''false_positive''}) \<and>
     (state = ''duplicate_reviewed'' \<longrightarrow> dup \<noteq> ''pending'')"

lemma check_reviewE:
  assumes "check_review db f target validation dup dup_of = Inr u"
  obtains "reviewed target validation dup" and "validation \<in> set validation_statuses" and "dup \<in> set duplicate_statuses"
    and "if dup = ''duplicate'' then dup_of \<noteq> None \<and> dup_of \<noteq> Some (f_id f) else dup_of = None"
proof -
  have h: "\<not> (validation \<notin> set validation_statuses \<or> dup \<notin> set duplicate_statuses)"
      "(if dup = ''duplicate'' then duplicate_target db f dup_of
            else guardr (dup_of \<noteq> None) (finding_error ''FINDING_DUPLICATE_INVALID'') (Inr ())) = Inr ()"
      "\<not> (target = ''duplicate_reviewed'' \<and> dup = ''pending'')"
      "\<not> (target \<in> set [''validated'', ''report_ready'', ''closed''] \<and> (dup \<noteq> ''clear'' \<or> validation \<noteq> ''confirmed''))"
      "\<not> (target = ''rejected'' \<and> dup \<noteq> ''duplicate'' \<and> validation \<notin> set [''not_reproduced'', ''false_positive''])"
    using assms unfolding check_review_def by (simp_all add: bindr_eq_Inr guardr_eq_Inr)
  have "if dup = ''duplicate'' then dup_of \<noteq> None \<and> dup_of \<noteq> Some (f_id f) else dup_of = None"
    using h(2) by (auto simp: duplicate_target_def guardr_eq_Inr split: if_splits option.splits)
  moreover have "reviewed target validation dup"
    using h(3-5) unfolding reviewed_def by (intro conjI impI) auto
  ultimately show thesis using h(1) that by blast
qed

lemma transition_findingE:
  assumes "transition_finding env fid g now db = Inr (db', doc)"
  obtains f stored validation dup dup_of at_time d v where "find_finding db fid = Some f" and "f_version f = g_version g"
    and "g_target g \<in> set (finding_targets (f_state f))" and "finding_document env f = Inr stored"
    and "check_review db f (g_target g) validation dup dup_of = Inr ()"
    and "d = transition_dict stored (g_target g) (g_version g + 1) validation dup dup_of at_time"
    and "finding_valid env (JObj d) = Inr ()" and "doc = JObj d"
    and "map_of d ''finding_id'' = Some (JStr (v_finding v))" and "v_version v = g_version g + 1"
    and "v_document v = Some (JObj d)" and "v_hash v = content_hash env (JObj d)"
    and "v_hash v \<notin> v_hash ` set (finding_versions db)" and "length (v_hash v) = 64" and "v_author_type v = ''human''"
    and "findings db' = update_rows (\<lambda>r. f_id r = fid \<and> f_version r = g_version g \<and> f_state r = f_state f)
           (transition_row env d (g_target g) (g_version g + 1) validation dup dup_of at_time) (findings db)"
    and "finding_versions db' = finding_versions db @ [v]" and "extends_log env db db'"
proof -
  obtain f at_time where f: "find_finding db fid = Some f" "finding_timestamp now = Inr at_time"
    using assms unfolding transition_finding_def Let_def by (elim bindrE guardrE) (auto split: option.splits)
  define validation where "validation = (case g_validation g of Some v \<Rightarrow> v | None \<Rightarrow> f_validation f)"
  define dup where "dup = (case g_duplicate g of Some s \<Rightarrow> s | None \<Rightarrow> f_duplicate f)"
  define dup_of where "dup_of = (if g_duplicate g \<noteq> None then g_duplicate_of g else f_duplicate_of f)"
  let ?p = "\<lambda>r. f_id r = fid \<and> f_version r = g_version g \<and> f_state r = f_state f"
  let ?d = "\<lambda>stored. transition_dict stored (g_target g) (g_version g + 1) validation dup dup_of at_time"
  obtain stored u1 u2 db1 db2 where h: "\<not> f_version f \<noteq> g_version g" "\<not> g_target g \<notin> set (finding_targets (f_state f))"
      "check_review db f (g_target g) validation dup dup_of = Inr u1" "finding_document env f = Inr stored"
      "finding_valid env (JObj (?d stored)) = Inr u2"
      "store_version env (?d stored) (strip (g_reason g)) (g_actor g) at_time db = Inr db1"
      "finding_audit env (?d stored) ''finding.transitioned'' (g_actor g) at_time
         (db1\<lparr>findings := update_rows ?p
            (transition_row env (?d stored) (g_target g) (g_version g + 1) validation dup dup_of at_time) (findings db1)\<rparr>) = Inr db2"
      "Inr (db2, JObj (?d stored)) = (Inr (db', doc) :: _ result)"
    using assms unfolding transition_finding_def Let_def f option.case bindr_Inr validation_def [symmetric] dup_def [symmetric] dup_of_def [symmetric]
    by (elim bindrE guardrE) blast
  obtain x y v where v: "map_of (?d stored) ''finding_id'' = Some (JStr x)" "map_of (?d stored) ''version'' = Some (JInt y)"
      "v_finding v = x" "v_version v = y" "v_document v = Some (JObj (?d stored))" "v_hash v = content_hash env (JObj (?d stored))"
      "v_hash v \<notin> v_hash ` set (finding_versions db)" "length (v_hash v) = 64" "v_author_type v = ''human''"
      "db1 = (draw db)\<lparr>finding_versions := finding_versions db @ [v]\<rparr>"
    using h(6) by (rule store_versionE) blast
  have y: "y = g_version g + 1" using v(2) by (simp add: transition_dict_def dict_update_lookup)
  show thesis
    using h(7)
  proof (rule finding_auditE)
    fix e
    let ?db = "db1\<lparr>findings := update_rows ?p
            (transition_row env (?d stored) (g_target g) (g_version g + 1) validation dup dup_of at_time) (findings db1)\<rparr>"
    assume e: "db2 = (draw ?db)\<lparr>audit := audit ?db @ [e]\<rparr>" "extends_log env ?db db2"
    have r: "db' = db2" "doc = JObj (?d stored)" using h(8) by simp_all
    have x: "extends_log env db db2" using e(2) by (rule extends_log_same [rotated 2]) (simp_all add: v(10))
    have t: "findings db2 = update_rows ?p
        (transition_row env (?d stored) (g_target g) (g_version g + 1) validation dup dup_of at_time) (findings db)"
        "finding_versions db2 = finding_versions db @ [v]"
      using e(1) v(10) by simp_all
    show thesis
      by (rule that [of f stored validation dup dup_of "?d stored" at_time v])
        (use f h(1-5) v r x t y in simp_all)
  qed
qed

section \<open>Invariant\<close>

definition v_state :: "version_row \<Rightarrow> json" where
  "v_state v = (case v_document v of None \<Rightarrow> JNull | Some doc \<Rightarrow> rule_get doc ''state'')"

definition state_follows :: "version_row \<Rightarrow> version_row \<Rightarrow> bool" where
  "state_follows u v \<longleftrightarrow> (\<exists>s t. v_state u = JStr s \<and> v_state v = JStr t \<and> t \<in> set (finding_targets s))"

definition version_ok :: "policy_env \<Rightarrow> version_row \<Rightarrow> bool" where
  "version_ok env v \<longleftrightarrow>
     (\<exists>d. v_document v = Some (JObj d) \<and> v_hash v = content_hash env (JObj d) \<and> finding_valid env (JObj d) = Inr ())"

text \<open>
  The versions of a finding: numbered from 1 to the version of the finding, from a candidate by
  permitted transitions, the last one holding the current document.
\<close>

definition version_chain :: "policy_env \<Rightarrow> version_row list \<Rightarrow> finding_row \<Rightarrow> bool" where
  "version_chain env versions f \<longleftrightarrow>
     (let vs = filter (\<lambda>v. v_finding v = f_id f) versions in
      map v_version vs = map int [1..<Suc (nat (f_version f))] \<and> vs \<noteq> [] \<and>
      v_state (hd vs) = JStr ''candidate'' \<and> successively state_follows vs \<and> list_all (version_ok env) vs \<and>
      (\<exists>d. version_of env (last vs) f d))"

definition finding_row_ok :: "finding_row \<Rightarrow> bool" where
  "finding_row_ok f \<longleftrightarrow> finding_checks f \<and> reviewed (f_state f) (f_validation f) (f_duplicate f)"

definition findings_inv :: "policy_env \<Rightarrow> 'a findings_db_scheme \<Rightarrow> bool" where
  "findings_inv env db \<longleftrightarrow>
     distinct (map f_id (findings db)) \<and> distinct (map (\<lambda>f. (f_workflow f, f_key f)) (findings db)) \<and>
     distinct (map f_hash (findings db)) \<and> distinct (map v_hash (finding_versions db)) \<and>
     list_all finding_row_ok (findings db) \<and> list_all (version_chain env (finding_versions db)) (findings db) \<and>
     v_finding ` set (finding_versions db) \<subseteq> f_id ` set (findings db)"

text \<open>
  The triggers of the schema: what an update may do to a row. The version row that the guard looks
  for is part of the invariant of the two tables below.
\<close>

definition finding_transition :: "string \<Rightarrow> string \<Rightarrow> bool" where
  "finding_transition old new \<longleftrightarrow>
     old = ''candidate'' \<and> new \<in> set [''scope_reviewed'', ''rejected''] \<or>
     old = ''scope_reviewed'' \<and> new \<in> set [''duplicate_reviewed'', ''rejected''] \<or>
     old = ''duplicate_reviewed'' \<and> new \<in> set [''validated'', ''rejected''] \<or>
     old = ''validated'' \<and> new \<in> set [''report_ready'', ''duplicate_reviewed''] \<or>
     old = ''report_ready'' \<and> new \<in> set [''closed'', ''validated'']"

definition finding_next :: "finding_row \<Rightarrow> finding_row \<Rightarrow> bool" where
  "finding_next f f' \<longleftrightarrow>
     f_version f' = f_version f + 1 \<and> finding_transition (f_state f) (f_state f') \<and> finding_checks f' \<and>
     f_id f' = f_id f \<and> f_workflow f' = f_workflow f \<and> f_engagement f' = f_engagement f \<and> f_policy f' = f_policy f \<and>
     f_key f' = f_key f \<and> f_created_by f' = f_created_by f \<and> f_created f' = f_created f \<and>
     f_fingerprint f' = f_fingerprint f"

text \<open>The table of the service has no transition that the schema forbids.\<close>

lemma finding_targets_transition: "t \<in> set (finding_targets s) \<Longrightarrow> finding_transition s t"
  unfolding finding_targets_def finding_transition_def by (auto split: if_splits)

definition finding_final :: "finding_row \<Rightarrow> bool" where
  "finding_final f \<longleftrightarrow> f_state f \<in> {''closed'', ''rejected''}"

interpretation finding_rows: versioned_table f_id finding_next finding_final f_version
  by unfold_locales (auto simp: finding_next_def finding_final_def finding_transition_def)

lemma version_of_state: "version_of env v f d \<Longrightarrow> v_state v = JStr (f_state f)"
  by (simp add: version_of_def v_state_def rule_get_def dict_get_def)

lemma version_of_ok: "version_of env v f d \<Longrightarrow> version_ok env v"
  by (simp add: version_of_def version_ok_def)

lemma version_chain_other:
  "v_finding v \<noteq> f_id f \<Longrightarrow> version_chain env (vs @ [v]) f \<longleftrightarrow> version_chain env vs f"
  by (simp add: version_chain_def)

lemma version_chain_new:
  assumes "f_id f \<notin> v_finding ` set vs" and v: "version_of env v f d" and "f_state f = ''candidate''" and "f_version f = 1"
  shows "version_chain env (vs @ [v]) f"
proof -
  have e: "filter (\<lambda>v. v_finding v = f_id f) vs = []" using assms(1) by (force simp: filter_empty_conv)
  have "v_finding v = f_id f" "v_version v = 1" using v assms(4) by (simp_all add: version_of_def)
  with e assms version_of_state [OF v] version_of_ok [OF v] show ?thesis
    by (auto simp: version_chain_def)
qed

lemma version_chain_step:
  assumes "version_chain env vs f" and v: "version_of env v f' d" and "f_id f' = f_id f" and "f_version f' = f_version f + 1"
    and "1 \<le> f_version f" and "f_state f' \<in> set (finding_targets (f_state f))"
  shows "version_chain env (vs @ [v]) f'"
proof -
  let ?vs = "filter (\<lambda>v. v_finding v = f_id f) vs"
  obtain d' where c: "map v_version ?vs = map int [1..<Suc (nat (f_version f))]" "?vs \<noteq> []"
      "v_state (hd ?vs) = JStr ''candidate''" "successively state_follows ?vs" "list_all (version_ok env) ?vs"
      "version_of env (last ?vs) f d'"
    using assms(1) unfolding version_chain_def Let_def by blast
  have vf: "v_finding v = f_id f" "v_version v = f_version f + 1" using v assms(3,4) by (simp_all add: version_of_def)
  have "state_follows (last ?vs) v"
    using version_of_state [OF c(6)] version_of_state [OF v] assms(6) by (simp add: state_follows_def)
  with c(2,4) have "successively state_follows (?vs @ [v])" by (simp add: successively_append_iff)
  moreover have "map v_version (?vs @ [v]) = map int [1..<Suc (nat (f_version f'))]"
    using c(1) vf(2) assms(4,5) by (simp add: nat_add_distrib)
  ultimately show ?thesis
    using c v version_of_ok [OF v] vf(1) assms(3) by (auto simp: version_chain_def)
qed

lemma update_rows_distinct:
  assumes "distinct (map h rows)" and "\<And>r. r \<in> set rows \<Longrightarrow> p r \<Longrightarrow> r = f" and "h (g f) \<notin> h ` set rows"
  shows "distinct (map h (update_rows p g rows))"
  using assms
proof (induction rows)
  case (Cons r rows)
  have "h (if p r then g r else r) \<notin> h ` set (update_rows p g rows)"
    using Cons.prems by (auto simp: in_update_rows split: if_splits) (metis image_eqI)+
  moreover have "update_rows p g (r # rows) = (if p r then g r else r) # update_rows p g rows"
    by (simp add: update_rows_def)
  ultimately show ?case using Cons by simp
qed (simp add: update_rows_def)

section \<open>Histories\<close>

text \<open>A step of the service, or a step of another service, which leaves the two tables alone.\<close>

inductive findings_step ::
  "policy_env \<Rightarrow> (rat \<Rightarrow> nat \<Rightarrow> rat) \<Rightarrow> 'a findings_db_scheme \<Rightarrow> 'a findings_db_scheme \<Rightarrow> bool" for env pow where
  created: "create_finding env pow wid n now db = Inr (db', doc) \<Longrightarrow> findings_step env pow db db'"
| transitioned: "transition_finding env fid g now db = Inr (db', doc) \<Longrightarrow> findings_step env pow db db'"
| other: "findings db' = findings db \<Longrightarrow> finding_versions db' = finding_versions db \<Longrightarrow> extends_log env db db' \<Longrightarrow>
    findings_step env pow db db'"

definition findings_conform :: "policy_env \<Rightarrow> 'a findings_db_scheme \<Rightarrow> 'a findings_db_scheme \<Rightarrow> bool" where
  "findings_conform env db db' \<longleftrightarrow>
     findings_inv env db' \<and> table_evolves finding_next (findings db) (findings db') \<and>
     prefix (finding_versions db) (finding_versions db')"

lemma find_findingD: "find_finding db fid = Some f \<Longrightarrow> f \<in> set (findings db) \<and> f_id f = fid"
  unfolding find_finding_def by (auto dest: find_SomeD)

lemma version_chain_last:
  assumes "version_chain env versions f"
  obtains v d where "v \<in> set versions" and "version_of env v f d"
  using assms unfolding version_chain_def Let_def by (metis (no_types, lifting) filter_is_subset last_in_set subsetD)

lemma finding_inv_row:
  assumes "findings_inv env db" and "f \<in> set (findings db)"
  shows "finding_row_ok f" and "version_chain env (finding_versions db) f"
  using assms by (simp_all add: findings_inv_def list_all_iff)

lemma hash_in_versions:
  assumes "findings_inv env db" and "f \<in> set (findings db)"
  shows "f_hash f \<in> v_hash ` set (finding_versions db)"
proof -
  obtain v d where "v \<in> set (finding_versions db)" "version_of env v f d"
    using finding_inv_row(2) [OF assms] by (rule version_chain_last)
  then have "v \<in> set (finding_versions db)" "f_hash f = v_hash v" by (simp_all add: version_of_def)
  then show ?thesis by blast
qed

lemma created_conforms:
  assumes "create_finding env pow wid n now db = Inr (db', doc)" and inv: "findings_inv env db"
  shows "findings_conform env db db'"
  using assms(1)
proof (cases rule: create_findingE)
  case replay
  with inv show ?thesis by (simp add: findings_conform_def)
next
  case (fresh f v d w k policy)
  have vf: "v_finding v = f_id f" "v_hash v = f_hash f" using fresh(3) by (simp_all add: version_of_def)
  have new: "f_id f \<notin> v_finding ` set (finding_versions db)" using inv fresh(6) by (auto simp: findings_inv_def)
  have hashes: "f_hash ` set (findings db) \<subseteq> v_hash ` set (finding_versions db)"
    using hash_in_versions [OF inv] by blast
  have "version_chain env (finding_versions db @ [v]) f" using new fresh(3,9,10) by (rule version_chain_new)
  moreover have "version_chain env (finding_versions db @ [v]) g" if "g \<in> set (findings db)" for g
    using inv that fresh(6) vf(1) version_chain_other [of v g env "finding_versions db"]
    by (auto simp: findings_inv_def list_all_iff)
  moreover have "finding_row_ok f" using fresh(5,9) by (simp add: finding_row_ok_def reviewed_def)
  ultimately show ?thesis
    using inv fresh(1,2,6,7,8) vf hashes
    by (auto simp: findings_conform_def findings_inv_def list_all_iff intro!: table_step_evolves)
qed

lemma finding_targets_states: "t \<in> set (finding_targets s) \<Longrightarrow> t \<in> set finding_states"
  by (auto simp: finding_targets_def finding_states_def split: if_splits)

text \<open>The row that a transition writes, and its version.\<close>

lemma transition_row_next:
  assumes "check_review db f target validation dup dup_of = Inr u" and "finding_checks f"
    and "target \<in> set (finding_targets (f_state f))" and "length (content_hash env (JObj d)) = 64"
    and "f' = transition_row env d target (f_version f + 1) validation dup dup_of at_time f"
  shows "finding_next f f'" and "finding_row_ok f'"
proof -
  obtain r: "reviewed target validation dup" "validation \<in> set validation_statuses" "dup \<in> set duplicate_statuses"
      "if dup = ''duplicate'' then dup_of \<noteq> None \<and> dup_of \<noteq> Some (f_id f) else dup_of = None"
    using assms(1) by (rule check_reviewE)
  have "finding_checks f'"
    using assms(2,4,5) r(2-4) finding_targets_states [OF assms(3)] by (simp add: finding_checks_def transition_row_def)
  with finding_targets_transition [OF assms(3)] assms(5) r(1) show "finding_next f f'" "finding_row_ok f'"
    by (simp_all add: finding_next_def finding_row_ok_def transition_row_def)
qed

lemma transition_version:
  assumes "version_of env u f stored" and "d = transition_dict stored target (f_version f + 1) validation dup dup_of at_time"
    and "f' = transition_row env d target (f_version f + 1) validation dup dup_of at_time f"
    and "finding_valid env (JObj d) = Inr ()" and "map_of d ''finding_id'' = Some (JStr (v_finding v))"
    and "v_version v = f_version f + 1" and "v_document v = Some (JObj d)" and "v_hash v = content_hash env (JObj d)"
    and "v_author_type v = ''human''"
  shows "version_of env v f' d"
proof -
  have "map_of d ''finding_id'' = map_of stored ''finding_id''"
    by (simp add: assms(2) transition_dict_def dict_update_lookup)
  then have "v_finding v = f_id f" using assms(1,5) by (simp add: version_of_def)
  moreover have "map_of d ''version'' = Some (JInt (f_version f + 1))" "map_of d ''state'' = Some (JStr target)"
      "map_of d ''validation_status'' = Some (JStr validation)" "map_of d ''duplicate_status'' = Some (JStr dup)"
    by (simp_all add: assms(2) transition_dict_def dict_update_lookup)
  ultimately show ?thesis
    using assms(4-9) by (simp add: version_of_def assms(3) transition_row_def)
qed

lemma transitioned_conforms:
  assumes "transition_finding env fid g now db = Inr (db', doc)" and inv: "findings_inv env db"
  shows "findings_conform env db db'"
  using assms(1)
proof (rule transition_findingE)
  fix f :: finding_row and stored validation dup dup_of at_time d and v :: version_row
  let ?p = "\<lambda>r. f_id r = fid \<and> f_version r = g_version g \<and> f_state r = f_state f"
  let ?t = "transition_row env d (g_target g) (g_version g + 1) validation dup dup_of at_time"
  assume h: "find_finding db fid = Some f" "f_version f = g_version g"
    "g_target g \<in> set (finding_targets (f_state f))" "finding_document env f = Inr stored"
    "check_review db f (g_target g) validation dup dup_of = Inr ()"
    "d = transition_dict stored (g_target g) (g_version g + 1) validation dup dup_of at_time"
    "finding_valid env (JObj d) = Inr ()"
    "map_of d ''finding_id'' = Some (JStr (v_finding v))" "v_version v = g_version g + 1"
    "v_document v = Some (JObj d)" "v_hash v = content_hash env (JObj d)"
    "v_hash v \<notin> v_hash ` set (finding_versions db)" "length (v_hash v) = 64" "v_author_type v = ''human''"
    "findings db' = update_rows ?p ?t (findings db)"
    "finding_versions db' = finding_versions db @ [v]"
  have f: "f \<in> set (findings db)" "f_id f = fid" using find_findingD [OF h(1)] by simp_all
  have only: "r = f" if "r \<in> set (findings db)" "?p r" for r
    using inv that f by (auto simp: findings_inv_def dest: distinct_keyD)
  note ok = finding_inv_row [OF inv f(1)]
  obtain u d0 where u: "version_of env u f d0" using ok(2) by (rule version_chain_last)
  have "f_document f = Some (JObj stored)"
    using h(4) by (auto simp: finding_document_def stored_document_def guardr_eq_Inr split: option.splits json.splits)
  with u have vs: "version_of env u f stored" by (simp add: version_of_def)
  have v': "version_of env v (?t f) d"
    by (rule transition_version [OF vs _ _ h(7)]) (use h in simp_all)
  have n: "finding_next f (?t f)" "finding_row_ok (?t f)"
    by (rule transition_row_next [OF h(5) _ h(3)]; use ok(1) h in \<open>simp add: finding_row_ok_def\<close>)+
  have c: "version_chain env (finding_versions db @ [v]) (?t f)"
    by (rule version_chain_step [OF ok(2) v']) (use n(1) ok(1) h(3) in \<open>simp_all add: finding_next_def finding_row_ok_def finding_checks_def transition_row_def\<close>)
  have vid: "v_finding v = fid" using v' f(2) by (simp add: version_of_def transition_row_def)
  have rows: "finding_row_ok r \<and> version_chain env (finding_versions db') r" if r: "r \<in> set (findings db')" for r
  proof -
    obtain r0 where r0: "r0 \<in> set (findings db)" "r = (if ?p r0 then ?t r0 else r0)"
      using r unfolding h(15) in_update_rows by blast
    show ?thesis
    proof (cases "?p r0")
      case True
      with only [OF r0(1)] r0(2) n(2) c h(16) show ?thesis by simp
    next
      case False
      have "f_id r0 \<noteq> fid"
        using False inv r0(1) f h(2) by (auto simp: findings_inv_def dest: distinct_keyD)
      with False r0 finding_inv_row [OF inv r0(1)] vid h(16) show ?thesis by (simp add: version_chain_other)
    qed
  qed
  have "f_hash (?t f) \<notin> f_hash ` set (findings db)"
    using h(11,12) hash_in_versions [OF inv] by (auto simp: transition_row_def)
  then have dh: "distinct (map f_hash (findings db'))"
    unfolding h(15) using inv only by (intro update_rows_distinct [where f = f]) (auto simp: findings_inv_def)
  have keys: "map f_id (findings db') = map f_id (findings db)"
      "map (\<lambda>f. (f_workflow f, f_key f)) (findings db') = map (\<lambda>f. (f_workflow f, f_key f)) (findings db)"
    unfolding h(15) by (rule update_rows_key, simp add: transition_row_def)+
  have ids: "f_id ` set (findings db') = f_id ` set (findings db)"
    using keys(1) by (metis list.set_map)
  have "fid \<in> f_id ` set (findings db)" using f by blast
  with inv vid ids h(16) have vids: "v_finding ` set (finding_versions db') \<subseteq> f_id ` set (findings db')"
    by (simp add: findings_inv_def)
  have "findings_inv env db'"
    using inv keys dh rows h(12,16) vids unfolding findings_inv_def list_all_iff by simp
  moreover have "table_evolves finding_next (findings db) (findings db')"
    unfolding h(15) by (intro table_step_evolves table_step_update) (use only n(1) in blast)
  ultimately show ?thesis using h(16) by (simp add: findings_conform_def)
qed

lemma findings_step_conforms:
  assumes "findings_step env pow db db'" and "findings_inv env db"
  shows "findings_conform env db db'"
  using assms(1)
proof cases
  case created
  then show ?thesis using assms(2) by (rule created_conforms)
next
  case transitioned
  then show ?thesis using assms(2) by (rule transitioned_conforms)
next
  case other
  with assms(2) show ?thesis by (simp add: findings_conform_def findings_inv_def)
qed

lemma findings_history:
  assumes "(findings_step env pow)\<^sup>*\<^sup>* db db'" and "findings_inv env db"
  shows "findings_conform env db db'"
  using assms
proof (induction rule: rtranclp_induct)
  case base
  then show ?case by (simp add: findings_conform_def)
next
  case (step y z)
  have y: "findings_conform env db y" by (rule step.IH [OF step.prems])
  with findings_step_conforms [OF step.hyps(2)] have "findings_conform env y z" by (simp add: findings_conform_def)
  with y show ?case by (auto simp: findings_conform_def intro: table_evolves_trans prefix_order.order_trans)
qed

lemma findings_step_extends: "findings_step env pow db db' \<Longrightarrow> extends_log env db db'"
proof (induction rule: findings_step.induct)
  case (created wid n now db db' doc)
  then show ?case by (cases rule: create_findingE) auto
next
  case (transitioned fid g now db db' doc)
  then show ?case by (rule transition_findingE) simp
qed

interpretation findings_audit: audited_service env "findings_step env pow" for env pow
  by unfold_locales (rule findings_step_extends)

section \<open>Results\<close>

lemma find_finding_row:
  assumes "findings_inv env db" and "f \<in> set (findings db)"
  shows "find_finding db (f_id f) = Some f"
  unfolding find_finding_def using assms by (intro find_key) (simp_all add: findings_inv_def)

lemma get_finding_inv:
  assumes "findings_inv env db" and "f \<in> set (findings db)"
  obtains v d where "get_finding env (f_id f) db = Inr (JObj d)" and "version_of env v f d"
proof -
  obtain v d where v: "version_of env v f d" using finding_inv_row(2) [OF assms] by (rule version_chain_last)
  then have "get_finding env (f_id f) db = Inr (JObj d)"
    using find_finding_row [OF assms]
    by (simp add: get_finding_def finding_document_def stored_document_def version_of_def)
  with v that show thesis by blast
qed

text \<open>
  C29. Nothing is reported without review: after every history of the service, a finding that is
  validated, ready for a report or closed has been confirmed and is not a duplicate; a rejected one is a
  duplicate, was not reproduced or is a false positive; past the duplicate review that review is no longer
  pending. Reading any finding succeeds and shows the state, the version and the review of its row, and
  the audit log stays chained.
\<close>

theorem findings_reviewed:
  assumes "(findings_step env pow)\<^sup>*\<^sup>* db db'" and "findings_inv env db" and "chained env (audit db)"
    and "f \<in> set (findings db')"
  shows "(f_state f \<in> {''validated'', ''report_ready'', ''closed''} \<longrightarrow> f_validation f = ''confirmed'' \<and> f_duplicate f = ''clear'') \<and>
     (f_state f = ''rejected'' \<longrightarrow> f_duplicate f = ''duplicate'' \<or> f_validation f \<in> {''not_reproduced'', ''false_positive''}) \<and>
     (f_state f = ''duplicate_reviewed'' \<longrightarrow> f_duplicate f \<noteq> ''pending'') \<and>
     (\<exists>d. get_finding env (f_id f) db' = Inr (JObj d) \<and> map_of d ''state'' = Some (JStr (f_state f)) \<and>
        map_of d ''version'' = Some (JInt (f_version f)) \<and> map_of d ''validation_status'' = Some (JStr (f_validation f)) \<and>
        map_of d ''duplicate_status'' = Some (JStr (f_duplicate f))) \<and> chained env (audit db')"
proof -
  have inv: "findings_inv env db'" using findings_history [OF assms(1,2)] by (simp add: findings_conform_def)
  obtain v d where d: "get_finding env (f_id f) db' = Inr (JObj d)" "version_of env v f d"
    using get_finding_inv [OF inv assms(4)] .
  have "reviewed (f_state f) (f_validation f) (f_duplicate f)"
    using finding_inv_row(1) [OF inv assms(4)] by (simp add: finding_row_ok_def)
  moreover have "\<exists>d. get_finding env (f_id f) db' = Inr (JObj d) \<and> map_of d ''state'' = Some (JStr (f_state f)) \<and>
        map_of d ''version'' = Some (JInt (f_version f)) \<and> map_of d ''validation_status'' = Some (JStr (f_validation f)) \<and>
        map_of d ''duplicate_status'' = Some (JStr (f_duplicate f))"
    using d by (auto simp: version_of_def)
  ultimately show ?thesis
    using findings_audit.history_chained [OF assms(1,3)] unfolding reviewed_def by blast
qed

text \<open>
  C31. Findings evolve as the schema permits: through every history, the row of a finding follows the
  permitted transitions one version at a time with its identity unchanged; two readings at the same
  version are the same row, closed and rejected findings stay as they are, and a transition that
  names any but the current version is refused.
\<close>

theorem findings_fenced:
  assumes "(findings_step env pow)\<^sup>*\<^sup>* db db'" and "findings_inv env db" and "find_finding db fid = Some f"
  shows "\<exists>f'. find_finding db' fid = Some f' \<and> finding_next\<^sup>*\<^sup>* f f' \<and> f_version f \<le> f_version f' \<and>
     (f_version f' = f_version f \<longrightarrow> f' = f) \<and> (finding_final f \<longrightarrow> f' = f) \<and>
     (\<forall>g now r. g_version g \<noteq> f_version f' \<longrightarrow> transition_finding env fid g now db' \<noteq> Inr r)"
proof -
  have c: "findings_inv env db'" "table_evolves finding_next (findings db) (findings db')"
    using findings_history [OF assms(1,2)] by (simp_all add: findings_conform_def)
  have f: "f \<in> set (findings db)" "f_id f = fid" using find_findingD [OF assms(3)] by simp_all
  obtain f' where f': "f' \<in> set (findings db')" "finding_next\<^sup>*\<^sup>* f f'"
    using table_evolves_row [OF c(2) f(1)] by blast
  have k: "f_id f' = fid" using finding_rows.row_key [OF f'(2)] f(2) by simp
  have found: "find_finding db' fid = Some f'" using find_finding_row [OF c(1) f'(1)] k by simp
  have "transition_finding env fid g now db' \<noteq> Inr r" if "g_version g \<noteq> f_version f'" for g now r
  proof
    assume "transition_finding env fid g now db' = Inr r"
    then have "transition_finding env fid g now db' = Inr (fst r, snd r)" by simp
    then show False by (rule transition_findingE) (use found that in simp)
  qed
  then show ?thesis
    using found f'(2) finding_rows.row_version_mono [OF f'(2)] finding_rows.same_version_same_row [OF f'(2)]
      finding_rows.closed_row_final [OF f'(2)] by blast
qed

text \<open>An entry of the history: its version, the state and the document it shows.\<close>

definition entry_of :: "version_row \<Rightarrow> json" where
  "entry_of v = JObj [(''version'', JInt (v_version v)),
     (''document'', case v_document v of Some doc \<Rightarrow> doc | None \<Rightarrow> JNull), (''transition_reason'', JStr (v_reason v)),
     (''author_type'', JStr (v_author_type v)), (''author_id'', JStr (v_author v)), (''created_at'', JStr (v_created v))]"

definition entry_state :: "json \<Rightarrow> json" where
  "entry_state e = rule_get (rule_get e ''document'') ''state''"

lemma entry_of_fields [simp]:
  "rule_get (entry_of v) ''version'' = JInt (v_version v)"
  "rule_get (entry_of v) ''document'' = (case v_document v of Some doc \<Rightarrow> doc | None \<Rightarrow> JNull)"
  by (simp_all add: entry_of_def rule_get_def dict_get_def)

lemma entry_state_of: "version_ok env v \<Longrightarrow> entry_state (entry_of v) = v_state v"
  by (auto simp: version_ok_def entry_state_def v_state_def)

lemma history_entry_ok: "version_ok env v \<Longrightarrow> history_entry env v = Inr (entry_of v)"
  by (auto simp: version_ok_def history_entry_def stored_document_def entry_of_def)

lemma traverse_map: "(\<And>x. x \<in> set xs \<Longrightarrow> f x = Inr (g x)) \<Longrightarrow> traverse f xs = Inr (map g xs)"
  by (induction xs) auto

lemma history_of_chain:
  assumes "version_chain env (finding_versions db) f"
  shows "finding_history env (f_id f) db = Inr (map entry_of (versions_of db (f_id f)))"
proof -
  let ?vs = "versions_of db (f_id f)"
  have c: "map v_version ?vs = map int [1..<Suc (nat (f_version f))]" "?vs \<noteq> []" "list_all (version_ok env) ?vs"
    using assms by (simp_all add: version_chain_def versions_of_def Let_def)
  have "sorted (map v_version ?vs)" unfolding c(1) by (simp add: sorted_map del: upt_Suc)
  then have "sort_key v_version ?vs = ?vs" by (simp add: sorted_sort_id sort_key_id_if_sorted)
  moreover have "traverse (history_entry env) ?vs = Inr (map entry_of ?vs)"
    using c(3) by (intro traverse_map history_entry_ok) (simp add: list_all_iff)
  ultimately show ?thesis using c(2) by (simp add: finding_history_def)
qed

text \<open>
  C30. The stored versions are the run of the review: after every history, asking for the history of a
  finding succeeds and returns one entry for each version from 1 to the current one; the first shows a
  candidate, each next one a state that the state machine permits after it, and the last one shows
  the document that reading the finding returns. Versions are never changed or removed.
\<close>

theorem finding_history_is_run:
  assumes "(findings_step env pow)\<^sup>*\<^sup>* db db'" and "findings_inv env db" and "f \<in> set (findings db')"
  shows "\<exists>entries. finding_history env (f_id f) db' = Inr entries \<and> entries \<noteq> [] \<and>
     map (\<lambda>e. rule_get e ''version'') entries = map (\<lambda>i. JInt (int i)) [1..<Suc (nat (f_version f))] \<and>
     entry_state (hd entries) = JStr ''candidate'' \<and>
     successively (\<lambda>a b. \<exists>s t. entry_state a = JStr s \<and> entry_state b = JStr t \<and> t \<in> set (finding_targets s)) entries \<and>
     get_finding env (f_id f) db' = Inr (rule_get (last entries) ''document'') \<and>
     prefix (finding_versions db) (finding_versions db')"
proof -
  have inv: "findings_inv env db'" and p: "prefix (finding_versions db) (finding_versions db')"
    using findings_history [OF assms(1,2)] by (simp_all add: findings_conform_def)
  note chain = finding_inv_row(2) [OF inv assms(3)]
  let ?vs = "versions_of db' (f_id f)"
  obtain d where c: "map v_version ?vs = map int [1..<Suc (nat (f_version f))]" "?vs \<noteq> []"
      "v_state (hd ?vs) = JStr ''candidate''" "successively state_follows ?vs" "list_all (version_ok env) ?vs"
      "version_of env (last ?vs) f d"
    using chain unfolding version_chain_def versions_of_def Let_def by blast
  have st: "entry_state (entry_of v) = v_state v" if "v \<in> set ?vs" for v
    using c(5) that by (intro entry_state_of [of env]) (simp add: list_all_iff)
  have "map (\<lambda>e. rule_get e ''version'') (map entry_of ?vs) = map JInt (map v_version ?vs)" by simp
  then have ver: "map (\<lambda>e. rule_get e ''version'') (map entry_of ?vs) = map (\<lambda>i. JInt (int i)) [1..<Suc (nat (f_version f))]"
    unfolding c(1) by simp
  have run: "successively (\<lambda>a b. \<exists>s t. entry_state a = JStr s \<and> entry_state b = JStr t \<and> t \<in> set (finding_targets s)) (map entry_of ?vs)"
    unfolding successively_map using c(4) by (rule successively_mono) (simp add: st state_follows_def)
  have "get_finding env (f_id f) db' = Inr (rule_get (last (map entry_of ?vs)) ''document'')"
    using c(2,6) find_finding_row [OF inv assms(3)]
    by (simp add: last_map get_finding_def finding_document_def stored_document_def version_of_def)
  with ver run history_of_chain [OF chain] c(2,3) st p show ?thesis
    by (intro exI [of _ "map entry_of ?vs"]) (simp add: hd_map)
qed

lemma asset_links_allowed:
  assumes "asset_links policy wanted = Inr u"
  obtains d rules where "policy = JObj d" and "map_of d ''asset_rules'' = Some (JList rules)"
    and "list_all (\<lambda>a. \<exists>r. JObj r \<in> set rules \<and> map_of r ''rule_id'' = Some (JStr a) \<and>
           map_of r ''effect'' = Some (JStr ''allow'')) wanted"
proof -
  obtain d rules where d: "policy = JObj d" "dict_get d ''asset_rules'' = JList rules"
    using assms unfolding asset_links_def by (auto split: json.splits)
  with assms obtain allowed where a: "allow_rule_ids rules = Inr allowed" "list_all (\<lambda>a. py_in (JStr a) allowed) wanted"
    unfolding asset_links_def by (auto simp: bindr_eq_Inr guardr_eq_Inr)
  have "\<exists>r. JObj r \<in> set rules \<and> map_of r ''rule_id'' = Some (JStr a) \<and> map_of r ''effect'' = Some (JStr ''allow'')"
    if w: "a \<in> set wanted" for a
  proof -
    have "JStr a \<in> set allowed" using a(2) w by (auto simp: list_all_iff py_in_iff)
    with a(1) obtain rule where r: "rule \<in> set rules" "is_dict rule" "rule_get rule ''effect'' = JStr ''allow''"
        "index rule ''rule_id'' = Inr (JStr a)"
      unfolding allow_rule_ids_def by (auto elim!: traverse_memE simp: bindr_eq_Inr guardr_eq_Inr)
    from r(2) obtain e where "rule = JObj e" by (cases rule) auto
    with r show ?thesis by (auto simp: rule_get_def intro!: exI [of _ e] dict_get_Some split: option.splits)
  qed
  moreover have "map_of d ''asset_rules'' = Some (JList rules)" using d(2) by (rule dict_get_Some) simp
  ultimately show thesis using d(1) that by (simp add: list_all_iff)
qed

lemma content_of_severity:
  assumes "content_of pow n = Inr k"
  shows "k_severity k = severity_of (k_score k)"
  using assms unfolding content_of_def Let_def by (elim bindrE guardrE) auto

lemma finding_evidence_available:
  assumes "finding_evidence_links db wid policy ids = Inr u" and "e \<in> set ids"
  shows "available_evidence db wid policy e"
proof -
  have "e \<in> eo_id ` set (filter (\<lambda>r. eo_id r \<in> set ids \<and> eo_workflow r = wid \<and> eo_policy r = policy \<and>
      (''original'', eo_id r) \<notin> set (evidence_deletions db)) (evidence_objects db))"
    using assms by (simp add: finding_evidence_links_def Let_def guardr_eq_Inr)
  then show ?thesis by (auto simp: available_evidence_def)
qed

text \<open>
  C32. A finding is in scope: a new finding belongs to a workflow that is running, paused or completed; each asset rule it names
  is an allow rule of the policy bundle of that workflow, and each piece of evidence belongs to the same
  workflow and bundle and has not been deleted; its severity is that of its computed score.
\<close>

theorem finding_in_scope:
  assumes "create_finding env pow wid n now db = Inr (db', doc)" and "findings db' \<noteq> findings db"
  shows "\<exists>f w b policy k. findings db' = findings db @ [f] \<and> f_state f = ''candidate'' \<and> find_workflow db wid = Some w \<and>
     w_status w \<in> {''running'', ''paused'', ''completed''} \<and> content_of pow n = Inr k \<and>
     b \<in> set (bundles db) \<and> b_id b = w_policy w \<and> b_policy b = Some (JObj policy) \<and>
     (\<exists>rules. map_of policy ''asset_rules'' = Some (JList rules) \<and>
        list_all (\<lambda>a. \<exists>r. JObj r \<in> set rules \<and> map_of r ''rule_id'' = Some (JStr a) \<and>
           map_of r ''effect'' = Some (JStr ''allow'')) (k_assets k)) \<and>
     f_assets f = JList (map JStr (k_assets k)) \<and> f_evidence f = JList (map JStr (k_evidence k)) \<and>
     list_all (available_evidence db wid (w_policy w)) (k_evidence k) \<and>
     f_severity f = k_severity k \<and> k_severity k = severity_of (k_score k)"
  using assms(1)
proof (cases rule: create_findingE)
  case replay
  with assms(2) show ?thesis by simp
next
  case (fresh f v d w k policy)
  obtain pd rules where p: "policy = JObj pd" "map_of pd ''asset_rules'' = Some (JList rules)"
      "list_all (\<lambda>a. \<exists>r. JObj r \<in> set rules \<and> map_of r ''rule_id'' = Some (JStr a) \<and>
         map_of r ''effect'' = Some (JStr ''allow'')) (k_assets k)"
    using fresh(16) by (rule asset_links_allowed)
  obtain b where b: "b \<in> set (bundles db)" "b_id b = w_policy w" "b_policy b = Some policy"
    using fresh(14) by (auto simp: finding_policy_def split: option.splits dest!: find_SomeD)
  have w: "find_workflow db wid = Some w" "w_status w \<in> {''running'', ''paused'', ''completed''}"
    using fresh(13) by (auto simp: finding_workflow_def guardr_eq_Inr split: option.splits)
  have e: "list_all (available_evidence db wid (w_policy w)) (k_evidence k)"
    using finding_evidence_available [OF fresh(17)] by (simp add: list_all_iff)
  show ?thesis
    by (rule exI [of _ f], rule exI [of _ w], rule exI [of _ b], rule exI [of _ pd], rule exI [of _ k])
      (intro conjI exI [of _ rules] fresh w b(1,2) b(3) [unfolded p(1)] p(2,3) e content_of_severity [OF fresh(15)])
qed

end
