(* ===== verification/Sample_Findings.thy ===== *)
theory Sample_Findings
  imports Sample_Coverage Findings
begin

text \<open>
  A concrete finding: it is created as a candidate and rejected as a false positive. The two
  operations are computed in the logic, stage by stage; they instantiate the hypotheses of the theorems
  on findings.
\<close>


section \<open>A sample finding\<close>

text \<open>A digest that is the end of the text, backwards: the version of a finding is part of it.\<close>

definition tail_digest :: "string \<Rightarrow> string" where
  "tail_digest s = take 64 (rev s @ replicate 64 CHR ''0'')"

definition sample_tail_env :: policy_env where
  "sample_tail_env = sample_core_env\<lparr>sha256_hex := tail_digest\<rparr>"

definition sample_pow :: "rat \<Rightarrow> nat \<Rightarrow> rat" where
  "sample_pow x n = double (x ^ n)"

definition sample_findings_db :: findings_db where
  "sample_findings_db = coverage_db.extend sample_coverage_db (findings_db.fields [] [])"

definition sample_finding :: finding_request where
  "sample_finding =
     \<lparr>n_key = ''finding-key-00001'', n_title = '' Banner '', n_severity = ''informational'',
      n_vector = ''CVSS:3.1/AV:N/AC:L/PR:N/UI:N/S:U/C:N/I:N/A:N'', n_score = JInt 0, n_cwe = ''CWE-200'',
      n_confidence = JInt 80, n_assets = JList [JStr sample_asset_rule], n_evidence = JList [JStr sample_evidence],
      n_reproduction = ''r'', n_impact = ''i'', n_remediation = ''m'', n_references = JList [JStr ''https://e.org/''],
      n_actor = ''analyst''\<rparr>"

definition sample_content :: finding_content where
  "sample_content =
     \<lparr>k_title = ''Banner'', k_severity = ''informational'', k_vector = ''CVSS:3.1/AV:N/AC:L/PR:N/UI:N/S:U/C:N/I:N/A:N'',
      k_score = 0, k_cwe = ''CWE-200'', k_confidence = 80, k_assets = [sample_asset_rule], k_evidence = [sample_evidence],
      k_reproduction = ''r'', k_impact = ''i'', k_remediation = ''m'', k_references = [''https://e.org/'']\<rparr>"

definition sample_finding_doc :: dict where
  "sample_finding_doc = finding_doc sample_tail_env ''u0'' sample_workflow sample_content ''analyst'' ''2026-01-15T00:00:00Z''"

definition sample_row :: finding_row where
  "sample_row = new_finding sample_tail_env ''u0'' sample_workflow ''finding-key-00001'' sample_content ''analyst'' ''2026-01-15T00:00:00Z''"

definition inserted_db :: findings_db where
  "inserted_db = (draw sample_findings_db)\<lparr>findings := [sample_row]\<rparr>"

definition versioned_db :: findings_db where
  "versioned_db = projr (store_version sample_tail_env sample_finding_doc ''candidate created'' ''analyst'' ''2026-01-15T00:00:00Z'' inserted_db)"

definition created_db :: findings_db where
  "created_db = projr (finding_audit sample_tail_env sample_finding_doc ''finding.created'' ''analyst'' ''2026-01-15T00:00:00Z'' versioned_db)"

lemma projr_of: "\<not> isl r \<Longrightarrow> x = projr r \<Longrightarrow> r = Inr x"
  by (cases r) auto

lemma sample_checks:
  "finding_timestamp sample_clock = Inr ''2026-01-15T00:00:00Z''"
  "content_of sample_pow sample_finding = Inr sample_content"
  "finding_policy sample_findings_db ''p1'' = Inr sample_bundle_policy"
  "asset_links sample_bundle_policy [sample_asset_rule] = Inr ()"
  "finding_evidence_links sample_findings_db ''w1'' ''p1'' [sample_evidence] = Inr ()"
  "new_uuid sample_findings_db = ''u0''"
  "finding_valid sample_tail_env (JObj sample_finding_doc) = Inr ()"
  by code_simp+

lemma sample_empty [simp]: "findings sample_findings_db = []" "finding_versions sample_findings_db = []"
  "audit sample_findings_db = []" "find_workflow sample_findings_db ''w1'' = Some sample_workflow"
  by (simp_all add: sample_findings_db_def coverage_db.defs findings_db.defs sample_coverage_db_def workflow_db.defs
      sample_db_def find_workflow_def sample_workflow_def)

lemma sample_row_ok: "finding_checks sample_row"
  by code_simp

lemma sample_inserted: "finding_insert sample_row (draw sample_findings_db) = Inr inserted_db"
  by (simp add: finding_insert_def sample_row_ok inserted_db_def)

lemma sample_versioned:
  "store_version sample_tail_env sample_finding_doc ''candidate created'' ''analyst'' ''2026-01-15T00:00:00Z'' inserted_db = Inr versioned_db"
proof (rule projr_of [OF _ versioned_db_def])
  show "\<not> isl (store_version sample_tail_env sample_finding_doc ''candidate created'' ''analyst'' ''2026-01-15T00:00:00Z'' inserted_db)"
    by code_simp
qed

lemma append_succeeds:
  assumes "digest_length env" and "list_all (\<lambda>e. ev_id e \<noteq> new_uuid db \<and> ev_hash e \<noteq> ev_hash (audit_event env a db)) (audit db)"
  shows "append_audit_event env a db = Inr ((draw db)\<lparr>audit := audit db @ [audit_event env a db]\<rparr>, audit_event env a db)"
proof -
  have "\<not> list_ex (\<lambda>e. ev_id e = new_uuid db \<or> ev_hash e = ev_hash (audit_event env a db)) (audit db)"
    using assms(2) by (auto simp: list_ex_iff list_all_iff)
  moreover have "length (ev_hash (audit_event env a db)) = 64"
    using assms(1) by (simp add: audit_event_def content_hash_def digest_length_def)
  moreover have "ev_id (audit_event env a db) = new_uuid db" "ev_previous (audit_event env a db) = head_hash (audit db)"
      "audit (draw db) = audit db"
    by (simp_all add: audit_event_def draw_def)
  ultimately show ?thesis by (simp add: append_audit_event_def audit_insert_def Let_def mapr_def)
qed

lemma tail_digest_length: "digest_length sample_tail_env"
  by (auto simp: digest_length_def sample_tail_env_def tail_digest_def)

text \<open>The first event of the log has no previous hash, the others have one; the digest shows it.\<close>

lemma tail_event_hash:
  "content_hash sample_tail_env (event_payload i t aty ac action ''finding'' ''u0'' data prev) ! 44 =
     (if prev = None then CHR ''l'' else CHR 0x22)"
proof -
  have e: "json_string ''subject_type'' = CHR 0x22 # ''subject_type'' @ [CHR 0x22]" "json_string ''subject_id'' = CHR 0x22 # ''subject_id'' @ [CHR 0x22]"
    "json_string ''finding'' = CHR 0x22 # ''finding'' @ [CHR 0x22]"  "json_string ''u0'' = CHR 0x22 # ''u0'' @ [CHR 0x22]"
    by code_simp+
  show ?thesis
    by (cases prev) (simp_all add: event_payload_def content_hash_def sample_tail_env_def sample_core_env_def tail_digest_def less_list_code less_char_def json_member_def
      e opt_str_def, simp add: json_string_def)
qed

lemma sample_audit_data:
  "index (JObj sample_finding_doc) ''finding_id'' = Inr (JStr ''u0'')"
  "\<not> isl (traverse (\<lambda>k. mapr (\<lambda>v. (k, v)) (index (JObj sample_finding_doc) k)) finding_audit_fields)"
  "py_str (float_repr sample_tail_env) (JStr ''u0'') = ''u0''"
  by code_simp+

lemma sample_log:
  assumes "index (JObj d) ''finding_id'' = Inr (JStr ''u0'')"
    and "\<not> isl (traverse (\<lambda>k. mapr (\<lambda>v. (k, v)) (index (JObj d) k)) finding_audit_fields)"
    and "list_all (\<lambda>e. ev_id e \<noteq> new_uuid db \<and> ev_hash e ! 44 \<noteq> (if audit db = [] then CHR ''l'' else CHR 0x22)) (audit db)"
  shows "\<not> isl (finding_audit sample_tail_env d action ''analyst'' ''2026-01-15T00:00:00Z'' db)"
proof -
  obtain data where t: "traverse (\<lambda>k. mapr (\<lambda>v. (k, v)) (index (JObj d) k)) finding_audit_fields = Inr data"
    using assms(2) by (cases "traverse (\<lambda>k. mapr (\<lambda>v. (k, v)) (index (JObj d) k)) finding_audit_fields") auto
  let ?a = "event_args action ''finding'' ''u0'' ''human'' ''analyst'' data ''2026-01-15T00:00:00Z''"
  have "ev_hash (audit_event sample_tail_env ?a db) ! 44 = (if audit db = [] then CHR ''l'' else CHR 0x22)"
    by (simp add: audit_event_def event_args_def tail_event_hash head_hash_def)
  then have "list_all (\<lambda>e. ev_id e \<noteq> new_uuid db \<and> ev_hash e \<noteq> ev_hash (audit_event sample_tail_env ?a db)) (audit db)"
    using assms(3) by (auto simp: list_all_iff)
  with t assms(1) show ?thesis
    by (simp add: finding_audit_def sample_audit_data(3) append_succeeds [OF tail_digest_length] mapr_def del: index.simps)
qed

lemma sample_audited:
  "finding_audit sample_tail_env sample_finding_doc ''finding.created'' ''analyst'' ''2026-01-15T00:00:00Z'' versioned_db = Inr created_db"
proof (rule projr_of [OF sample_log [OF sample_audit_data(1,2)] created_db_def])
  obtain v where v: "versioned_db = (draw inserted_db)\<lparr>finding_versions := finding_versions inserted_db @ [v]\<rparr>"
    using sample_versioned by (rule store_versionE)
  show "list_all (\<lambda>e. ev_id e \<noteq> new_uuid versioned_db \<and> ev_hash e ! 44 \<noteq> (if audit versioned_db = [] then CHR ''l'' else CHR 0x22)) (audit versioned_db)"
    by (simp add: v inserted_db_def)
qed

lemma sample_creation:
  "create_finding sample_tail_env sample_pow ''w1'' sample_finding sample_clock sample_findings_db =
     Inr (created_db, JObj sample_finding_doc)"
proof -
  have k: "k_assets sample_content = [sample_asset_rule]" "k_evidence sample_content = [sample_evidence]"
    by (simp_all add: sample_content_def)
  have n: "n_actor sample_finding = ''analyst''" "n_key sample_finding = ''finding-key-00001''"
    by (simp_all add: sample_finding_def)
  have w: "finding_workflow sample_findings_db ''w1'' = Inr sample_workflow" "w_policy sample_workflow = ''p1''"
    by (simp_all add: finding_workflow_def) (simp_all add: sample_workflow_def)
  show ?thesis
    unfolding create_finding_def Let_def
    by (simp add: sample_checks k n w finding_identity_def finding_key_def
        flip: sample_row_def sample_finding_doc_def add: sample_inserted sample_versioned sample_audited)
qed

lemma created_rows: "findings created_db = [sample_row]"
proof -
  obtain e where c: "created_db = (draw versioned_db)\<lparr>audit := audit versioned_db @ [e]\<rparr>"
    using sample_audited by (rule finding_auditE)
  obtain v where v: "versioned_db = (draw inserted_db)\<lparr>finding_versions := finding_versions inserted_db @ [v]\<rparr>"
    using sample_versioned by (rule store_versionE)
  show ?thesis by (simp add: c v inserted_db_def)
qed

text \<open>The candidate is rejected as a false positive.\<close>

definition sample_review :: finding_review where
  "sample_review =
     \<lparr>g_target = ''rejected'', g_version = 1, g_reason = ''noise'', g_actor = ''analyst'',
      g_validation = Some ''false_positive'', g_duplicate = None, g_duplicate_of = None\<rparr>"

definition rejected_doc :: dict where
  "rejected_doc = transition_dict sample_finding_doc ''rejected'' 2 ''false_positive'' ''pending'' None ''2026-01-15T00:00:00Z''"

definition rejected_row :: finding_row where
  "rejected_row = transition_row sample_tail_env rejected_doc ''rejected'' 2 ''false_positive'' ''pending'' None ''2026-01-15T00:00:00Z'' sample_row"

definition reviewed_db :: findings_db where
  "reviewed_db = projr (store_version sample_tail_env rejected_doc ''noise'' ''analyst'' ''2026-01-15T00:00:00Z'' created_db)"

definition rejected_db :: findings_db where
  "rejected_db = projr (finding_audit sample_tail_env rejected_doc ''finding.transitioned'' ''analyst'' ''2026-01-15T00:00:00Z''
     (reviewed_db\<lparr>findings := [rejected_row]\<rparr>))"

lemma sample_reviewed:
  "store_version sample_tail_env rejected_doc ''noise'' ''analyst'' ''2026-01-15T00:00:00Z'' created_db = Inr reviewed_db"
proof (rule projr_of [OF _ reviewed_db_def])
  show "\<not> isl (store_version sample_tail_env rejected_doc ''noise'' ''analyst'' ''2026-01-15T00:00:00Z'' created_db)"
    by code_simp
qed

lemma rejected_audit_data:
  "index (JObj rejected_doc) ''finding_id'' = Inr (JStr ''u0'')"
  "\<not> isl (traverse (\<lambda>k. mapr (\<lambda>v. (k, v)) (index (JObj rejected_doc) k)) finding_audit_fields)"
  by code_simp+

lemma sample_rejected:
  "finding_audit sample_tail_env rejected_doc ''finding.transitioned'' ''analyst'' ''2026-01-15T00:00:00Z''
     (reviewed_db\<lparr>findings := [rejected_row]\<rparr>) = Inr rejected_db"
proof (rule projr_of [OF sample_log [OF rejected_audit_data] rejected_db_def])
  let ?db = "reviewed_db\<lparr>findings := [rejected_row]\<rparr>"
  obtain v where v: "versioned_db = (draw inserted_db)\<lparr>finding_versions := finding_versions inserted_db @ [v]\<rparr>"
    using sample_versioned by (rule store_versionE)
  have d: "drawn versioned_db = 2" "audit versioned_db = []" "uuid4 versioned_db = uuid4 sample_db"
    by (simp_all add: v inserted_db_def)
      (simp_all add: draw_def sample_findings_db_def coverage_db.defs findings_db.defs sample_coverage_db_def workflow_db.defs sample_db_def)
  obtain data x where x: "append_audit_event sample_tail_env (event_args ''finding.created'' ''finding'' ''u0'' ''human'' ''analyst'' data ''2026-01-15T00:00:00Z'')
      versioned_db = Inr x" "created_db = fst x"
    using sample_audited unfolding finding_audit_def sample_audit_data(1,3) bindr_Inr by (elim bindrE maprE) blast
  let ?e = "audit_event sample_tail_env (event_args ''finding.created'' ''finding'' ''u0'' ''human'' ''analyst'' data ''2026-01-15T00:00:00Z'') versioned_db"
  have "append_audit_event sample_tail_env (event_args ''finding.created'' ''finding'' ''u0'' ''human'' ''analyst'' data ''2026-01-15T00:00:00Z'')
      versioned_db = Inr (created_db, snd x)" unfolding x(2) using x(1) by simp
  then have c2: "created_db = (draw versioned_db)\<lparr>audit := audit versioned_db @ [?e]\<rparr>"
    by (rule append_audit_eventE) simp
  obtain u where u: "reviewed_db = (draw created_db)\<lparr>finding_versions := finding_versions created_db @ [u]\<rparr>"
    using sample_reviewed by (rule store_versionE)
  have ids: "uuid4 sample_db 2 \<noteq> uuid4 sample_db 4" by code_simp
  have a: "audit ?db = [?e]"
    by (simp add: u c2 d)
  have n: "new_uuid ?db = uuid4 sample_db 4"
    by (simp add: u c2 new_uuid_def draw_def d eval_nat_numeral)
  show "list_all (\<lambda>e. ev_id e \<noteq> new_uuid ?db \<and> ev_hash e ! 44 \<noteq> (if audit ?db = [] then CHR ''l'' else CHR 0x22)) (audit ?db)"
    unfolding a n using ids d by (simp add: audit_event_def event_args_def tail_event_hash head_hash_def new_uuid_def)
qed

lemma sample_row_fields:
  "f_id sample_row = ''u0''" "f_version sample_row = 1" "f_state sample_row = ''candidate''"
  "f_validation sample_row = ''unverified''" "f_duplicate sample_row = ''pending''" "f_duplicate_of sample_row = None"
  "finding_document sample_tail_env sample_row = Inr sample_finding_doc"
  by (simp_all add: sample_row_def new_finding_def finding_document_def stored_document_def sample_finding_doc_def Let_def)

lemma reviewed_rows: "findings reviewed_db = [sample_row]"
proof -
  obtain v where v: "reviewed_db = (draw created_db)\<lparr>finding_versions := finding_versions created_db @ [v]\<rparr>"
    using sample_reviewed by (rule store_versionE)
  show ?thesis by (simp add: v created_rows)
qed

lemma rejected_rows: "findings rejected_db = [rejected_row]"
proof -
  obtain e where e: "rejected_db = (draw (reviewed_db\<lparr>findings := [rejected_row]\<rparr>))\<lparr>audit := audit reviewed_db @ [e]\<rparr>"
    using sample_rejected by (rule finding_auditE) simp
  show ?thesis by (simp add: e)
qed

lemma sample_rejection:
  "transition_finding sample_tail_env ''u0'' sample_review sample_clock created_db = Inr (rejected_db, JObj rejected_doc)"
proof -
  have r: "strip ''noise'' = ''noise''" "finding_valid sample_tail_env (JObj rejected_doc) = Inr ()"
      "check_review created_db sample_row ''rejected'' ''false_positive'' ''pending'' None = Inr ()"
    by (code_simp, code_simp, simp add: check_review_def validation_statuses_def duplicate_statuses_def)
  have u: "update_rows (\<lambda>r. f_id r = ''u0'' \<and> f_version r = 1 \<and> f_state r = ''candidate'')
      (transition_row sample_tail_env rejected_doc ''rejected'' 2 ''false_positive'' ''pending'' None ''2026-01-15T00:00:00Z'') [sample_row] = [rejected_row]"
      "row_count (\<lambda>r. f_id r = ''u0'' \<and> f_version r = 1 \<and> f_state r = ''candidate'') [sample_row] = 1"
    by (simp_all add: update_rows_def row_count_def sample_row_fields rejected_row_def)
  show ?thesis
    unfolding transition_finding_def Let_def
    by (simp add: sample_checks(1) sample_review_def finding_identity_def r find_finding_def created_rows sample_row_fields
        finding_targets_def flip: rejected_doc_def add: sample_reviewed reviewed_rows u sample_rejected)
qed

lemma sample_findings_inv: "findings_inv sample_tail_env sample_findings_db"
  by (simp add: findings_inv_def)

lemma sample_findings_history:
  "(findings_step sample_tail_env sample_pow)\<^sup>*\<^sup>* sample_findings_db created_db"
  "(findings_step sample_tail_env sample_pow)\<^sup>*\<^sup>* created_db rejected_db"
  using findings_step.created [OF sample_creation] findings_step.transitioned [OF sample_rejection] by blast+

lemma sample_findings_run: "(findings_step sample_tail_env sample_pow)\<^sup>*\<^sup>* sample_findings_db rejected_db"
  using sample_findings_history by (rule rtranclp_trans)

lemma created_inv: "findings_inv sample_tail_env created_db"
  using findings_history [OF sample_findings_history(1) sample_findings_inv] by (simp add: findings_conform_def)

lemma rejected_row_fields:
  "f_id rejected_row = ''u0''" "f_version rejected_row = 2" "f_state rejected_row = ''rejected''"
  "f_validation rejected_row = ''false_positive''"
  by (simp_all add: rejected_row_def transition_row_def sample_row_fields)

theorem findings_reviewed_witness:
  "(\<exists>d. get_finding sample_tail_env ''u0'' rejected_db = Inr (JObj d) \<and> map_of d ''state'' = Some (JStr ''rejected'') \<and>
      map_of d ''validation_status'' = Some (JStr ''false_positive'')) \<and> chained sample_tail_env (audit rejected_db)"
  using findings_reviewed [OF sample_findings_run sample_findings_inv, of rejected_row]
  by (auto simp: rejected_rows rejected_row_fields)

theorem findings_fenced_witness:
  "\<exists>f'. find_finding rejected_db ''u0'' = Some f' \<and> finding_next\<^sup>*\<^sup>* sample_row f' \<and> f_version sample_row \<le> f_version f'"
proof -
  have "find_finding created_db ''u0'' = Some sample_row"
    by (simp add: find_finding_def created_rows sample_row_fields)
  from findings_fenced [OF sample_findings_history(2) created_inv this] show ?thesis by blast
qed

theorem finding_history_is_run_witness:
  "\<exists>entries. finding_history sample_tail_env ''u0'' rejected_db = Inr entries \<and>
     map (\<lambda>e. rule_get e ''version'') entries = [JInt 1, JInt 2] \<and> entry_state (hd entries) = JStr ''candidate''"
proof -
  have "\<exists>entries. finding_history sample_tail_env ''u0'' rejected_db = Inr entries \<and>
     map (\<lambda>e. rule_get e ''version'') entries = map (\<lambda>i. JInt (int i)) [1..<Suc (nat 2)] \<and>
     entry_state (hd entries) = JStr ''candidate''"
    using finding_history_is_run [OF sample_findings_run sample_findings_inv, of rejected_row]
    by (auto simp: rejected_rows rejected_row_fields simp del: upt_Suc)
  then show ?thesis by (simp add: upt_rec)
qed

theorem finding_in_scope_witness:
  "list_all (available_evidence sample_findings_db ''w1'' ''p1'') [sample_evidence] \<and> findings created_db = [sample_row]"
proof -
  have "findings created_db \<noteq> findings sample_findings_db" by (simp add: created_rows)
  from finding_in_scope [OF sample_creation this] show ?thesis
    by (auto simp: sample_checks created_rows sample_workflow_def sample_content_def)
qed

end
