(* ===== verification/Report_Render.thy ===== *)
theory Report_Render
  imports Document
begin

text \<open>
  The rendering of reports: \<open>render_report_artifacts\<close>, \<open>_markdown\<close> and \<open>_pdf\<close> of \<open>reports.py\<close>.

  A payload is a JSON value; indexing and joining raise as Python does. An artifact is the text whose
  UTF-8 encoding the code stores, so its digest is the digest of the text and its size is the number of
  bytes of the encoding; the PDF is ASCII, where a character is a byte.

  Results: the cross-reference table of the PDF holds the exact byte offset of each object and the
  file ends with the offset of the table; the text that is put into the HTML contains no markup. A line
  that is cut inside an escape sequence spoils its PDF string.
\<close>

section \<open>Markdown\<close>

definition newline :: string where
  "newline = [CHR 0x0A]"

text \<open>\<open>sep.join(v)\<close>.\<close>

definition join_texts :: "string \<Rightarrow> json \<Rightarrow> string result" where
  "join_texts sep v =
     bindr (elements v) (\<lambda>xs. guardr (\<not> list_all is_str xs) TypeError (Inr (join_with sep (map str_of xs))))"

definition field_text :: "policy_env \<Rightarrow> json \<Rightarrow> string \<Rightarrow> string result" where
  "field_text env v k = mapr (py_str (float_repr env)) (index v k)"

definition nested_text :: "policy_env \<Rightarrow> json \<Rightarrow> string \<Rightarrow> string \<Rightarrow> string result" where
  "nested_text env v k l = bindr (index v k) (\<lambda>w. field_text env w l)"

text \<open>\<open>payload['testing_period'][k] or 'not recorded'\<close>.\<close>

definition period_text :: "policy_env \<Rightarrow> json \<Rightarrow> string \<Rightarrow> string result" where
  "period_text env payload k =
     bindr (index payload ''testing_period'') (\<lambda>period.
     bindr (index period k) (\<lambda>v.
     Inr (if truthy v then py_str (float_repr env) v else ''not recorded'')))"

definition header_lines :: "policy_env \<Rightarrow> json \<Rightarrow> json list result" where
  "header_lines env payload =
     bindr (field_text env payload ''title'') (\<lambda>title.
     bindr (field_text env payload ''template'') (\<lambda>template.
     bindr (field_text env payload ''policy_bundle_id'') (\<lambda>bundle.
     bindr (period_text env payload ''started_at'') (\<lambda>started.
     bindr (period_text env payload ''ended_at'') (\<lambda>ended.
     Inr (map JStr [''# '' @ title, [], ''Template: '' @ template, ''Policy bundle: '' @ bundle,
                    ''Testing period: '' @ started @ '' to '' @ ended, []]))))))"

definition coverage_lines :: "policy_env \<Rightarrow> json \<Rightarrow> json list result" where
  "coverage_lines env item =
     bindr (field_text env item ''asset_rule_id'') (\<lambda>asset.
     bindr (field_text env item ''capability'') (\<lambda>capability.
     bindr (field_text env item ''capability_rule_id'') (\<lambda>rule.
     bindr (nested_text env item ''testing_period'' ''started_at'') (\<lambda>started.
     bindr (nested_text env item ''testing_period'' ''ended_at'') (\<lambda>ended.
     bindr (bindr (index item ''evidence_ids'') (join_texts '', '')) (\<lambda>evidence.
     Inr (map JStr [[], ''- Asset rule: '' @ asset, ''  Capability: '' @ capability @ '' ('' @ rule @ '')'',
                    ''  Testing period: '' @ started @ '' to '' @ ended, ''  Evidence: '' @ evidence])))))))"

definition section_lines :: "policy_env \<Rightarrow> json \<Rightarrow> json list result" where
  "section_lines env payload =
     bindr (get payload ''report_kind'' JNull) (\<lambda>kind.
     if py_eq kind (JStr ''no_findings'')
     then bindr (field_text env payload ''statement'') (\<lambda>statement.
          bindr (bindr (index payload ''coverage'') elements) (\<lambda>items.
          bindr (traverse (coverage_lines env) items) (\<lambda>rest.
          Inr (map JStr [''## Result'', [], statement, [], ''## Coverage''] @ concat rest))))
     else Inr [JStr ''## Findings''])"

definition finding_lines :: "policy_env \<Rightarrow> json \<Rightarrow> json list result" where
  "finding_lines env finding =
     bindr (field_text env finding ''title'') (\<lambda>title.
     bindr (field_text env finding ''severity'') (\<lambda>severity.
     bindr (nested_text env finding ''cvss'' ''base_score'') (\<lambda>score.
     bindr (field_text env finding ''cwe'') (\<lambda>cwe.
     bindr (index finding ''reproduction'') (\<lambda>reproduction.
     bindr (index finding ''impact'') (\<lambda>impact.
     bindr (index finding ''remediation'') (\<lambda>remediation.
     Inr [JStr [], JStr (''### '' @ title), JStr (''Severity: '' @ severity @ '' (CVSS '' @ score @ '')''),
          JStr (''CWE: '' @ cwe), JStr [], JStr ''#### Reproduction'', reproduction, JStr [],
          JStr ''#### Impact'', impact, JStr [], JStr ''#### Remediation'', remediation])))))))"

definition limitation_lines :: "policy_env \<Rightarrow> json \<Rightarrow> json list result" where
  "limitation_lines env payload =
     bindr (bindr (index payload ''limitations'') elements) (\<lambda>items.
     Inr (map JStr [[], ''## Limitations''] @ map (\<lambda>i. JStr (''- '' @ py_str (float_repr env) i)) items))"

definition markdown :: "policy_env \<Rightarrow> json \<Rightarrow> string result" where
  "markdown env payload =
     bindr (header_lines env payload) (\<lambda>head.
     bindr (section_lines env payload) (\<lambda>body.
     bindr (bindr (index payload ''findings'') elements) (\<lambda>findings.
     bindr (traverse (finding_lines env) findings) (\<lambda>parts.
     bindr (limitation_lines env payload) (\<lambda>limits.
     mapr (\<lambda>s. s @ newline) (join_texts newline (JList (head @ body @ concat parts @ limits))))))))"

section \<open>HTML\<close>

text \<open>\<open>html.escape(s)\<close>.\<close>

definition escape_html_char :: "char \<Rightarrow> string" where
  "escape_html_char c =
     (if c = CHR ''&'' then ''&amp;'' else if c = CHR ''<'' then ''&lt;'' else if c = CHR ''>'' then ''&gt;''
      else if c = CHR 0x22 then ''&quot;'' else if c = CHR 0x27 then ''&#x27;'' else [c])"

definition html_escape :: "string \<Rightarrow> string" where
  "html_escape s = concat (map escape_html_char s)"

definition quoted :: "string \<Rightarrow> string" where
  "quoted s = [CHR 0x22] @ s @ [CHR 0x22]"

definition html_page :: "string \<Rightarrow> string \<Rightarrow> string" where
  "html_page title body =
     ''<!doctype html><html><head><meta charset='' @ quoted ''utf-8'' @ ''><title>'' @ html_escape title @
     ''</title></head><body><pre>'' @ html_escape body @ ''</pre></body></html>''"

section \<open>PDF\<close>

text \<open>\<open>text.encode("ascii", errors="replace").decode()\<close> and the three replacements.\<close>

definition ascii_replace :: "string \<Rightarrow> string" where
  "ascii_replace s = map (\<lambda>c. if is_ascii_char c then c else CHR ''?'') s"

definition pdf_safe :: "string \<Rightarrow> string" where
  "pdf_safe s =
     replace_char CHR '')'' [CHR 0x5C, CHR '')'']
       (replace_char CHR ''('' [CHR 0x5C, CHR ''('']
         (replace_char CHR 0x5C [CHR 0x5C, CHR 0x5C] (ascii_replace s)))"

text \<open>\<open>s.splitlines()\<close>: a carriage return takes the newline after it.\<close>

definition is_line_break :: "char \<Rightarrow> bool" where
  "is_line_break c \<longleftrightarrow> c \<in> {CHR 0x0A, CHR 0x0B, CHR 0x0C, CHR 0x0D, CHR 0x1C, CHR 0x1D, CHR 0x1E, CHR 0x85}"

function splitlines_from :: "string \<Rightarrow> string \<Rightarrow> string list" where
  "splitlines_from acc [] = (if acc = [] then [] else [rev acc])"
| "splitlines_from acc (c # s) =
     (if is_line_break c
      then rev acc # splitlines_from [] (if c = CHR 0x0D \<and> prefix [CHR 0x0A] s then tl s else s)
      else splitlines_from (c # acc) s)"
  by pat_completeness auto
termination
  by (relation "measure (\<lambda>(_, s). length s)") auto

definition splitlines :: "string \<Rightarrow> string list" where
  "splitlines s = splitlines_from [] s"

definition pdf_line :: "string \<Rightarrow> string" where
  "pdf_line line = ''('' @ take 120 line @ '') Tj T*''"

definition pdf_stream :: "string \<Rightarrow> string" where
  "pdf_stream txt =
     ''BT /F1 9 Tf 40 780 Td 11 TL '' @
     join_with '' '' (map pdf_line (take 200 (splitlines (pdf_safe txt)))) @ '' ET''"

definition pdf_objects :: "string \<Rightarrow> string list" where
  "pdf_objects stream =
     [''<< /Type /Catalog /Pages 2 0 R >>'',
      ''<< /Type /Pages /Kids [3 0 R] /Count 1 >>'',
      ''<< /Type /Page /Parent 2 0 R /MediaBox [0 0 612 792] /Resources << /Font << /F1 5 0 R >> >> /Contents 4 0 R >>'',
      ''<< /Length '' @ decimal (int (length stream)) @ '' >>'' @ newline @ ''stream'' @ newline @ stream @ newline @ ''endstream'',
      ''<< /Type /Font /Subtype /Type1 /BaseFont /Helvetica >>'']"

definition pdf_object :: "int \<Rightarrow> string \<Rightarrow> string" where
  "pdf_object i obj = decimal i @ '' 0 obj'' @ newline @ obj @ newline @ ''endobj'' @ newline"

text \<open>The loop over the objects: the body so far, the offsets, and the number of the next object.\<close>

fun pdf_body :: "string \<Rightarrow> int list \<Rightarrow> int \<Rightarrow> string list \<Rightarrow> string \<times> int list" where
  "pdf_body body offsets i [] = (body, offsets)"
| "pdf_body body offsets i (obj # objs) =
     pdf_body (body @ pdf_object i obj) (offsets @ [int (length body)]) (i + 1) objs"

text \<open>\<open>f"{n:010d}"\<close>.\<close>

definition zero_padded :: "int \<Rightarrow> string" where
  "zero_padded n = (let d = decimal n in replicate (10 - length d) CHR ''0'' @ d)"

definition xref_table :: "int list \<Rightarrow> string" where
  "xref_table offsets =
     ''xref'' @ newline @ ''0 6'' @ newline @ ''0000000000 65535 f '' @ newline @
     concat (map (\<lambda>n. zero_padded n @ '' 00000 n '' @ newline) offsets)"

definition pdf_trailer :: "int \<Rightarrow> string" where
  "pdf_trailer xref =
     ''trailer << /Size 6 /Root 1 0 R >>'' @ newline @ ''startxref'' @ newline @ decimal xref @ newline @ ''%%EOF'' @ newline"

definition pdf :: "string \<Rightarrow> string" where
  "pdf txt =
     (let (body, offsets) = pdf_body (''%PDF-1.4'' @ newline) [] 1 (pdf_objects (pdf_stream txt))
      in body @ xref_table offsets @ pdf_trailer (int (length body)))"

definition render_report_artifacts :: "policy_env \<Rightarrow> json \<Rightarrow> (string \<times> string) list result" where
  "render_report_artifacts env payload =
     bindr (markdown env payload) (\<lambda>md.
     bindr (field_text env payload ''title'') (\<lambda>title.
     Inr [(''markdown'', md), (''html'', html_page title md),
          (''json'', canonical_json (float_repr env) payload), (''pdf'', pdf md)]))"

section \<open>The cross-reference table is exact\<close>

text \<open>The objects follow one another, each at its offset.\<close>

lemma pdf_body_layout:
  assumes "pdf_body body offsets i objs = (body', offsets')"
  shows "\<exists>new. offsets' = offsets @ new \<and> prefix body body' \<and>
     list_all2 (\<lambda>(k, obj) off. 0 \<le> off \<and> prefix (pdf_object k obj) (drop (nat off) body'))
       (zip (map (\<lambda>j. i + int j) [0..<length objs]) objs) new"
  using assms
proof (induction objs arbitrary: body offsets i)
  case (Cons obj objs)
  from Cons.IH [OF Cons.prems [simplified]] obtain new where new: "offsets' = (offsets @ [int (length body)]) @ new"
      "prefix (body @ pdf_object i obj) body'"
      "list_all2 (\<lambda>(k, obj) off. 0 \<le> off \<and> prefix (pdf_object k obj) (drop (nat off) body'))
         (zip (map (\<lambda>j. i + 1 + int j) [0..<length objs]) objs) new"
    by blast
  from new(2) obtain rest where b: "body' = (body @ pdf_object i obj) @ rest" by (auto elim: prefixE)
  have ix: "map (\<lambda>j. i + int j) [0..<length (obj # objs)] = i # map (\<lambda>j. i + 1 + int j) [0..<length objs]"
    by (simp add: upt_conv_Cons map_Suc_upt [symmetric] del: upt_Suc)
  have "prefix (pdf_object i obj) (drop (nat (int (length body))) body')" by (simp add: b)
  with new ix b show ?case
    by (intro exI [of _ "int (length body) # new"]) auto
qed simp

text \<open>
  C40. The PDF of a report is addressable: the body starts with the header and holds the five
  numbered objects, each exactly at the byte offset that the cross-reference table lists for it, and
  the file ends with the byte offset at which the table itself starts.
\<close>

theorem pdf_offsets_exact:
  "\<exists>offsets start. list_all2 (\<lambda>(k, obj) off. 0 \<le> off \<and> prefix (pdf_object k obj) (drop (nat off) (pdf txt)))
       (zip [1, 2, 3, 4, 5] (pdf_objects (pdf_stream txt))) offsets \<and>
     0 \<le> start \<and> drop (nat start) (pdf txt) = xref_table offsets @ pdf_trailer start \<and>
     prefix (''%PDF-1.4'' @ newline) (pdf txt)"
proof -
  obtain body offsets where p: "pdf_body (''%PDF-1.4'' @ newline) [] 1 (pdf_objects (pdf_stream txt)) = (body, offsets)"
    by (cases "pdf_body (''%PDF-1.4'' @ newline) [] 1 (pdf_objects (pdf_stream txt))")
  have t: "pdf txt = body @ xref_table offsets @ pdf_trailer (int (length body))"
    unfolding pdf_def p by simp
  have n: "map (\<lambda>j. 1 + int j) [0..<length (pdf_objects (pdf_stream txt))] = [1, 2, 3, 4, 5]"
    by (simp add: pdf_objects_def upt_rec)
  from pdf_body_layout [OF p] have l: "prefix (''%PDF-1.4'' @ newline) body"
      "list_all2 (\<lambda>(k, obj) off. 0 \<le> off \<and> prefix (pdf_object k obj) (drop (nat off) body))
         (zip [1, 2, 3, 4, 5] (pdf_objects (pdf_stream txt))) offsets"
    unfolding n by auto
  have "list_all2 (\<lambda>(k, obj) off. 0 \<le> off \<and> prefix (pdf_object k obj) (drop (nat off) (pdf txt)))
      (zip [1, 2, 3, 4, 5] (pdf_objects (pdf_stream txt))) offsets"
    using l(2) by (rule list_all2_mono) (auto simp: t prefix_def)
  moreover have "drop (nat (int (length body))) (pdf txt) = xref_table offsets @ pdf_trailer (int (length body))"
    by (simp add: t)
  ultimately show ?thesis using l(1) t by (intro exI [of _ offsets] exI [of _ "int (length body)"]) auto
qed

section \<open>Text in HTML and PDF\<close>

lemma escape_html_char_inert:
  "list_all (\<lambda>d. d \<notin> {CHR ''<'', CHR ''>'', CHR 0x22, CHR 0x27}) (escape_html_char c)"
  unfolding escape_html_char_def by (simp split: if_split)

lemma html_escape_inert:
  "list_all (\<lambda>d. d \<notin> {CHR ''<'', CHR ''>'', CHR 0x22, CHR 0x27}) (html_escape s)"
proof (induction s)
  case (Cons c s)
  have "html_escape (c # s) = escape_html_char c @ html_escape s" by (simp add: html_escape_def)
  with Cons escape_html_char_inert [of c] show ?case by (simp only: list_all_append)
qed (simp add: html_escape_def)

lemma pdf_stream_ascii: "list_all is_ascii_char (ascii_replace s)"
  by (auto simp: ascii_replace_def list_all_iff is_ascii_char_def)

text \<open>
  A parenthesis at the 120th place of a line is escaped to two characters, of which the cut keeps the
  backslash alone: it then escapes the parenthesis that should close the string.
\<close>

lemma pdf_line_cut_in_escape:
  assumes "length p = 119" and "list_all (\<lambda>c. is_ascii_char c \<and> c \<notin> {CHR 0x5C, CHR ''('', CHR '')''}) p"
  shows "pdf_line (pdf_safe (p @ ''('' @ rest)) = ''('' @ p @ [CHR 0x5C] @ '') Tj T*''"
proof -
  have a: "ascii_replace p = p" using assms(2) by (induction p) (auto simp: ascii_replace_def)
  have r: "replace_char c r p = p" if "c \<in> {CHR 0x5C, CHR ''('', CHR '')''}" for c r
    using assms(2) that by (induction p) (auto simp: replace_char_def)
  have d: "replace_char c r (x @ y) = replace_char c r x @ replace_char c r y" for c r x y
    by (simp add: replace_char_def)
  have "pdf_safe (p @ ''('' @ rest) = p @ pdf_safe (''('' @ rest)"
    using a by (simp add: pdf_safe_def ascii_replace_def d r)
  moreover have "\<exists>ys. pdf_safe (''('' @ rest) = CHR 0x5C # ys"
    by (simp add: pdf_safe_def ascii_replace_def replace_char_def is_ascii_char_def)
  ultimately show ?thesis using assms(1) by (auto simp: pdf_line_def)
qed

end
