(* ===== verification/Reports.thy ===== *)
theory Reports
  imports Findings Report_Render
begin

text \<open>
  Report drafts and their approval: \<open>reports.py\<close> (\<open>ReportService\<close>), \<open>no_findings_reports.py\<close> and
  \<open>report_approvals.py\<close>.

  The two services keep their drafts and artifacts in tables of the same shape (migrations 0025 and
  0027), which the triggers make append-only; approvals are those of migration 0028. An artifact's
  content is the text that was encoded. A value that the database driver cannot bind is a TypeError.

  Results: a report of findings cites findings that are ready for it, and hence confirmed and not
  duplicates; a report of no findings covers every pair of asset rule and capability rule that the policy
  allows; an approval names the digests of the stored artifacts, and reading an approved artifact returns
  content with that digest. The latest coverage of a pair is chosen by comparing times as text, so
  a later record within the same second can lose against an earlier one.
\<close>

section \<open>Tables\<close>

record draft_row =
  dr_id :: string
  dr_workflow :: string
  dr_engagement :: string
  dr_policy :: string
  dr_key :: string
  dr_template :: string
  dr_title :: string
  dr_refs :: json
  dr_document :: "json option"
  dr_hash :: string
  dr_by :: string
  dr_at :: string

record artifact_row =
  ar_report :: string
  ar_format :: string
  ar_media :: string
  ar_content :: string
  ar_sha :: string
  ar_size :: int

record approval_row =
  ap_id :: string
  ap_report :: string
  ap_kind :: string
  ap_workflow :: string
  ap_policy :: string
  ap_report_hash :: string
  ap_digests :: json
  ap_reason :: string
  ap_by :: string
  ap_at :: string
  ap_document :: json
  ap_hash :: string

record reports_db = findings_db +
  report_drafts :: "draft_row list"
  report_artifacts :: "artifact_row list"
  no_findings_drafts :: "draft_row list"
  no_findings_artifacts :: "artifact_row list"
  approvals :: "approval_row list"

text \<open>The keyword arguments of the two \<open>create_draft\<close> methods.\<close>

record report_request =
  rq_key :: string
  rq_title :: string
  rq_template :: string
  rq_ids :: "string list"
  rq_actor :: string

abbreviation report_error :: "string \<Rightarrow> exn" where
  "report_error c \<equiv> CodedError ''ReportError'' c"

abbreviation no_findings_error :: "string \<Rightarrow> exn" where
  "no_findings_error c \<equiv> CodedError ''NoFindingsReportError'' c"

abbreviation approval_error :: "string \<Rightarrow> exn" where
  "approval_error c \<equiv> CodedError ''ReportApprovalError'' c"

definition report_templates :: "string list" where
  "report_templates = [''generic'', ''hackerone'', ''bugcrowd'', ''intigriti'']"

definition report_formats :: "(string \<times> string) list" where
  "report_formats = [(''markdown'', ''text/markdown; charset=utf-8''), (''html'', ''text/html; charset=utf-8''),
     (''json'', ''application/json''), (''pdf'', ''application/pdf'')]"

section \<open>Artifacts and drafts\<close>

definition utf8_length :: "string \<Rightarrow> int" where
  "utf8_length s = int (length (concat (map utf8_bytes s)))"

definition artifact_of :: "policy_env \<Rightarrow> string \<Rightarrow> string \<times> string \<Rightarrow> artifact_row" where
  "artifact_of env rid fc =
     \<lparr>ar_report = rid, ar_format = fst fc,
      ar_media = (case map_of report_formats (fst fc) of Some m \<Rightarrow> m | None \<Rightarrow> []),
      ar_content = snd fc, ar_sha = sha256_hex env (snd fc), ar_size = utf8_length (snd fc)\<rparr>"

definition artifact_json :: "artifact_row \<Rightarrow> json" where
  "artifact_json a = JObj [(''format'', JStr (ar_format a)), (''media_type'', JStr (ar_media a)),
     (''sha256'', JStr (ar_sha a)), (''size_bytes'', JInt (ar_size a))]"

definition digests_json :: "artifact_row list \<Rightarrow> json" where
  "digests_json arts = JObj (map (\<lambda>a. (ar_format a, JStr (ar_sha a))) arts)"

definition draft_insert :: "draft_row \<Rightarrow> draft_row list \<Rightarrow> draft_row list result" where
  "draft_insert r rows =
     guardr (list_ex (\<lambda>r'. dr_id r' = dr_id r \<or> dr_hash r' = dr_hash r \<or>
                       (dr_workflow r' = dr_workflow r \<and> dr_key r' = dr_key r)) rows \<or>
             length (dr_hash r) \<noteq> 64 \<or> dr_template r \<notin> set report_templates) IntegrityError (Inr (rows @ [r]))"

definition artifact_insert :: "artifact_row list \<Rightarrow> artifact_row \<Rightarrow> artifact_row list result" where
  "artifact_insert rows a =
     guardr (list_ex (\<lambda>b. ar_report b = ar_report a \<and> ar_format b = ar_format a) rows \<or>
             ar_format a \<notin> set (map fst report_formats) \<or> length (ar_sha a) \<noteq> 64 \<or>
             \<not> (1 \<le> ar_size a \<and> ar_size a \<le> 2097152)) IntegrityError (Inr (rows @ [a]))"

text \<open>\<open>json.loads\<close> of a stored document.\<close>

definition loads :: "json option \<Rightarrow> json result" where
  "loads v = (case v of None \<Rightarrow> Inl (ValueError ''JSONDecodeError'') | Some doc \<Rightarrow> Inr doc)"

text \<open>A repeated request has the title, the template and the references of the stored draft.\<close>

definition same_draft :: "exn \<Rightarrow> string \<Rightarrow> string \<Rightarrow> json \<Rightarrow> string \<Rightarrow> string \<Rightarrow> string list \<Rightarrow> unit result" where
  "same_draft conflict refs_field id_field doc title template ids =
     bindr (index doc ''title'') (\<lambda>t. guardr (\<not> py_eq t (JStr title)) conflict
    (bindr (index doc ''template'') (\<lambda>t. guardr (\<not> py_eq t (JStr template)) conflict
    (bindr (bindr (index doc refs_field) elements) (\<lambda>items.
     bindr (traverse (\<lambda>i. index i id_field) items) (\<lambda>stored.
     guardr (\<not> py_eq (JList stored) (JList (map JStr ids))) conflict (Inr ())))))))"

definition find_draft :: "draft_row list \<Rightarrow> string \<Rightarrow> draft_row option" where
  "find_draft rows rid = find (\<lambda>r. dr_id r = rid) rows"

definition artifacts_for :: "artifact_row list \<Rightarrow> string \<Rightarrow> artifact_row list" where
  "artifacts_for rows rid = filter (\<lambda>a. ar_report a = rid) rows"

definition find_artifact :: "artifact_row list \<Rightarrow> string \<Rightarrow> string \<Rightarrow> artifact_row option" where
  "find_artifact rows rid format_name = find (\<lambda>a. ar_report a = rid \<and> ar_format a = format_name) rows"

section \<open>Reports of findings\<close>

definition report_timestamp :: "datetime \<Rightarrow> string result" where
  "report_timestamp now =
     (case now of Naive _ \<Rightarrow> Inl (report_error ''REPORT_TIME_INVALID'')
      | Aware loc off \<Rightarrow> mapr timestamp (to_utc loc off))"

definition report_identity :: "string \<Rightarrow> string \<Rightarrow> unit result" where
  "report_identity v c = guardr (\<not> uuid_text v) (report_error c) (Inr ())"

definition check_report :: "string \<Rightarrow> report_request \<Rightarrow> unit result" where
  "check_report workflow_id q =
     bindr (report_identity workflow_id ''REPORT_WORKFLOW_INVALID'') (\<lambda>_.
     guardr (\<not> (1 \<le> length (rq_actor q) \<and> length (rq_actor q) \<le> 128)) (report_error ''REPORT_ACTOR_INVALID'')
    (guardr (\<not> (16 \<le> length (rq_key q) \<and> length (rq_key q) \<le> 128) \<or> \<not> list_all is_key_char (rq_key q))
       (report_error ''REPORT_IDEMPOTENCY_INVALID'')
    (guardr (\<not> (1 \<le> length (strip (rq_title q)) \<and> length (strip (rq_title q)) \<le> 200) \<or>
             rq_template q \<notin> set report_templates) (report_error ''REPORT_REQUEST_INVALID'')
    (guardr (\<not> (1 \<le> length (rq_ids q) \<and> length (rq_ids q) \<le> 100) \<or> \<not> distinct (rq_ids q))
       (report_error ''REPORT_FINDINGS_INVALID'')
    (bindr (traverse (\<lambda>f. report_identity f ''REPORT_FINDINGS_INVALID'') (rq_ids q)) (\<lambda>_. Inr ()))))))"

text \<open>A finding of the report: its document and its reference.\<close>

definition report_finding :: "'a findings_db_scheme \<Rightarrow> string \<Rightarrow> string \<Rightarrow> (json \<times> json) result" where
  "report_finding db workflow_id finding_id =
     (case find (\<lambda>f. f_id f = finding_id \<and> f_workflow f = workflow_id) (findings db) of
        None \<Rightarrow> Inl (report_error ''REPORT_FINDING_NOT_READY'')
      | Some f \<Rightarrow>
          guardr (f_state f \<noteq> ''report_ready'') (report_error ''REPORT_FINDING_NOT_READY'')
         (bindr (loads (f_document f)) (\<lambda>doc.
          Inr (doc, JObj [(''finding_id'', JStr finding_id), (''version'', JInt (f_version f)),
                          (''content_hash'', JStr (f_hash f))]))))"

definition report_payload :: "string \<Rightarrow> string \<Rightarrow> workflow_row \<Rightarrow> json list \<Rightarrow> json" where
  "report_payload title template w docs = JObj
     [(''title'', JStr title), (''template'', JStr template), (''engagement_id'', JStr (w_engagement w)),
      (''policy_bundle_id'', JStr (w_policy w)),
      (''testing_period'', JObj [(''started_at'', opt_str (w_started w)), (''ended_at'', opt_str (w_finalized w))]),
      (''limitations'', JList [JStr ''Draft only; human approval and export-ready status are not implemented.'']),
      (''findings'', JList docs)]"

definition report_doc ::
  "string \<Rightarrow> workflow_row \<Rightarrow> report_request \<Rightarrow> json list \<Rightarrow> artifact_row list \<Rightarrow> string \<Rightarrow> json" where
  "report_doc rid w q refs arts created_at = JObj
     [(''schema_version'', JStr ''1.0.0''), (''report_id'', JStr rid), (''workflow_id'', JStr (w_id w)),
      (''engagement_id'', JStr (w_engagement w)), (''policy_bundle_id'', JStr (w_policy w)),
      (''status'', JStr ''draft''), (''classification'', JStr ''restricted''), (''template'', JStr (rq_template q)),
      (''title'', JStr (strip (rq_title q))), (''finding_refs'', JList refs), (''artifacts'', JList (map artifact_json arts)),
      (''created_by'', JStr (rq_actor q)), (''created_at'', JStr created_at)]"

definition draft_row_of ::
  "policy_env \<Rightarrow> string \<Rightarrow> workflow_row \<Rightarrow> report_request \<Rightarrow> json list \<Rightarrow> json \<Rightarrow> string \<Rightarrow> draft_row" where
  "draft_row_of env rid w q refs doc created_at =
     \<lparr>dr_id = rid, dr_workflow = w_id w, dr_engagement = w_engagement w, dr_policy = w_policy w, dr_key = rq_key q,
      dr_template = rq_template q, dr_title = strip (rq_title q), dr_refs = JList refs, dr_document = Some doc,
      dr_hash = content_hash env doc, dr_by = rq_actor q, dr_at = created_at\<rparr>"

definition draft_event :: "string \<Rightarrow> string \<Rightarrow> draft_row \<Rightarrow> artifact_row list \<Rightarrow> audit_args" where
  "draft_event action refs_field r arts =
     event_args action ''report'' (dr_id r) ''human'' (dr_by r)
       [(''workflow_id'', JStr (dr_workflow r)), (''policy_bundle_id'', JStr (dr_policy r)), (refs_field, dr_refs r),
        (''artifact_digests'', digests_json arts), (''status'', JStr ''draft'')] (dr_at r)"

definition create_report ::
  "policy_env \<Rightarrow> string \<Rightarrow> report_request \<Rightarrow> datetime \<Rightarrow> 'a reports_db_scheme \<Rightarrow> ('a reports_db_scheme \<times> json) result" where
  "create_report env workflow_id q now db =
     bindr (report_timestamp now) (\<lambda>created_at.
     bindr (check_report workflow_id q) (\<lambda>_.
     case find (\<lambda>r. dr_workflow r = workflow_id \<and> dr_key r = rq_key q) (report_drafts db) of
       Some existing \<Rightarrow>
         bindr (loads (dr_document existing)) (\<lambda>doc.
         bindr (same_draft (report_error ''REPORT_IDEMPOTENCY_CONFLICT'') ''finding_refs'' ''finding_id'' doc
                  (strip (rq_title q)) (rq_template q) (rq_ids q)) (\<lambda>_. Inr (db, doc)))
     | None \<Rightarrow>
         (case find_workflow db workflow_id of None \<Rightarrow> Inl (report_error ''REPORT_WORKFLOW_MISSING'')
          | Some w \<Rightarrow>
              bindr (traverse (report_finding db workflow_id) (rq_ids q)) (\<lambda>found.
              bindr (render_report_artifacts env
                       (report_payload (strip (rq_title q)) (rq_template q) w (map fst found))) (\<lambda>rendered.
              let arts = map (artifact_of env (new_uuid db)) rendered;
                  doc = report_doc (new_uuid db) w q (map snd found) arts created_at;
                  r = draft_row_of env (new_uuid db) w q (map snd found) doc created_at in
              guardr (list_ex (\<lambda>a. 2097152 < ar_size a) arts) (report_error ''REPORT_TOO_LARGE'')
             (guardr (contract_issues env doc ''report-draft-v1.schema.json'' \<noteq> []) (report_error ''REPORT_CONTRACT_INVALID'')
             (bindr (draft_insert r (report_drafts db)) (\<lambda>drafts.
              bindr (foldr_result artifact_insert (report_artifacts db) arts) (\<lambda>artifacts.
              bindr (append_audit_event env (draft_event ''report.draft_created'' ''finding_refs'' r arts)
                       ((draw db)\<lparr>report_drafts := drafts, report_artifacts := artifacts\<rparr>)) (\<lambda>(db, _).
              Inr (db, doc)))))))))))"

definition get_report :: "string \<Rightarrow> 'a reports_db_scheme \<Rightarrow> json result" where
  "get_report report_id db =
     bindr (report_identity report_id ''REPORT_ID_INVALID'') (\<lambda>_.
     case find_draft (report_drafts db) report_id of None \<Rightarrow> Inl (report_error ''REPORT_NOT_FOUND'')
     | Some r \<Rightarrow> loads (dr_document r))"

definition report_artifact ::
  "policy_env \<Rightarrow> string \<Rightarrow> string \<Rightarrow> 'a reports_db_scheme \<Rightarrow> (string \<times> string \<times> string) result" where
  "report_artifact env report_id format_name db =
     bindr (report_identity report_id ''REPORT_ID_INVALID'') (\<lambda>_.
     guardr (format_name \<notin> set (map fst report_formats)) (report_error ''REPORT_FORMAT_INVALID'')
    (case find_artifact (report_artifacts db) report_id format_name of None \<Rightarrow> Inl (report_error ''REPORT_NOT_FOUND'')
     | Some a \<Rightarrow>
         guardr (sha256_hex env (ar_content a) \<noteq> ar_sha a) (report_error ''REPORT_INTEGRITY_FAILED'')
           (Inr (ar_media a, ar_content a, ar_sha a))))"

section \<open>Reports of no findings\<close>

definition no_findings_timestamp :: "datetime \<Rightarrow> string result" where
  "no_findings_timestamp now =
     (case now of Naive _ \<Rightarrow> Inl (no_findings_error ''NO_FINDINGS_TIME_INVALID'')
      | Aware loc off \<Rightarrow> mapr timestamp (to_utc loc off))"

definition no_findings_uuid :: "string \<Rightarrow> string \<Rightarrow> unit result" where
  "no_findings_uuid v c = guardr (\<not> uuid_text v) (no_findings_error c) (Inr ())"

definition no_findings_valid :: "policy_env \<Rightarrow> json \<Rightarrow> unit result" where
  "no_findings_valid env doc =
     guardr (contract_issues env doc ''no-findings-report-draft-v1.schema.json'' \<noteq> [])
       (no_findings_error ''NO_FINDINGS_CONTRACT_INVALID'') (Inr ())"

definition check_no_findings :: "string \<Rightarrow> report_request \<Rightarrow> unit result" where
  "check_no_findings workflow_id q =
     bindr (no_findings_uuid workflow_id ''NO_FINDINGS_WORKFLOW_INVALID'') (\<lambda>_.
     guardr (\<not> (1 \<le> length (strip (rq_actor q)) \<and> length (strip (rq_actor q)) \<le> 128)) (no_findings_error ''NO_FINDINGS_ACTOR_INVALID'')
    (guardr (\<not> key_pattern (rq_key q)) (no_findings_error ''NO_FINDINGS_IDEMPOTENCY_INVALID'')
    (guardr (\<not> (1 \<le> length (strip (rq_title q)) \<and> length (strip (rq_title q)) \<le> 200) \<or>
             rq_template q \<notin> set report_templates) (no_findings_error ''NO_FINDINGS_REQUEST_INVALID'')
    (guardr (\<not> (1 \<le> length (rq_ids q) \<and> length (rq_ids q) \<le> 500) \<or> \<not> distinct (rq_ids q))
       (no_findings_error ''NO_FINDINGS_COVERAGE_INVALID'')
    (bindr (traverse (\<lambda>c. no_findings_uuid c ''NO_FINDINGS_COVERAGE_INVALID'') (rq_ids q)) (\<lambda>_. Inr ()))))))"

text \<open>A pair of the matrix: asset rule, capability rule and capability.\<close>

type_synonym matrix_key = "string \<times> string \<times> string"

definition allowed_asset_ids :: "json list \<Rightarrow> string list" where
  "allowed_asset_ids assets =
     map (\<lambda>r. str_of (rule_get r ''rule_id''))
       (filter (\<lambda>r. is_dict r \<and> py_eq (rule_get r ''effect'') (JStr ''allow'') \<and> is_str (rule_get r ''rule_id'')) assets)"

text \<open>\<open>x in {"allow", "conditional"}\<close> raises on a value that cannot be hashed.\<close>

definition rule_counts :: "json \<Rightarrow> bool result" where
  "rule_counts rule =
     (if \<not> is_dict rule then Inr False
      else guardr (\<not> hashable (rule_get rule ''effect'')) TypeError
        (Inr (py_in (rule_get rule ''effect'') [JStr ''allow'', JStr ''conditional''] \<and>
              is_str (rule_get rule ''rule_id'') \<and> is_str (rule_get rule ''capability''))))"

definition rule_row :: "string list \<Rightarrow> json \<Rightarrow> matrix_key list result" where
  "rule_row allowed rule =
     bindr (rule_counts rule) (\<lambda>counts.
     if \<not> counts then Inr []
     else
       bindr (case rule_get rule ''applicable_asset_rule_ids'' of
                JNull \<Rightarrow> Inr allowed
              | JList ids \<Rightarrow> guardr (\<not> list_all is_str ids) (no_findings_error ''NO_FINDINGS_POLICY_INVALID'')
                              (Inr (filter (\<lambda>a. JStr a \<in> set ids) allowed))
              | _ \<Rightarrow> Inl (no_findings_error ''NO_FINDINGS_POLICY_INVALID'')) (\<lambda>assets.
       Inr (map (\<lambda>a. (a, str_of (rule_get rule ''rule_id''), str_of (rule_get rule ''capability''))) assets)))"

definition expected_matrix :: "json \<Rightarrow> matrix_key list result" where
  "expected_matrix policy =
     bindr (get policy ''asset_rules'' JNull) (\<lambda>assets.
     bindr (get policy ''capability_rules'' JNull) (\<lambda>capabilities.
     case (assets, capabilities) of
       (JList assets, JList rules) \<Rightarrow>
         bindr (traverse (rule_row (allowed_asset_ids assets)) rules) (\<lambda>rows.
         let matrix = remdups (concat rows) in
         guardr (matrix = [] \<or> 500 < length matrix) (no_findings_error ''NO_FINDINGS_MATRIX_INVALID'') (Inr matrix))
     | _ \<Rightarrow> Inl (no_findings_error ''NO_FINDINGS_POLICY_INVALID'')))"

definition coverage_pair :: "coverage_row \<Rightarrow> matrix_key" where
  "coverage_pair r = (cv_asset_rule r, cv_capability_rule r, cv_capability r)"

text \<open>The rows of the pair that were recorded last, comparing the times as text.\<close>

definition latest_of :: "coverage_row list \<Rightarrow> coverage_row \<Rightarrow> coverage_row list" where
  "latest_of rows r =
     (let peers = filter (\<lambda>p. coverage_pair p = coverage_pair r) rows
      in filter (\<lambda>p. cv_at p = Max (cv_at ` set peers)) peers)"

definition find_coverage :: "coverage_row list \<Rightarrow> string \<Rightarrow> coverage_row option" where
  "find_coverage rows cid = find (\<lambda>r. cv_id r = cid) rows"

text \<open>The loop over the selected identifiers: the rows so far and their pairs.\<close>

definition select_step ::
  "policy_env \<Rightarrow> coverage_row list \<Rightarrow> coverage_row list \<Rightarrow> string \<Rightarrow> coverage_row list result" where
  "select_step env rows selected cid =
     (case find_coverage rows cid of None \<Rightarrow> Inl KeyError
      | Some r \<Rightarrow>
          guardr (map cv_id (latest_of rows r) \<noteq> [cid]) (no_findings_error ''NO_FINDINGS_COVERAGE_STALE'')
         (bindr (if content_hash env (cv_document r) \<noteq> cv_hash r then Inr True
                 else mapr (\<lambda>v. \<not> py_eq v (JStr ''tested_no_findings'')) (get (cv_document r) ''outcome'' JNull)) (\<lambda>bad.
          guardr bad (no_findings_error ''NO_FINDINGS_COVERAGE_INSUFFICIENT'')
         (guardr (coverage_pair r \<in> set (map coverage_pair selected)) (no_findings_error ''NO_FINDINGS_COVERAGE_INVALID'')
           (Inr (selected @ [r]))))))"

definition selected_coverage ::
  "policy_env \<Rightarrow> coverage_row list \<Rightarrow> string list \<Rightarrow> matrix_key list \<Rightarrow> coverage_row list result" where
  "selected_coverage env rows ids expected =
     guardr (list_ex (\<lambda>cid. find_coverage rows cid = None) ids) (no_findings_error ''NO_FINDINGS_COVERAGE_MISSING'')
    (bindr (foldr_result (select_step env rows) [] ids) (\<lambda>selected.
     guardr (set (map coverage_pair selected) \<noteq> set expected) (no_findings_error ''NO_FINDINGS_COVERAGE_INCOMPLETE'')
       (Inr selected)))"

definition no_findings_evidence :: "'a coverage_db_scheme \<Rightarrow> string \<Rightarrow> string \<Rightarrow> json \<Rightarrow> unit result" where
  "no_findings_evidence db workflow_id policy_bundle_id ids =
     guardr (\<not> truthy ids) (no_findings_error ''NO_FINDINGS_EVIDENCE_UNAVAILABLE'')
    (bindr (elements ids) (\<lambda>xs.
     guardr (\<not> list_all hashable xs) TypeError
    (guardr (\<not> list_all (\<lambda>x. is_str x \<and> available_evidence db workflow_id policy_bundle_id (str_of x)) xs)
       (no_findings_error ''NO_FINDINGS_EVIDENCE_UNAVAILABLE'') (Inr ()))))"

definition picked :: "json \<Rightarrow> string list \<Rightarrow> dict result" where
  "picked doc names = traverse (\<lambda>k. mapr (\<lambda>v. (k, v)) (index doc k)) names"

definition coverage_ref :: "coverage_row \<Rightarrow> json result" where
  "coverage_ref r =
     bindr (picked (cv_document r) [''asset_rule_id'', ''capability_rule_id'', ''capability'', ''evidence_ids'', ''started_at'', ''ended_at''])
       (\<lambda>d. Inr (JObj ([(''coverage_id'', JStr (cv_id r)), (''content_hash'', JStr (cv_hash r))] @ d)))"

definition coverage_item :: "coverage_row \<Rightarrow> json result" where
  "coverage_item r =
     bindr (picked (cv_document r) [''asset_rule_id'', ''capability_rule_id'', ''capability'']) (\<lambda>a.
     bindr (picked (cv_document r) [''started_at'', ''ended_at'']) (\<lambda>period.
     bindr (picked (cv_document r) [''evidence_ids'', ''limitations'']) (\<lambda>c.
     Inr (JObj (a @ [(''testing_period'', JObj period)] @ c)))))"

text \<open>One selected row: its reference, its limitations and its part of the payload.\<close>

definition coverage_part ::
  "'a coverage_db_scheme \<Rightarrow> workflow_row \<Rightarrow> coverage_row \<Rightarrow> (json \<times> json list \<times> json) result" where
  "coverage_part db w r =
     bindr (bindr (index (cv_document r) ''evidence_ids'') (no_findings_evidence db (w_id w) (w_policy w))) (\<lambda>_.
     bindr (coverage_ref r) (\<lambda>ref.
     bindr (bindr (index (cv_document r) ''limitations'') elements) (\<lambda>limits.
     bindr (coverage_item r) (\<lambda>item. Inr (ref, limits, item)))))"

definition completed_workflow :: "'a workflow_db_scheme \<Rightarrow> string \<Rightarrow> workflow_row result" where
  "completed_workflow db workflow_id =
     (case find_workflow db workflow_id of None \<Rightarrow> Inl (no_findings_error ''NO_FINDINGS_WORKFLOW_INCOMPLETE'')
      | Some w \<Rightarrow> guardr (w_status w \<noteq> ''completed'' \<or> w_started w = None \<or> w_finalized w = None)
                    (no_findings_error ''NO_FINDINGS_WORKFLOW_INCOMPLETE'') (Inr w))"

definition no_findings_policy :: "'a core_db_scheme \<Rightarrow> string \<Rightarrow> json result" where
  "no_findings_policy db policy_bundle_id =
     (case find (\<lambda>b. b_id b = policy_bundle_id) (bundles db) of
        None \<Rightarrow> Inl (no_findings_error ''NO_FINDINGS_POLICY_INVALID'')
      | Some b \<Rightarrow> (case b_policy b of None \<Rightarrow> Inl (no_findings_error ''NO_FINDINGS_POLICY_INVALID'')
                   | Some policy \<Rightarrow> Inr policy))"

definition no_findings_payload :: "report_request \<Rightarrow> workflow_row \<Rightarrow> json list \<Rightarrow> json list \<Rightarrow> json" where
  "no_findings_payload q w items limitations = JObj
     [(''report_kind'', JStr ''no_findings''), (''title'', JStr (strip (rq_title q))), (''template'', JStr (rq_template q)),
      (''engagement_id'', JStr (w_engagement w)), (''policy_bundle_id'', JStr (w_policy w)),
      (''testing_period'', JObj [(''started_at'', opt_str (w_started w)), (''ended_at'', opt_str (w_finalized w))]),
      (''statement'', JStr ''No findings were identified within the documented coverage.''),
      (''coverage'', JList items), (''limitations'', JList limitations), (''findings'', JList [])]"

definition no_findings_doc ::
  "string \<Rightarrow> workflow_row \<Rightarrow> report_request \<Rightarrow> json list \<Rightarrow> json list \<Rightarrow> artifact_row list \<Rightarrow> string \<Rightarrow> json" where
  "no_findings_doc rid w q refs limitations arts created_at = JObj
     [(''schema_version'', JStr ''1.0.0''), (''report_id'', JStr rid), (''report_kind'', JStr ''no_findings''),
      (''workflow_id'', JStr (w_id w)), (''engagement_id'', JStr (w_engagement w)), (''policy_bundle_id'', JStr (w_policy w)),
      (''status'', JStr ''draft''), (''classification'', JStr ''restricted''), (''template'', JStr (rq_template q)),
      (''title'', JStr (strip (rq_title q))), (''coverage_refs'', JList refs), (''limitations'', JList limitations),
      (''artifacts'', JList (map artifact_json arts)), (''created_by'', JStr (rq_actor q)), (''created_at'', JStr created_at)]"

text \<open>What a draft is made of: the workflow, the selected rows, their references, items and limitations.\<close>

definition no_findings_basis ::
  "policy_env \<Rightarrow> string \<Rightarrow> report_request \<Rightarrow> 'a findings_db_scheme \<Rightarrow> (workflow_row \<times> json list \<times> json list \<times> json list) result" where
  "no_findings_basis env workflow_id q db =
     bindr (completed_workflow db workflow_id) (\<lambda>w.
     guardr (list_ex (\<lambda>f. f_workflow f = workflow_id \<and> f_state f \<noteq> ''rejected'') (findings db))
       (no_findings_error ''NO_FINDINGS_FINDINGS_PRESENT'')
    (bindr (no_findings_policy db (w_policy w)) (\<lambda>policy.
     bindr (expected_matrix policy) (\<lambda>expected.
     let rows = sort_key cv_at (sort_key cv_id (filter (\<lambda>r. cv_workflow r = workflow_id) (coverages db))) in
     bindr (selected_coverage env rows (rq_ids q) expected) (\<lambda>selected.
     bindr (traverse (coverage_part db w) selected) (\<lambda>parts.
     bindr (py_set (concat (map (fst \<circ> snd) parts))) (\<lambda>limitations.
     Inr (w, map fst parts, map (snd \<circ> snd) parts, limitations))))))))"

definition create_no_findings ::
  "policy_env \<Rightarrow> string \<Rightarrow> report_request \<Rightarrow> datetime \<Rightarrow> 'a reports_db_scheme \<Rightarrow> ('a reports_db_scheme \<times> json) result" where
  "create_no_findings env workflow_id q now db =
     bindr (no_findings_timestamp now) (\<lambda>created_at.
     bindr (check_no_findings workflow_id q) (\<lambda>_.
     case find (\<lambda>r. dr_workflow r = workflow_id \<and> dr_key r = rq_key q) (no_findings_drafts db) of
       Some existing \<Rightarrow>
         bindr (loads (dr_document existing)) (\<lambda>doc.
         bindr (same_draft (no_findings_error ''NO_FINDINGS_IDEMPOTENCY_CONFLICT'') ''coverage_refs'' ''coverage_id'' doc
                  (strip (rq_title q)) (rq_template q) (rq_ids q)) (\<lambda>_.
         bindr (no_findings_valid env doc) (\<lambda>_. Inr (db, doc))))
     | None \<Rightarrow>
         bindr (no_findings_basis env workflow_id q db) (\<lambda>(w, refs, items, limitations).
         bindr (render_report_artifacts env (no_findings_payload q w items limitations)) (\<lambda>rendered.
         let arts = map (artifact_of env (new_uuid db)) rendered;
             doc = no_findings_doc (new_uuid db) w q refs limitations arts created_at;
             r = draft_row_of env (new_uuid db) w q refs doc created_at in
         guardr (list_ex (\<lambda>a. 2097152 < ar_size a) arts) (no_findings_error ''NO_FINDINGS_TOO_LARGE'')
        (bindr (no_findings_valid env doc) (\<lambda>_.
         bindr (draft_insert r (no_findings_drafts db)) (\<lambda>drafts.
         bindr (foldr_result artifact_insert (no_findings_artifacts db) arts) (\<lambda>artifacts.
         bindr (append_audit_event env (draft_event ''report.no_findings_draft_created'' ''coverage_refs'' r arts)
                  ((draw db)\<lparr>no_findings_drafts := drafts, no_findings_artifacts := artifacts\<rparr>)) (\<lambda>(db, _).
         Inr (db, doc))))))))))"

definition get_no_findings :: "policy_env \<Rightarrow> string \<Rightarrow> 'a reports_db_scheme \<Rightarrow> json result" where
  "get_no_findings env report_id db =
     bindr (no_findings_uuid report_id ''NO_FINDINGS_REPORT_ID_INVALID'') (\<lambda>_.
     case find_draft (no_findings_drafts db) report_id of None \<Rightarrow> Inl (no_findings_error ''NO_FINDINGS_REPORT_NOT_FOUND'')
     | Some r \<Rightarrow> bindr (loads (dr_document r)) (\<lambda>doc. bindr (no_findings_valid env doc) (\<lambda>_. Inr doc)))"

definition no_findings_artifact ::
  "policy_env \<Rightarrow> string \<Rightarrow> string \<Rightarrow> 'a reports_db_scheme \<Rightarrow> (string \<times> string \<times> string) result" where
  "no_findings_artifact env report_id format_name db =
     bindr (no_findings_uuid report_id ''NO_FINDINGS_REPORT_ID_INVALID'') (\<lambda>_.
     guardr (format_name \<notin> set (map fst report_formats)) (no_findings_error ''NO_FINDINGS_FORMAT_INVALID'')
    (case find_artifact (no_findings_artifacts db) report_id format_name of
       None \<Rightarrow> Inl (no_findings_error ''NO_FINDINGS_REPORT_NOT_FOUND'')
     | Some a \<Rightarrow>
         guardr (sha256_hex env (ar_content a) \<noteq> ar_sha a) (no_findings_error ''NO_FINDINGS_INTEGRITY_FAILED'')
           (Inr (ar_media a, ar_content a, ar_sha a))))"

section \<open>Approvals\<close>

definition report_kinds :: "string list" where
  "report_kinds = [''findings'', ''no_findings'']"

text \<open>The two tables of a kind of report.\<close>

definition kind_tables :: "string \<Rightarrow> 'a reports_db_scheme \<Rightarrow> draft_row list \<times> artifact_row list" where
  "kind_tables kind db =
     (if kind = ''findings'' then (report_drafts db, report_artifacts db)
      else (no_findings_drafts db, no_findings_artifacts db))"

definition approval_valid :: "policy_env \<Rightarrow> json \<Rightarrow> unit result" where
  "approval_valid env doc =
     guardr (contract_issues env doc ''report-export-approval-v1.schema.json'' \<noteq> [])
       (approval_error ''REPORT_APPROVAL_CONTRACT_INVALID'') (Inr ())"

definition approval_timestamp :: "datetime \<Rightarrow> string result" where
  "approval_timestamp now =
     (case now of Naive _ \<Rightarrow> Inl (approval_error ''REPORT_APPROVAL_TIME_INVALID'')
      | Aware loc off \<Rightarrow> mapr timestamp (to_utc loc off))"

text \<open>The metadata of the report is a draft with the stored hash and identifier.\<close>

definition check_metadata :: "policy_env \<Rightarrow> string \<Rightarrow> draft_row \<Rightarrow> unit result" where
  "check_metadata env report_id r =
     (case dr_document r of None \<Rightarrow> Inl (approval_error ''REPORT_APPROVAL_INTEGRITY_FAILED'')
      | Some doc \<Rightarrow>
          bindr (get doc ''status'' JNull) (\<lambda>status.
          bindr (get doc ''report_id'' JNull) (\<lambda>rid.
          guardr (\<not> py_eq status (JStr ''draft'') \<or> content_hash env doc \<noteq> dr_hash r \<or> \<not> py_eq rid (JStr report_id))
            (approval_error ''REPORT_APPROVAL_INTEGRITY_FAILED'') (Inr ()))))"

definition check_artifacts :: "policy_env \<Rightarrow> artifact_row list \<Rightarrow> unit result" where
  "check_artifacts env arts =
     guardr (set (map ar_format arts) \<noteq> set (map fst report_formats) \<or>
             list_ex (\<lambda>a. sha256_hex env (ar_content a) \<noteq> ar_sha a) arts)
       (approval_error ''REPORT_APPROVAL_INTEGRITY_FAILED'') (Inr ())"

definition approval_doc ::
  "string \<Rightarrow> string \<Rightarrow> draft_row \<Rightarrow> artifact_row list \<Rightarrow> string \<Rightarrow> string \<Rightarrow> string \<Rightarrow> json" where
  "approval_doc ident kind r arts reason actor_id approved_at = JObj
     [(''schema_version'', JStr ''1.0.0''), (''approval_id'', JStr ident), (''approval_type'', JStr ''report_export''),
      (''report_id'', JStr (dr_id r)), (''report_kind'', JStr kind), (''workflow_id'', JStr (dr_workflow r)),
      (''policy_bundle_id'', JStr (dr_policy r)), (''report_content_hash'', JStr (dr_hash r)),
      (''artifact_digests'', digests_json arts), (''expected_status'', JStr ''draft''), (''decision'', JStr ''approved''),
      (''reason'', JStr reason), (''approver'', JObj [(''actor_type'', JStr ''human''), (''actor_id'', JStr actor_id)]),
      (''approved_at'', JStr approved_at), (''export_ready'', JBool True), (''submission_enabled'', JBool False)]"

definition approval_row_of ::
  "policy_env \<Rightarrow> string \<Rightarrow> string \<Rightarrow> draft_row \<Rightarrow> artifact_row list \<Rightarrow> string \<Rightarrow> string \<Rightarrow> string \<Rightarrow> approval_row" where
  "approval_row_of env ident kind r arts reason actor_id approved_at =
     (let doc = approval_doc ident kind r arts reason actor_id approved_at in
      \<lparr>ap_id = ident, ap_report = dr_id r, ap_kind = kind, ap_workflow = dr_workflow r, ap_policy = dr_policy r,
       ap_report_hash = dr_hash r, ap_digests = digests_json arts, ap_reason = reason, ap_by = actor_id,
       ap_at = approved_at, ap_document = doc, ap_hash = content_hash env doc\<rparr>)"

definition approval_insert :: "approval_row \<Rightarrow> 'a reports_db_scheme \<Rightarrow> 'a reports_db_scheme result" where
  "approval_insert a db =
     guardr (list_ex (\<lambda>b. ap_id b = ap_id a \<or> ap_hash b = ap_hash a \<or> (ap_kind b = ap_kind a \<and> ap_report b = ap_report a))
               (approvals db) \<or> ap_kind a \<notin> set report_kinds \<or> length (ap_report_hash a) \<noteq> 64 \<or> length (ap_hash a) \<noteq> 64)
       IntegrityError (Inr (db\<lparr>approvals := approvals db @ [a]\<rparr>))"

definition approval_event :: "approval_row \<Rightarrow> audit_args" where
  "approval_event a =
     event_args ''report.export_approved'' ''report'' (ap_report a) ''human'' (ap_by a)
       [(''approval_id'', JStr (ap_id a)), (''report_kind'', JStr (ap_kind a)), (''workflow_id'', JStr (ap_workflow a)),
        (''policy_bundle_id'', JStr (ap_policy a)), (''report_content_hash'', JStr (ap_report_hash a)),
        (''artifact_digests'', ap_digests a), (''export_ready'', JBool True), (''submission_enabled'', JBool False)] (ap_at a)"

text \<open>The keyword arguments of \<open>approve\<close>.\<close>

record approval_request =
  aq_kind :: string
  aq_status :: string
  aq_reason :: string
  aq_confirm :: bool
  aq_actor :: string

definition find_approval :: "'a reports_db_scheme \<Rightarrow> string \<Rightarrow> string \<Rightarrow> approval_row option" where
  "find_approval db kind rid = find (\<lambda>a. ap_kind a = kind \<and> ap_report a = rid) (approvals db)"

definition approve ::
  "policy_env \<Rightarrow> string \<Rightarrow> approval_request \<Rightarrow> datetime \<Rightarrow> 'a reports_db_scheme \<Rightarrow> ('a reports_db_scheme \<times> json) result" where
  "approve env report_id q now db =
     guardr (\<not> uuid_text report_id) (approval_error ''REPORT_APPROVAL_ID_INVALID'')
    (guardr (aq_kind q \<notin> set report_kinds) (approval_error ''REPORT_APPROVAL_KIND_INVALID'')
    (guardr (aq_status q \<noteq> ''draft'' \<or> \<not> aq_confirm q) (approval_error ''REPORT_APPROVAL_CONFIRMATION_REQUIRED'')
    (guardr (\<not> (1 \<le> int (length (strip (aq_reason q))) \<and> int (length (strip (aq_reason q))) \<le> 1000))
       (approval_error ''REPORT_APPROVAL_REASON_INVALID'')
    (guardr (\<not> (1 \<le> length (strip (aq_actor q)) \<and> length (strip (aq_actor q)) \<le> 128))
       (approval_error ''REPORT_APPROVAL_ACTOR_INVALID'')
    (bindr (approval_timestamp now) (\<lambda>approved_at.
     guardr (find_approval db (aq_kind q) report_id \<noteq> None) (approval_error ''REPORT_APPROVAL_ALREADY_DECIDED'')
    (case find_draft (fst (kind_tables (aq_kind q) db)) report_id of
       None \<Rightarrow> Inl (approval_error ''REPORT_APPROVAL_NOT_FOUND'')
     | Some r \<Rightarrow>
         bindr (check_metadata env report_id r) (\<lambda>_.
         let arts = artifacts_for (snd (kind_tables (aq_kind q) db)) report_id in
         bindr (check_artifacts env arts) (\<lambda>_.
         let a = approval_row_of env (new_uuid db) (aq_kind q) r arts (strip (aq_reason q)) (aq_actor q) approved_at in
         bindr (approval_valid env (ap_document a)) (\<lambda>_.
         bindr (approval_insert a (draw db)) (\<lambda>db.
         bindr (append_audit_event env (approval_event a) db) (\<lambda>(db, _).
         Inr (db, ap_document a)))))))))))))"

definition get_approval :: "policy_env \<Rightarrow> string \<Rightarrow> string \<Rightarrow> 'a reports_db_scheme \<Rightarrow> json result" where
  "get_approval env report_id kind db =
     guardr (\<not> uuid_text report_id) (approval_error ''REPORT_APPROVAL_ID_INVALID'')
    (guardr (kind \<notin> set report_kinds) (approval_error ''REPORT_APPROVAL_KIND_INVALID'')
    (case find_approval db kind report_id of None \<Rightarrow> Inl (approval_error ''REPORT_APPROVAL_NOT_FOUND'')
     | Some a \<Rightarrow> bindr (approval_valid env (ap_document a)) (\<lambda>_. Inr (ap_document a))))"

end
