(* ===== verification/Report_Safety.thy ===== *)
theory Report_Safety
  imports Reports
begin

text \<open>
  Results on reports and approvals.

  A fresh report of findings cites findings that passed the review and nothing else; a fresh report
  of no findings covers exactly the pairs that the policy of its workflow puts in scope; the tables of
  reports, artifacts and approvals stay consistent through every history, so an approved artifact
  reads as it was approved.
\<close>

section \<open>What a successful call has done\<close>

lemma draw_reports [simp]:
  "report_drafts (draw db) = report_drafts db" "report_artifacts (draw db) = report_artifacts db"
  "no_findings_drafts (draw db) = no_findings_drafts db" "no_findings_artifacts (draw db) = no_findings_artifacts db"
  "approvals (draw db) = approvals db"
  by (simp_all add: draw_def)

lemma draft_insertE:
  assumes "draft_insert r rows = Inr rows'"
  obtains "rows' = rows @ [r]" and "dr_id r \<notin> dr_id ` set rows" and "dr_hash r \<notin> dr_hash ` set rows"
    and "(dr_workflow r, dr_key r) \<notin> (\<lambda>r. (dr_workflow r, dr_key r)) ` set rows" and "dr_template r \<in> set report_templates"
proof -
  have "rows' = rows @ [r]" "dr_template r \<in> set report_templates"
      "\<not> list_ex (\<lambda>r'. dr_id r' = dr_id r \<or> dr_hash r' = dr_hash r \<or>
                       (dr_workflow r' = dr_workflow r \<and> dr_key r' = dr_key r)) rows"
    using assms by (simp_all add: draft_insert_def guardr_eq_Inr)
  then show thesis by (intro that) (auto simp: list_ex_iff)
qed

lemma artifact_inserts:
  assumes "foldr_result artifact_insert rows arts = Inr rows'"
  shows "rows' = rows @ arts" and "list_all (\<lambda>a. 1 \<le> ar_size a \<and> ar_size a \<le> 2097152) arts"
proof -
  have "rows' = rows @ arts \<and> list_all (\<lambda>a. 1 \<le> ar_size a \<and> ar_size a \<le> 2097152) arts"
    using assms by (induction arts arbitrary: rows) (fastforce simp: bindr_eq_Inr artifact_insert_def guardr_eq_Inr)+
  then show "rows' = rows @ arts" "list_all (\<lambda>a. 1 \<le> ar_size a \<and> ar_size a \<le> 2097152) arts" by blast+
qed

lemma find_draft_None: "rid \<notin> dr_id ` set rows \<Longrightarrow> find_draft rows rid = None"
  by (auto simp: find_draft_def find_None_iff)

lemma create_reportE:
  assumes "create_report env wid q now db = Inr (db', doc)"
  obtains (replay) existing where "db' = db" and "dr_document existing = Some doc"
      and "find (\<lambda>r. dr_workflow r = wid \<and> dr_key r = rq_key q) (report_drafts db) = Some existing"
  | (fresh) w found rendered arts r at_time where "check_report wid q = Inr ()"
      and "find_workflow db wid = Some w"
      and "traverse (report_finding db wid) (rq_ids q) = Inr found"
      and "render_report_artifacts env (report_payload (strip (rq_title q)) (rq_template q) w (map fst found)) = Inr rendered"
      and "arts = map (artifact_of env (new_uuid db)) rendered"
      and "doc = report_doc (new_uuid db) w q (map snd found) arts at_time"
      and "r = draft_row_of env (new_uuid db) w q (map snd found) doc at_time"
      and "draft_insert r (report_drafts db) = Inr (report_drafts db')"
      and "foldr_result artifact_insert (report_artifacts db) arts = Inr (report_artifacts db')"
      and "no_findings_drafts db' = no_findings_drafts db" and "no_findings_artifacts db' = no_findings_artifacts db"
      and "approvals db' = approvals db" and "extends_log env db db'"
proof (cases "find (\<lambda>r. dr_workflow r = wid \<and> dr_key r = rq_key q) (report_drafts db)")
  case (Some existing)
  with assms show thesis unfolding create_report_def
    by (elim bindrE) (auto simp: loads_def split: option.splits elim!: bindrE intro: replay)
next
  case None
  obtain at_time u w where c: "check_report wid q = Inr u" "report_timestamp now = Inr at_time" "find_workflow db wid = Some w"
    using assms unfolding create_report_def None option.case by (elim bindrE) (auto split: option.splits)
  let ?arts = "\<lambda>rendered. map (artifact_of env (new_uuid db)) rendered"
  let ?doc = "\<lambda>found rendered. report_doc (new_uuid db) w q (map snd found) (?arts rendered) at_time"
  let ?r = "\<lambda>found rendered. draft_row_of env (new_uuid db) w q (map snd found) (?doc found rendered) at_time"
  obtain found rendered drafts artifacts x where h: "traverse (report_finding db wid) (rq_ids q) = Inr found"
      "render_report_artifacts env (report_payload (strip (rq_title q)) (rq_template q) w (map fst found)) = Inr rendered"
      "draft_insert (?r found rendered) (report_drafts db) = Inr drafts"
      "foldr_result artifact_insert (report_artifacts db) (?arts rendered) = Inr artifacts"
      "append_audit_event env (draft_event ''report.draft_created'' ''finding_refs'' (?r found rendered) (?arts rendered))
         ((draw db)\<lparr>report_drafts := drafts, report_artifacts := artifacts\<rparr>) = Inr x"
      "(case x of (db, _) \<Rightarrow> Inr (db, ?doc found rendered)) = (Inr (db', doc) :: _ result)"
    using assms unfolding create_report_def Let_def None c option.case bindr_Inr by (elim bindrE guardrE) blast
  obtain e where x: "x = (db', e)" and doc: "doc = ?doc found rendered" using h(6) by (cases x) auto
  let ?db1 = "(draw db)\<lparr>report_drafts := drafts, report_artifacts := artifacts\<rparr>"
  from h(5) x have a: "append_audit_event env (draft_event ''report.draft_created'' ''finding_refs'' (?r found rendered) (?arts rendered)) ?db1 = Inr (db', e)"
    by simp
  have t: "db' = (draw ?db1)\<lparr>audit := audit ?db1 @ [e]\<rparr>" using a by (rule append_audit_eventE)
  have l: "extends_log env db db'"
    using append_audit_event_extends [OF a] by (rule extends_log_same [rotated 2]) simp_all
  show thesis
    by (rule fresh [of w found rendered "?arts rendered" at_time "?r found rendered"])
      (use c h doc l in \<open>simp_all add: t\<close>)
qed

lemma create_no_findingsE:
  assumes "create_no_findings env wid q now db = Inr (db', doc)"
  obtains (replay) existing where "db' = db" and "dr_document existing = Some doc"
      and "find (\<lambda>r. dr_workflow r = wid \<and> dr_key r = rq_key q) (no_findings_drafts db) = Some existing"
  | (fresh) w refs items limitations rendered arts r at_time where "check_no_findings wid q = Inr ()"
      and "no_findings_basis env wid q db = Inr (w, refs, items, limitations)"
      and "render_report_artifacts env (no_findings_payload q w items limitations) = Inr rendered"
      and "arts = map (artifact_of env (new_uuid db)) rendered"
      and "doc = no_findings_doc (new_uuid db) w q refs limitations arts at_time"
      and "r = draft_row_of env (new_uuid db) w q refs doc at_time"
      and "draft_insert r (no_findings_drafts db) = Inr (no_findings_drafts db')"
      and "foldr_result artifact_insert (no_findings_artifacts db) arts = Inr (no_findings_artifacts db')"
      and "report_drafts db' = report_drafts db" and "report_artifacts db' = report_artifacts db"
      and "approvals db' = approvals db" and "extends_log env db db'"
proof (cases "find (\<lambda>r. dr_workflow r = wid \<and> dr_key r = rq_key q) (no_findings_drafts db)")
  case (Some existing)
  with assms show thesis unfolding create_no_findings_def
    by (elim bindrE) (auto simp: loads_def split: option.splits elim!: bindrE intro: replay)
next
  case None
  obtain at_time u b where c: "check_no_findings wid q = Inr u" "no_findings_timestamp now = Inr at_time"
      "no_findings_basis env wid q db = Inr b"
    using assms unfolding create_no_findings_def None option.case by (elim bindrE) blast
  obtain w refs items limitations where b: "b = (w, refs, items, limitations)" by (cases b)
  let ?arts = "\<lambda>rendered. map (artifact_of env (new_uuid db)) rendered"
  let ?doc = "\<lambda>rendered. no_findings_doc (new_uuid db) w q refs limitations (?arts rendered) at_time"
  let ?r = "\<lambda>rendered. draft_row_of env (new_uuid db) w q refs (?doc rendered) at_time"
  obtain rendered drafts artifacts x where h:
      "render_report_artifacts env (no_findings_payload q w items limitations) = Inr rendered"
      "draft_insert (?r rendered) (no_findings_drafts db) = Inr drafts"
      "foldr_result artifact_insert (no_findings_artifacts db) (?arts rendered) = Inr artifacts"
      "append_audit_event env (draft_event ''report.no_findings_draft_created'' ''coverage_refs'' (?r rendered) (?arts rendered))
         ((draw db)\<lparr>no_findings_drafts := drafts, no_findings_artifacts := artifacts\<rparr>) = Inr x"
      "(case x of (db, _) \<Rightarrow> Inr (db, ?doc rendered)) = (Inr (db', doc) :: _ result)"
    using assms unfolding create_no_findings_def Let_def None c b option.case bindr_Inr prod.case by (elim bindrE guardrE) blast
  obtain e where x: "x = (db', e)" and doc: "doc = ?doc rendered" using h(5) by (cases x) auto
  let ?db1 = "(draw db)\<lparr>no_findings_drafts := drafts, no_findings_artifacts := artifacts\<rparr>"
  from h(4) x have a: "append_audit_event env (draft_event ''report.no_findings_draft_created'' ''coverage_refs'' (?r rendered) (?arts rendered)) ?db1 = Inr (db', e)"
    by simp
  have t: "db' = (draw ?db1)\<lparr>audit := audit ?db1 @ [e]\<rparr>" using a by (rule append_audit_eventE)
  have l: "extends_log env db db'"
    using append_audit_event_extends [OF a] by (rule extends_log_same [rotated 2]) simp_all
  show thesis
    by (rule fresh [of w refs items limitations rendered "?arts rendered" at_time "?r rendered"])
      (use c b h doc l in \<open>simp_all add: t\<close>)
qed

lemma approveE:
  assumes "approve env rid q now db = Inr (db', doc)"
  obtains r arts a at_time where "aq_kind q \<in> set report_kinds" and "aq_confirm q" and "strip (aq_reason q) \<noteq> []"
    and "find_approval db (aq_kind q) rid = None"
    and "find_draft (fst (kind_tables (aq_kind q) db)) rid = Some r" and "check_metadata env rid r = Inr ()"
    and "arts = artifacts_for (snd (kind_tables (aq_kind q) db)) rid" and "check_artifacts env arts = Inr ()"
    and "a = approval_row_of env (new_uuid db) (aq_kind q) r arts (strip (aq_reason q)) (aq_actor q) at_time"
    and "approval_valid env (ap_document a) = Inr ()" and "doc = ap_document a"
    and "approvals db' = approvals db @ [a]" and "ap_id a \<notin> ap_id ` set (approvals db)"
    and "ap_hash a \<notin> ap_hash ` set (approvals db)" and "report_drafts db' = report_drafts db"
    and "report_artifacts db' = report_artifacts db" and "no_findings_drafts db' = no_findings_drafts db"
    and "no_findings_artifacts db' = no_findings_artifacts db" and "extends_log env db db'" and "uuid_text rid"
proof -
  obtain at_time r where c: "approval_timestamp now = Inr at_time" "find_draft (fst (kind_tables (aq_kind q) db)) rid = Some r"
    using assms unfolding approve_def Let_def by (elim bindrE guardrE) (auto split: option.splits)
  let ?arts = "artifacts_for (snd (kind_tables (aq_kind q) db)) rid"
  let ?a = "approval_row_of env (new_uuid db) (aq_kind q) r ?arts (strip (aq_reason q)) (aq_actor q) at_time"
  have uuid: "uuid_text rid" using assms unfolding approve_def by (simp add: guardr_eq_Inr)
  obtain u1 u2 u3 db1 x where h: "\<not> aq_kind q \<notin> set report_kinds" "\<not> (aq_status q \<noteq> ''draft'' \<or> \<not> aq_confirm q)"
      "\<not> \<not> (1 \<le> int (length (strip (aq_reason q))) \<and> int (length (strip (aq_reason q))) \<le> 1000)"
      "\<not> find_approval db (aq_kind q) rid \<noteq> None" "check_metadata env rid r = Inr u1"
      "check_artifacts env ?arts = Inr u2" "approval_valid env (ap_document ?a) = Inr u3"
      "approval_insert ?a (draw db) = Inr db1" "append_audit_event env (approval_event ?a) db1 = Inr x"
      "(case x of (db, _) \<Rightarrow> Inr (db, ap_document ?a)) = (Inr (db', doc) :: _ result)"
    using assms unfolding approve_def Let_def c option.case bindr_Inr by (elim bindrE guardrE) blast
  obtain e where x: "x = (db', e)" and doc: "doc = ap_document ?a" using h(10) by (cases x) auto
  have i: "db1 = (draw db)\<lparr>approvals := approvals db @ [?a]\<rparr>" "ap_id ?a \<notin> ap_id ` set (approvals db)"
      "ap_hash ?a \<notin> ap_hash ` set (approvals db)"
    using h(8) by (auto simp: approval_insert_def guardr_eq_Inr list_ex_iff)
  from h(9) x have a: "append_audit_event env (approval_event ?a) db1 = Inr (db', e)" by simp
  have t: "db' = (draw db1)\<lparr>audit := audit db1 @ [e]\<rparr>" using a by (rule append_audit_eventE)
  have l: "extends_log env db db'"
    using append_audit_event_extends [OF a] by (rule extends_log_same [rotated 2]) (simp_all add: i(1))
  show thesis
    by (rule that [of r ?arts ?a at_time]) (use c h(1-7) doc l i uuid in \<open>auto simp: t\<close>)
qed

section \<open>Reports of findings cite reviewed findings\<close>

text \<open>The reference that a report keeps of a finding.\<close>

definition finding_ref :: "finding_row \<Rightarrow> json" where
  "finding_ref f = JObj [(''finding_id'', JStr (f_id f)), (''version'', JInt (f_version f)), (''content_hash'', JStr (f_hash f))]"

lemma report_findingE:
  assumes "report_finding db wid fid = Inr p"
  obtains f where "f \<in> set (findings db)" and "f_id f = fid" and "f_workflow f = wid" and "f_state f = ''report_ready''"
    and "f_document f = Some (fst p)" and "snd p = finding_ref f"
  using assms unfolding report_finding_def
  by (auto simp: loads_def finding_ref_def guardr_eq_Inr bindr_eq_Inr split: option.splits dest!: find_SomeD)

lemma report_findings_found:
  assumes "traverse (report_finding db wid) ids = Inr found"
  obtains fs where "map f_id fs = ids" and "map snd found = map finding_ref fs"
    and "list_all (\<lambda>f. f \<in> set (findings db) \<and> f_workflow f = wid \<and> f_state f = ''report_ready'') fs"
proof -
  have "\<exists>fs. map f_id fs = ids \<and> map snd found = map finding_ref fs \<and>
      list_all (\<lambda>f. f \<in> set (findings db) \<and> f_workflow f = wid \<and> f_state f = ''report_ready'') fs"
    using assms
  proof (induction ids arbitrary: found)
    case (Cons fid ids)
    then obtain p rest where p: "report_finding db wid fid = Inr p" "traverse (report_finding db wid) ids = Inr rest" "found = p # rest"
      by (auto simp: bindr_eq_Inr)
    obtain f where f: "f \<in> set (findings db)" "f_id f = fid" "f_workflow f = wid" "f_state f = ''report_ready''" "snd p = finding_ref f"
      using p(1) by (rule report_findingE)
    obtain fs where "map f_id fs = ids" "map snd rest = map finding_ref fs"
        "list_all (\<lambda>f. f \<in> set (findings db) \<and> f_workflow f = wid \<and> f_state f = ''report_ready'') fs"
      using Cons.IH [OF p(2)] by blast
    with f p(3) show ?case by (intro exI [of _ "f # fs"]) simp
  qed simp
  with that show thesis by blast
qed

lemma check_report_ids:
  assumes "check_report wid q = Inr u"
  shows "rq_ids q \<noteq> []" and "distinct (rq_ids q)"
proof -
  have "\<not> (\<not> (1 \<le> length (rq_ids q) \<and> length (rq_ids q) \<le> 100) \<or> \<not> distinct (rq_ids q))"
    using assms unfolding check_report_def by (elim bindrE guardrE)
  then show "rq_ids q \<noteq> []" "distinct (rq_ids q)" by auto
qed

text \<open>
  C34. A report cites reviewed findings only: whatever the history of the findings service, the findings
  of a fresh report are the requested ones, in that order and without repetition; each belongs to the workflow of the
  report, is ready for a report, has been confirmed and is not a duplicate; and the reference that the report
  keeps names the current version and the hash of the document that reading the finding returns.
\<close>

theorem report_cites_reviewed:
  assumes "(findings_step env pow)\<^sup>*\<^sup>* db0 db" and "findings_inv env db0"
    and "create_report env wid q now db = Inr (db', doc)" and "report_drafts db' \<noteq> report_drafts db"
  shows "\<exists>fs. map f_id fs = rq_ids q \<and> fs \<noteq> [] \<and> distinct fs \<and>
     index doc ''finding_refs'' = Inr (JList (map finding_ref fs)) \<and> index doc ''status'' = Inr (JStr ''draft'') \<and>
     list_all (\<lambda>f. f \<in> set (findings db) \<and> f_workflow f = wid \<and> f_state f = ''report_ready'' \<and>
        f_validation f = ''confirmed'' \<and> f_duplicate f = ''clear'' \<and>
        (\<exists>d. get_finding env (f_id f) db = Inr (JObj d) \<and> f_hash f = content_hash env (JObj d) \<and>
           map_of d ''version'' = Some (JInt (f_version f)))) fs"
  using assms(3)
proof (cases rule: create_reportE)
  case replay
  with assms(4) show ?thesis by simp
next
  case (fresh w found rendered arts r at_time)
  have inv: "findings_inv env db" using findings_history [OF assms(1,2)] by (simp add: findings_conform_def)
  obtain fs where fs: "map f_id fs = rq_ids q" "map snd found = map finding_ref fs"
      "list_all (\<lambda>f. f \<in> set (findings db) \<and> f_workflow f = wid \<and> f_state f = ''report_ready'') fs"
    using fresh(3) by (rule report_findings_found)
  have ids: "fs \<noteq> []" "distinct fs"
    using check_report_ids [OF fresh(1)] unfolding fs(1) [symmetric] by (auto simp: distinct_map)
  have "f_validation f = ''confirmed'' \<and> f_duplicate f = ''clear'' \<and>
        (\<exists>d. get_finding env (f_id f) db = Inr (JObj d) \<and> f_hash f = content_hash env (JObj d) \<and>
           map_of d ''version'' = Some (JInt (f_version f)))"
    if f: "f \<in> set (findings db)" "f_state f = ''report_ready''" for f :: finding_row
  proof -
    obtain v d where "get_finding env (f_id f) db = Inr (JObj d)" "version_of env v f d"
      using get_finding_inv [OF inv f(1)] .
    moreover have "reviewed (f_state f) (f_validation f) (f_duplicate f)"
      using finding_inv_row(1) [OF inv f(1)] by (simp add: finding_row_ok_def)
    ultimately show ?thesis using f(2) by (auto simp: version_of_def reviewed_def)
  qed
  with fs ids fresh(6) show ?thesis
    by (intro exI [of _ fs]) (auto simp: report_doc_def list_all_iff)
qed

section \<open>Reports of no findings cover the scope\<close>

text \<open>The pairs that a policy puts in scope.\<close>

definition in_scope_pair :: "json \<Rightarrow> matrix_key \<Rightarrow> bool" where
  "in_scope_pair policy pair \<longleftrightarrow>
     (\<exists>d assets rules a c. policy = JObj d \<and>
        map_of d ''asset_rules'' = Some (JList assets) \<and> map_of d ''capability_rules'' = Some (JList rules) \<and>
        JObj a \<in> set assets \<and> map_of a ''rule_id'' = Some (JStr (fst pair)) \<and> map_of a ''effect'' = Some (JStr ''allow'') \<and>
        JObj c \<in> set rules \<and> map_of c ''rule_id'' = Some (JStr (fst (snd pair))) \<and>
        map_of c ''capability'' = Some (JStr (snd (snd pair))) \<and>
        map_of c ''effect'' \<in> {Some (JStr ''allow''), Some (JStr ''conditional'')} \<and>
        (dict_get c ''applicable_asset_rule_ids'' = JNull \<or>
         (\<exists>ids. dict_get c ''applicable_asset_rule_ids'' = JList ids \<and> JStr (fst pair) \<in> set ids)))"

lemma map_of_dict_get: "v \<noteq> JNull \<Longrightarrow> map_of d k = Some v \<longleftrightarrow> dict_get d k = v"
  by (auto simp: dict_get_def split: option.splits)

lemma is_str_conv: "is_str v \<longleftrightarrow> (\<exists>s. v = JStr s)"
  by (cases v) simp_all

lemma allowed_asset_ids_iff:
  "x \<in> set (allowed_asset_ids assets) \<longleftrightarrow>
     (\<exists>a. JObj a \<in> set assets \<and> map_of a ''rule_id'' = Some (JStr x) \<and> map_of a ''effect'' = Some (JStr ''allow''))"
proof
  assume "x \<in> set (allowed_asset_ids assets)"
  then obtain r where r: "r \<in> set assets" "is_dict r" "rule_get r ''effect'' = JStr ''allow''" "is_str (rule_get r ''rule_id'')"
      "x = str_of (rule_get r ''rule_id'')"
    by (auto simp: allowed_asset_ids_def)
  from r(2) obtain a where "r = JObj a" by (cases r) simp_all
  with r show "\<exists>a. JObj a \<in> set assets \<and> map_of a ''rule_id'' = Some (JStr x) \<and> map_of a ''effect'' = Some (JStr ''allow'')"
    by (auto simp: rule_get_def map_of_dict_get is_str_conv)
next
  assume "\<exists>a. JObj a \<in> set assets \<and> map_of a ''rule_id'' = Some (JStr x) \<and> map_of a ''effect'' = Some (JStr ''allow'')"
  then obtain a where "JObj a \<in> set assets" "dict_get a ''rule_id'' = JStr x" "dict_get a ''effect'' = JStr ''allow''"
    by (auto simp: map_of_dict_get)
  then show "x \<in> set (allowed_asset_ids assets)"
    by (auto simp: allowed_asset_ids_def rule_get_def intro!: image_eqI [of _ _ "JObj a"])
qed

definition rule_in_scope :: "string list \<Rightarrow> json \<Rightarrow> matrix_key \<Rightarrow> bool" where
  "rule_in_scope allowed rule pair \<longleftrightarrow>
     (\<exists>c. rule = JObj c \<and> fst pair \<in> set allowed \<and> map_of c ''rule_id'' = Some (JStr (fst (snd pair))) \<and>
        map_of c ''capability'' = Some (JStr (snd (snd pair))) \<and>
        map_of c ''effect'' \<in> {Some (JStr ''allow''), Some (JStr ''conditional'')} \<and>
        (dict_get c ''applicable_asset_rule_ids'' = JNull \<or>
         (\<exists>ids. dict_get c ''applicable_asset_rule_ids'' = JList ids \<and> JStr (fst pair) \<in> set ids)))"

lemma rule_row_iff:
  assumes "rule_row allowed rule = Inr row"
  shows "pair \<in> set row \<longleftrightarrow> rule_in_scope allowed rule pair"
proof -
  obtain counts where c: "rule_counts rule = Inr counts" using assms by (auto simp: rule_row_def bindr_eq_Inr)
  show ?thesis
  proof (cases counts)
    case False
    then have "row = []" using assms c by (simp add: rule_row_def)
    moreover have "\<not> rule_in_scope allowed rule pair"
      using c False by (auto simp: rule_counts_def rule_in_scope_def rule_get_def map_of_dict_get guardr_eq_Inr py_in_iff)
    ultimately show ?thesis by simp
  next
    case True
    then obtain d where d: "rule = JObj d" using c by (cases rule) (auto simp: rule_counts_def)
    obtain rid cap where e: "dict_get d ''rule_id'' = JStr rid" "dict_get d ''capability'' = JStr cap"
        "dict_get d ''effect'' \<in> {JStr ''allow'', JStr ''conditional''}"
      using c True d by (cases "dict_get d ''rule_id''"; cases "dict_get d ''capability''")
        (auto simp: rule_counts_def rule_get_def guardr_eq_Inr py_in_iff)
    have "bindr (case dict_get d ''applicable_asset_rule_ids'' of
                JNull \<Rightarrow> Inr allowed
              | JList ids \<Rightarrow> guardr (\<not> list_all is_str ids) (no_findings_error ''NO_FINDINGS_POLICY_INVALID'')
                              (Inr (filter (\<lambda>a. JStr a \<in> set ids) allowed))
              | _ \<Rightarrow> Inl (no_findings_error ''NO_FINDINGS_POLICY_INVALID'')) (\<lambda>assets. Inr (map (\<lambda>a. (a, rid, cap)) assets)) = Inr row"
      using assms c True d e(1,2) by (simp add: rule_row_def rule_get_def cong: json.case_cong)
    then obtain assets where a: "row = map (\<lambda>a. (a, rid, cap)) assets"
        "x \<in> set assets \<longleftrightarrow> x \<in> set allowed \<and> (dict_get d ''applicable_asset_rule_ids'' = JNull \<or>
            (\<exists>ids. dict_get d ''applicable_asset_rule_ids'' = JList ids \<and> JStr x \<in> set ids))" for x
      by (cases "dict_get d ''applicable_asset_rule_ids''") (auto simp: bindr_eq_Inr guardr_eq_Inr)
    obtain x y z where p: "pair = (x, y, z)" by (cases pair)
    have "pair \<in> set row \<longleftrightarrow> x \<in> set assets \<and> y = rid \<and> z = cap" unfolding p a(1) by auto
    also have "\<dots> \<longleftrightarrow> rule_in_scope allowed rule pair"
      unfolding rule_in_scope_def a(2) p d using e by (auto simp: map_of_dict_get)
    finally show ?thesis .
  qed
qed

lemma traverse_concat_iff:
  assumes "traverse f xs = Inr rows" and "\<And>x row. f x = Inr row \<Longrightarrow> y \<in> set row \<longleftrightarrow> P x"
  shows "y \<in> set (concat rows) \<longleftrightarrow> (\<exists>x \<in> set xs. P x)"
  using assms(1)
proof (induction xs arbitrary: rows)
  case (Cons x xs)
  then obtain row rest where r: "f x = Inr row" "traverse f xs = Inr rest" "rows = row # rest" by (auto simp: bindr_eq_Inr)
  with assms(2) [OF r(1)] Cons.IH [OF r(2)] show ?case by simp
qed simp

lemma expected_matrix_exact:
  assumes "expected_matrix policy = Inr matrix"
  shows "set matrix = {pair. in_scope_pair policy pair}" and "distinct matrix" and "matrix \<noteq> []" and "length matrix \<le> 500"
proof -
  obtain assets rules where l: "get policy ''asset_rules'' JNull = Inr (JList assets)"
      "get policy ''capability_rules'' JNull = Inr (JList rules)"
  proof -
    obtain x y where xy: "get policy ''asset_rules'' JNull = Inr x" "get policy ''capability_rules'' JNull = Inr y"
      using assms unfolding expected_matrix_def by (elim bindrE)
    then show thesis using assms that unfolding expected_matrix_def by (cases x; cases y) auto
  qed
  obtain d where d: "policy = JObj d" "map_of d ''asset_rules'' = Some (JList assets)"
    using l(1) by (rule getE) auto
  have e: "map_of d ''capability_rules'' = Some (JList rules)"
    using l(2) d(1) by (auto split: option.splits)
  obtain rows where rows: "traverse (rule_row (allowed_asset_ids assets)) rules = Inr rows"
      "matrix = remdups (concat rows)" "\<not> (matrix = [] \<or> 500 < length matrix)"
    using assms l unfolding expected_matrix_def by (auto simp: bindr_eq_Inr guardr_eq_Inr Let_def)
  have m: "pair \<in> set matrix \<longleftrightarrow> (\<exists>rule \<in> set rules. rule_in_scope (allowed_asset_ids assets) rule pair)" for pair
    using traverse_concat_iff [OF rows(1) rule_row_iff] rows(2) by simp
  have "in_scope_pair policy pair \<longleftrightarrow> (\<exists>rule \<in> set rules. rule_in_scope (allowed_asset_ids assets) rule pair)" for pair
    unfolding in_scope_pair_def rule_in_scope_def allowed_asset_ids_iff using d e by auto
  with m show "set matrix = {pair. in_scope_pair policy pair}" by blast
  show "distinct matrix" "matrix \<noteq> []" "length matrix \<le> 500" using rows(2,3) by simp_all
qed

text \<open>What the selection requires of a row.\<close>

definition acceptable :: "policy_env \<Rightarrow> coverage_row list \<Rightarrow> coverage_row \<Rightarrow> bool" where
  "acceptable env rows r \<longleftrightarrow>
     r \<in> set rows \<and> map cv_id (latest_of rows r) = [cv_id r] \<and> content_hash env (cv_document r) = cv_hash r \<and>
     get (cv_document r) ''outcome'' JNull = Inr (JStr ''tested_no_findings'')"

lemma select_stepE:
  assumes "select_step env rows selected cid = Inr selected'"
  obtains r where "selected' = selected @ [r]" and "cv_id r = cid" and "acceptable env rows r"
    and "coverage_pair r \<notin> coverage_pair ` set selected"
proof -
  obtain r where f: "find_coverage rows cid = Some r"
    using assms by (auto simp: select_step_def split: option.splits)
  have r: "r \<in> set rows" "cv_id r = cid" using f by (auto simp: find_coverage_def dest!: find_SomeD)
  have s: "map cv_id (latest_of rows r) = [cid]" "content_hash env (cv_document r) = cv_hash r"
      "get (cv_document r) ''outcome'' JNull = Inr (JStr ''tested_no_findings'')"
      "coverage_pair r \<notin> coverage_pair ` set selected" "selected' = selected @ [r]"
    using assms f by (auto simp: select_step_def guardr_eq_Inr bindr_eq_Inr mapr_eq_Inr split: if_splits)
  from r s show thesis by (intro that [of r]) (simp_all add: acceptable_def)
qed

lemma select_rows:
  assumes "foldr_result (select_step env rows) selected ids = Inr selected'" and "distinct (map coverage_pair selected)"
  shows "\<exists>new. selected' = selected @ new \<and> map cv_id new = ids \<and> list_all (acceptable env rows) new \<and>
     distinct (map coverage_pair selected')"
  using assms
proof (induction ids arbitrary: selected)
  case (Cons cid ids)
  then obtain mid where m: "select_step env rows selected cid = Inr mid" "foldr_result (select_step env rows) mid ids = Inr selected'"
    by (auto simp: bindr_eq_Inr)
  obtain r where r: "mid = selected @ [r]" "cv_id r = cid" "acceptable env rows r" "coverage_pair r \<notin> coverage_pair ` set selected"
    using m(1) by (rule select_stepE)
  have "distinct (map coverage_pair mid)" using r(1,4) Cons.prems(2) by simp
  from Cons.IH [OF m(2) this] obtain new where "selected' = mid @ new" "map cv_id new = ids" "list_all (acceptable env rows) new"
      "distinct (map coverage_pair selected')" by blast
  with r show ?case by (intro exI [of _ "r # new"] conjI) (assumption | simp)+
qed simp

lemma selected_coverageE:
  assumes "selected_coverage env rows ids expected = Inr selected"
  obtains "map cv_id selected = ids" and "list_all (acceptable env rows) selected" and "distinct (map coverage_pair selected)"
    and "coverage_pair ` set selected = set expected"
proof -
  have "foldr_result (select_step env rows) [] ids = Inr selected" "coverage_pair ` set selected = set expected"
    using assms by (auto simp: selected_coverage_def guardr_eq_Inr bindr_eq_Inr)
  with select_rows [of env rows "[]" ids selected] that show thesis by auto
qed

text \<open>A row that is acceptable is the latest of its pair, as long as identifiers are unique.\<close>

lemma acceptable_latest:
  assumes "acceptable env rows r" and "distinct (map cv_id rows)" and "p \<in> set rows" and "coverage_pair p = coverage_pair r"
  shows "cv_at p \<le> cv_at r"
proof -
  let ?peers = "filter (\<lambda>p. coverage_pair p = coverage_pair r) rows"
  have a: "r \<in> set rows" "map cv_id (latest_of rows r) = [cv_id r]" using assms(1) by (simp_all add: acceptable_def)
  then obtain m where m: "m \<in> set (latest_of rows r)" "cv_id m = cv_id r" by (cases "latest_of rows r") auto
  then have "m \<in> set rows" "cv_at m = Max (cv_at ` set ?peers)" by (auto simp: latest_of_def Let_def)
  moreover from this have "m = r" using assms(2) a(1) m(2) by (simp add: distinct_map inj_on_def)
  ultimately have "cv_at r = Max (cv_at ` set ?peers)" by simp
  also have "cv_at p \<le> \<dots>" using assms(3,4) by (intro Max_ge) auto
  finally show ?thesis .
qed

lemma no_findings_evidenceE:
  assumes "no_findings_evidence db wid policy v = Inr u"
  obtains xs where "elements v = Inr xs" and "xs \<noteq> []"
    and "list_all (\<lambda>x. \<exists>e. x = JStr e \<and> available_evidence db wid policy e) xs"
proof -
  obtain xs where x: "truthy v" "elements v = Inr xs"
      "list_all (\<lambda>x. is_str x \<and> available_evidence db wid policy (str_of x)) xs"
    using assms by (auto simp: no_findings_evidence_def guardr_eq_Inr bindr_eq_Inr)
  moreover have "xs \<noteq> []" using x(1,2) by (cases v) auto
  ultimately show thesis by (intro that [of xs]) (auto simp: list_all_iff is_str_conv)
qed

lemma no_findings_basisE:
  assumes "no_findings_basis env wid q db = Inr (w, refs, items, limitations)"
  obtains b policy matrix rows where "find_workflow db wid = Some w" and "w_status w = ''completed''"
    and "list_all (\<lambda>f. f_workflow f = wid \<longrightarrow> f_state f = ''rejected'') (findings db)"
    and "b \<in> set (bundles db)" and "b_id b = w_policy w" and "b_policy b = Some policy" and "expected_matrix policy = Inr matrix"
    and "selected_coverage env (sort_key cv_at (sort_key cv_id (filter (\<lambda>r. cv_workflow r = wid) (coverages db)))) (rq_ids q) matrix = Inr rows"
    and "list_all (\<lambda>r. \<exists>v u. index (cv_document r) ''evidence_ids'' = Inr v \<and>
           no_findings_evidence db (w_id w) (w_policy w) v = Inr u) rows"
proof -
  let ?rows = "sort_key cv_at (sort_key cv_id (filter (\<lambda>r. cv_workflow r = wid) (coverages db)))"
  obtain w' policy matrix rows parts ls where h: "completed_workflow db wid = Inr w'"
      "\<not> list_ex (\<lambda>f. f_workflow f = wid \<and> f_state f \<noteq> ''rejected'') (findings db)"
      "no_findings_policy db (w_policy w') = Inr policy" "expected_matrix policy = Inr matrix"
      "selected_coverage env ?rows (rq_ids q) matrix = Inr rows" "traverse (coverage_part db w') rows = Inr parts"
      "Inr (w', map fst parts, map (snd \<circ> snd) parts, ls) = (Inr (w, refs, items, limitations) :: _ result)"
    using assms unfolding no_findings_basis_def Let_def by (elim bindrE guardrE) blast
  have w: "w' = w" using h(7) by simp
  obtain b where b: "b \<in> set (bundles db)" "b_id b = w_policy w" "b_policy b = Some policy"
    using h(3) w by (auto simp: no_findings_policy_def split: option.splits dest!: find_SomeD)
  have c: "find_workflow db wid = Some w" "w_status w = ''completed''"
    using h(1) w by (auto simp: completed_workflow_def guardr_eq_Inr split: option.splits)
  have "\<exists>v u. index (cv_document r) ''evidence_ids'' = Inr v \<and> no_findings_evidence db (w_id w) (w_policy w) v = Inr u"
    if "r \<in> set rows" for r
    using traverse_memD [OF h(6) that] w unfolding coverage_part_def by (auto elim!: bindrE)
  with b c h(2,4,5) show thesis by (intro that [of b policy matrix rows]) (auto simp: list_all_iff list_ex_iff)
qed

text \<open>
  C35. A report of no findings is complete: whatever the history of the coverage service, a fresh one
  belongs to a completed workflow all of whose findings were rejected, and its coverage rows stand for exactly the pairs
  of an allowed asset rule and an applicable capability rule of the policy of that workflow, one row for
  each. Each row says that the pair was tested without findings, no row of the pair has a textually later
  time, and it cites evidence, all of which belongs to the workflow and has not been deleted.
\<close>

theorem no_findings_complete:
  assumes "(coverage_step env)\<^sup>*\<^sup>* db0 db" and "coverage_inv env db0"
    and "create_no_findings env wid q now db = Inr (db', doc)" and "no_findings_drafts db' \<noteq> no_findings_drafts db"
  shows "\<exists>w b policy rows. find_workflow db wid = Some w \<and> w_status w = ''completed'' \<and>
     list_all (\<lambda>f. f_workflow f = wid \<longrightarrow> f_state f = ''rejected'') (findings db) \<and>
     b \<in> set (bundles db) \<and> b_id b = w_policy w \<and> b_policy b = Some policy \<and>
     map cv_id rows = rq_ids q \<and> rows \<noteq> [] \<and> distinct (map coverage_pair rows) \<and>
     coverage_pair ` set rows = {pair. in_scope_pair policy pair} \<and>
     list_all (\<lambda>r. r \<in> set (coverages db) \<and> cv_workflow r = wid \<and> cv_outcome r = ''tested_no_findings'' \<and>
        list_all (\<lambda>p. cv_workflow p = wid \<longrightarrow> coverage_pair p = coverage_pair r \<longrightarrow> cv_at p \<le> cv_at r) (coverages db) \<and>
        (\<exists>xs. elements (cv_evidence r) = Inr xs \<and> xs \<noteq> [] \<and>
           list_all (\<lambda>x. \<exists>e. x = JStr e \<and> available_evidence db wid (w_policy w) e) xs)) rows"
  using assms(3)
proof (cases rule: create_no_findingsE)
  case replay
  with assms(4) show ?thesis by simp
next
  case (fresh w refs items limitations rendered arts r at_time)
  have inv: "coverage_inv env db" using coverage_history [OF assms(1,2)] by simp
  let ?rows = "sort_key cv_at (sort_key cv_id (filter (\<lambda>r. cv_workflow r = wid) (coverages db)))"
  have unique: "distinct (map cv_id ?rows)" using inv by (simp add: coverage_inv_def distinct_map inj_on_def)
  obtain b policy matrix rows where n: "find_workflow db wid = Some w" "w_status w = ''completed''"
      "list_all (\<lambda>f. f_workflow f = wid \<longrightarrow> f_state f = ''rejected'') (findings db)"
      "b \<in> set (bundles db)" "b_id b = w_policy w" "b_policy b = Some policy" "expected_matrix policy = Inr matrix"
      "selected_coverage env ?rows (rq_ids q) matrix = Inr rows"
      "list_all (\<lambda>r. \<exists>v u. index (cv_document r) ''evidence_ids'' = Inr v \<and>
           no_findings_evidence db (w_id w) (w_policy w) v = Inr u) rows"
    using fresh(2) by (rule no_findings_basisE)
  note m = expected_matrix_exact [OF n(7)]
  obtain s: "map cv_id rows = rq_ids q" "list_all (acceptable env ?rows) rows" "distinct (map coverage_pair rows)"
      "coverage_pair ` set rows = set matrix"
    using n(8) by (rule selected_coverageE)
  have w: "w_id w = wid" using n(1) by (auto simp: find_workflow_def dest!: find_SomeD)
  have "r \<in> set (coverages db) \<and> cv_workflow r = wid \<and> cv_outcome r = ''tested_no_findings'' \<and>
        list_all (\<lambda>p. cv_workflow p = wid \<longrightarrow> coverage_pair p = coverage_pair r \<longrightarrow> cv_at p \<le> cv_at r) (coverages db) \<and>
        (\<exists>xs. elements (cv_evidence r) = Inr xs \<and> xs \<noteq> [] \<and>
           list_all (\<lambda>x. \<exists>e. x = JStr e \<and> available_evidence db wid (w_policy w) e) xs)"
    if r: "r \<in> set rows" for r
  proof -
    have a: "acceptable env ?rows r" using s(2) r by (simp add: list_all_iff)
    then have mem: "r \<in> set (coverages db)" "cv_workflow r = wid" by (auto simp: acceptable_def)
    have ok: "coverage_row_ok env r" using inv mem(1) by (simp add: coverage_inv_def list_all_iff)
    have out: "cv_outcome r = ''tested_no_findings''"
      using a ok by (auto simp: acceptable_def coverage_row_ok_def index_eq_Inr)
    obtain v u where v: "index (cv_document r) ''evidence_ids'' = Inr v" "no_findings_evidence db wid (w_policy w) v = Inr u"
      using n(9) r w by (auto simp: list_all_iff)
    have "v = cv_evidence r" using v(1) ok by (simp add: coverage_row_ok_def)
    with v(2) obtain xs where "elements (cv_evidence r) = Inr xs" "xs \<noteq> []"
        "list_all (\<lambda>x. \<exists>e. x = JStr e \<and> available_evidence db wid (w_policy w) e) xs"
      by (auto elim: no_findings_evidenceE)
    moreover have "list_all (\<lambda>p. cv_workflow p = wid \<longrightarrow> coverage_pair p = coverage_pair r \<longrightarrow> cv_at p \<le> cv_at r) (coverages db)"
      using acceptable_latest [OF a unique] by (simp add: list_all_iff)
    ultimately show ?thesis using mem out by blast
  qed
  moreover have "rows \<noteq> []" using s(4) m(3) by auto
  ultimately show ?thesis using n(1-6) s m(1)
    by (intro exI [of _ w] exI [of _ b] exI [of _ policy] exI [of _ rows]) (simp add: list_all_iff)
qed

text \<open>
  C39. A later record can lose: of two rows of the same pair, of which the first was recorded on a
  whole second and the second later within that second, the service takes the first as the latest. It
  accepts the first for a report of no findings, whatever the later one says, and calls the later one stale.
\<close>

theorem stale_coverage_accepted:
  assumes "coverage_pair early = coverage_pair late" and "cv_id early \<noteq> cv_id late"
    and "cv_at early = timestamp s" and "cv_at late = timestamp (s + d)"
    and "s mod us_second = 0" and "0 < d" and "d < us_second"
    and "content_hash env (cv_document early) = cv_hash early"
    and "get (cv_document early) ''outcome'' JNull = Inr (JStr ''tested_no_findings'')"
  shows "selected_coverage env (sort_key cv_at [early, late]) [cv_id early] [coverage_pair early] = Inr [early] \<and>
     selected_coverage env (sort_key cv_at [early, late]) [cv_id late] [coverage_pair late] =
       Inl (no_findings_error ''NO_FINDINGS_COVERAGE_STALE'')"
proof -
  have lt: "cv_at late < cv_at early" using timestamp_same_second [OF assms(5-7)] assms(3,4) by simp
  have order: "sort_key cv_at [early, late] = [late, early]" using lt by simp
  have "Max {cv_at late, cv_at early} = cv_at early" using less_imp_le [OF lt] by (simp add: max_def)
  then have l: "latest_of [late, early] early = [early]" "latest_of [late, early] late = [early]"
    using assms(1) lt by (auto simp: latest_of_def Let_def insert_commute)
  show ?thesis unfolding order
    using assms(1,2,8,9) l by (simp add: selected_coverage_def select_step_def find_coverage_def)
qed

section \<open>Histories\<close>

text \<open>A stored artifact has the digest, the size and the media type of its content.\<close>

definition artifact_ok :: "policy_env \<Rightarrow> artifact_row \<Rightarrow> bool" where
  "artifact_ok env a \<longleftrightarrow>
     ar_sha a = sha256_hex env (ar_content a) \<and> ar_size a = utf8_length (ar_content a) \<and>
     1 \<le> ar_size a \<and> ar_size a \<le> 2097152 \<and> map_of report_formats (ar_format a) = Some (ar_media a)"

definition draft_ok :: "policy_env \<Rightarrow> artifact_row list \<Rightarrow> draft_row \<Rightarrow> bool" where
  "draft_ok env arts r \<longleftrightarrow> map ar_format arts = map fst report_formats \<and>
     (\<exists>doc. dr_document r = Some doc \<and> dr_hash r = content_hash env doc \<and>
        index doc ''report_id'' = Inr (JStr (dr_id r)) \<and> index doc ''status'' = Inr (JStr ''draft'') \<and>
        index doc ''artifacts'' = Inr (JList (map artifact_json arts)))"

definition draft_key :: "draft_row \<Rightarrow> string \<times> string" where
  "draft_key r = (dr_workflow r, dr_key r)"

definition store_ok :: "policy_env \<Rightarrow> draft_row list \<Rightarrow> artifact_row list \<Rightarrow> bool" where
  "store_ok env drafts artifacts \<longleftrightarrow>
     distinct (map dr_id drafts) \<and> distinct (map dr_hash drafts) \<and> distinct (map draft_key drafts) \<and>
     list_all (\<lambda>r. draft_ok env (artifacts_for artifacts (dr_id r)) r) drafts \<and>
     list_all (\<lambda>a. artifact_ok env a \<and> ar_report a \<in> dr_id ` set drafts) artifacts"

text \<open>What an operation may do to the two tables of a kind: nothing, or add a draft with its artifacts.\<close>

definition publishes ::
  "policy_env \<Rightarrow> draft_row list \<Rightarrow> artifact_row list \<Rightarrow> draft_row list \<Rightarrow> artifact_row list \<Rightarrow> bool" where
  "publishes env drafts artifacts drafts' artifacts' \<longleftrightarrow>
     drafts' = drafts \<and> artifacts' = artifacts \<or>
     (\<exists>r arts. drafts' = drafts @ [r] \<and> artifacts' = artifacts @ arts \<and> dr_id r \<notin> dr_id ` set drafts \<and>
        dr_hash r \<notin> dr_hash ` set drafts \<and> draft_key r \<notin> draft_key ` set drafts \<and>
        draft_ok env arts r \<and> list_all (\<lambda>a. ar_report a = dr_id r \<and> artifact_ok env a) arts)"

lemma artifacts_for_append: "artifacts_for (xs @ ys) rid = artifacts_for xs rid @ artifacts_for ys rid"
  by (simp add: artifacts_for_def)

lemma artifacts_for_other:
  "list_all (\<lambda>a. ar_report a = rid') arts \<Longrightarrow> rid \<noteq> rid' \<Longrightarrow> artifacts_for arts rid = []"
  by (auto simp: artifacts_for_def list_all_iff filter_empty_conv)

lemma artifacts_for_own: "list_all (\<lambda>a. ar_report a = rid) arts \<Longrightarrow> artifacts_for arts rid = arts"
  by (auto simp: artifacts_for_def list_all_iff filter_id_conv)

lemma publishes_ok:
  assumes "publishes env drafts artifacts drafts' artifacts'" and "store_ok env drafts artifacts"
  shows "store_ok env drafts' artifacts'" and "prefix drafts drafts'" and "prefix artifacts artifacts'"
    and "rid \<in> dr_id ` set drafts \<Longrightarrow> artifacts_for artifacts' rid = artifacts_for artifacts rid"
proof -
  have "store_ok env drafts' artifacts' \<and> prefix drafts drafts' \<and> prefix artifacts artifacts' \<and>
      (\<forall>rid \<in> dr_id ` set drafts. artifacts_for artifacts' rid = artifacts_for artifacts rid)"
    using assms(1) unfolding publishes_def
  proof (elim disjE exE conjE)
    fix r arts
    assume p: "drafts' = drafts @ [r]" "artifacts' = artifacts @ arts" "dr_id r \<notin> dr_id ` set drafts"
      "dr_hash r \<notin> dr_hash ` set drafts" "draft_key r \<notin> draft_key ` set drafts" "draft_ok env arts r"
      "list_all (\<lambda>a. ar_report a = dr_id r \<and> artifact_ok env a) arts"
    have arts: "list_all (\<lambda>a. ar_report a = dr_id r) arts" "list_all (artifact_ok env) arts"
      using p(7) by (simp_all add: list_all_iff)
    have "ar_report a \<noteq> dr_id r" if "a \<in> set artifacts" for a
    proof -
      have "ar_report a \<in> dr_id ` set drafts" using assms(2) that by (simp add: store_ok_def list_all_iff)
      with p(3) show ?thesis by metis
    qed
    then have "artifacts_for artifacts (dr_id r) = []" by (simp add: artifacts_for_def filter_empty_conv)
    then have own: "artifacts_for artifacts' (dr_id r) = arts"
      using arts(1) by (simp add: p(2) artifacts_for_append artifacts_for_own)
    have keep: "artifacts_for artifacts' rid = artifacts_for artifacts rid" if "rid \<in> dr_id ` set drafts" for rid
    proof -
      have "rid \<noteq> dr_id r" using that p(3) by metis
      with arts(1) show ?thesis by (simp add: p(2) artifacts_for_append artifacts_for_other)
    qed
    have "store_ok env drafts' artifacts'"
      using assms(2) p(3-6) arts own keep unfolding p(1) by (auto simp: store_ok_def list_all_iff p(2))
    with keep p(1,2) show ?thesis by simp
  qed (use assms(2) in simp)
  then show "store_ok env drafts' artifacts'" "prefix drafts drafts'" "prefix artifacts artifacts'"
      "rid \<in> dr_id ` set drafts \<Longrightarrow> artifacts_for artifacts' rid = artifacts_for artifacts rid" by blast+
qed

text \<open>
  A service that only publishes: through every history its two tables stay consistent, and a published
  draft and its artifacts stay as they are.
\<close>

locale report_store =
  fixes env :: policy_env
    and drafts :: "'d \<Rightarrow> draft_row list"
    and artifacts :: "'d \<Rightarrow> artifact_row list"
    and step :: "'d \<Rightarrow> 'd \<Rightarrow> bool"
  assumes step_publishes: "step db db' \<Longrightarrow> publishes env (drafts db) (artifacts db) (drafts db') (artifacts db')"
begin

lemma history_store:
  assumes "step\<^sup>*\<^sup>* db db'" and "store_ok env (drafts db) (artifacts db)"
  shows "store_ok env (drafts db') (artifacts db') \<and> prefix (drafts db) (drafts db') \<and>
     prefix (artifacts db) (artifacts db') \<and>
     (\<forall>rid \<in> dr_id ` set (drafts db). artifacts_for (artifacts db') rid = artifacts_for (artifacts db) rid)"
  using assms
proof (induction rule: rtranclp_induct)
  case (step y z)
  note p = publishes_ok [OF step_publishes [OF step.hyps(2)]]
  have y: "store_ok env (drafts y) (artifacts y)" "prefix (drafts db) (drafts y)" "prefix (artifacts db) (artifacts y)"
      "\<forall>rid \<in> dr_id ` set (drafts db). artifacts_for (artifacts y) rid = artifacts_for (artifacts db) rid"
    using step.IH [OF step.prems] by blast+
  have "artifacts_for (artifacts z) rid = artifacts_for (artifacts db) rid" if "rid \<in> dr_id ` set (drafts db)" for rid
    using p(4) [OF y(1), of rid] y(2,4) that by (auto simp: prefix_def)
  with p(1-3) [OF y(1)] y(2,3) show ?case by (auto intro: prefix_order.order_trans)
qed simp

lemma draft_stays:
  assumes "step\<^sup>*\<^sup>* db db'" and "store_ok env (drafts db) (artifacts db)" and "r \<in> set (drafts db)"
  shows "find_draft (drafts db') (dr_id r) = Some r" and "draft_ok env (artifacts_for (artifacts db') (dr_id r)) r"
    and "list_all (artifact_ok env) (artifacts_for (artifacts db') (dr_id r))"
proof -
  have h: "store_ok env (drafts db') (artifacts db')" "prefix (drafts db) (drafts db')"
    using history_store [OF assms(1,2)] by simp_all
  then have r: "r \<in> set (drafts db')" using assms(3) by (auto simp: prefix_def)
  with h(1) show "find_draft (drafts db') (dr_id r) = Some r"
    unfolding find_draft_def by (intro find_key) (simp_all add: store_ok_def)
  from h(1) r show "draft_ok env (artifacts_for (artifacts db') (dr_id r)) r"
      "list_all (artifact_ok env) (artifacts_for (artifacts db') (dr_id r))"
    by (simp_all add: store_ok_def list_all_iff artifacts_for_def)
qed

end

text \<open>
  A step of the three services, or a step of another service: it appends to the log and leaves the
  five tables alone, as their triggers demand.
\<close>

inductive reports_step :: "policy_env \<Rightarrow> 'a reports_db_scheme \<Rightarrow> 'a reports_db_scheme \<Rightarrow> bool" for env where
  reported: "create_report env wid q now db = Inr (db', doc) \<Longrightarrow> reports_step env db db'"
| nothing_found: "create_no_findings env wid q now db = Inr (db', doc) \<Longrightarrow> reports_step env db db'"
| approved: "approve env rid aq now db = Inr (db', doc) \<Longrightarrow> reports_step env db db'"
| other: "report_drafts db' = report_drafts db \<Longrightarrow> report_artifacts db' = report_artifacts db \<Longrightarrow>
    no_findings_drafts db' = no_findings_drafts db \<Longrightarrow> no_findings_artifacts db' = no_findings_artifacts db \<Longrightarrow>
    approvals db' = approvals db \<Longrightarrow> extends_log env db db' \<Longrightarrow> reports_step env db db'"

lemma rendered_formats:
  assumes "render_report_artifacts env payload = Inr rendered"
  shows "map fst rendered = map fst report_formats"
  using assms unfolding render_report_artifacts_def by (auto simp: bindr_eq_Inr report_formats_def)

lemma rendered_artifacts:
  assumes "render_report_artifacts env payload = Inr rendered"
    and "list_all (\<lambda>a. 1 \<le> ar_size a \<and> ar_size a \<le> 2097152) (map (artifact_of env rid) rendered)"
  shows "map ar_format (map (artifact_of env rid) rendered) = map fst report_formats"
    and "list_all (\<lambda>a. ar_report a = rid \<and> artifact_ok env a) (map (artifact_of env rid) rendered)"
proof -
  show f: "map ar_format (map (artifact_of env rid) rendered) = map fst report_formats"
    using rendered_formats [OF assms(1)] by (simp add: artifact_of_def comp_def)
  have "artifact_ok env (artifact_of env rid fc)" if "fc \<in> set rendered" for fc
  proof -
    have "fst fc \<in> fst ` set report_formats"
      using arg_cong [OF rendered_formats [OF assms(1)], of set] that by (simp add: set_eq_iff) blast
    then have "\<exists>m. map_of report_formats (fst fc) = Some m" by (simp add: map_of_eq_None_iff flip: not_None_eq)
    with assms(2) that show ?thesis
      by (auto simp: artifact_ok_def artifact_of_def list_all_iff)
  qed
  then show "list_all (\<lambda>a. ar_report a = rid \<and> artifact_ok env a) (map (artifact_of env rid) rendered)"
    by (simp add: list_all_iff artifact_of_def)
qed

lemma inserted_publishes:
  assumes "draft_insert r drafts = Inr drafts'" and "foldr_result artifact_insert artifacts arts = Inr artifacts'"
    and "render_report_artifacts env payload = Inr rendered" and "arts = map (artifact_of env rid) rendered"
    and "r = draft_row_of env rid w q refs doc at_time" and "index doc ''report_id'' = Inr (JStr rid)"
    and "index doc ''status'' = Inr (JStr ''draft'')" and "index doc ''artifacts'' = Inr (JList (map artifact_json arts))"
  shows "publishes env drafts artifacts drafts' artifacts'"
proof -
  obtain d: "drafts' = drafts @ [r]" "dr_id r \<notin> dr_id ` set drafts" "dr_hash r \<notin> dr_hash ` set drafts"
      "draft_key r \<notin> draft_key ` set drafts"
    using assms(1) by (rule draft_insertE) (simp add: draft_key_def)
  note a = artifact_inserts [OF assms(2)]
  note f = rendered_artifacts [OF assms(3) a(2) [unfolded assms(4)], folded assms(4)]
  have r: "dr_id r = rid" "dr_document r = Some doc" "dr_hash r = content_hash env doc"
    using assms(5) by (simp_all add: draft_row_of_def)
  have "draft_ok env arts r" using f(1) assms(6-8) r by (simp add: draft_ok_def)
  with d a(1) f(2) r(1) show ?thesis unfolding publishes_def by blast
qed

lemma reports_step_publishes:
  assumes "reports_step env db db'"
  shows "publishes env (report_drafts db) (report_artifacts db) (report_drafts db') (report_artifacts db') \<and>
     publishes env (no_findings_drafts db) (no_findings_artifacts db) (no_findings_drafts db') (no_findings_artifacts db')"
  using assms
proof cases
  case (reported wid q now doc)
  from reported show ?thesis
  proof (cases rule: create_reportE)
    case (fresh w found rendered arts r at_time)
    have "publishes env (report_drafts db) (report_artifacts db) (report_drafts db') (report_artifacts db')"
      by (rule inserted_publishes [OF fresh(8,9,4,5,7)]) (simp_all add: fresh(6) report_doc_def)
    with fresh show ?thesis by (simp add: publishes_def)
  qed (simp add: publishes_def)
next
  case (nothing_found wid q now doc)
  from nothing_found show ?thesis
  proof (cases rule: create_no_findingsE)
    case (fresh w refs items limitations rendered arts r at_time)
    have "publishes env (no_findings_drafts db) (no_findings_artifacts db) (no_findings_drafts db') (no_findings_artifacts db')"
      by (rule inserted_publishes [OF fresh(7,8,3,4,6)]) (simp_all add: fresh(5) no_findings_doc_def)
    with fresh show ?thesis by (simp add: publishes_def)
  qed (simp add: publishes_def)
next
  case (approved rid aq now doc)
  then show ?thesis by (rule approveE) (simp add: publishes_def)
next
  case other
  then show ?thesis by (simp add: publishes_def)
qed

interpretation findings_store: report_store env report_drafts report_artifacts "reports_step env" for env
  by unfold_locales (simp add: reports_step_publishes)

interpretation no_findings_store: report_store env no_findings_drafts no_findings_artifacts "reports_step env" for env
  by unfold_locales (simp add: reports_step_publishes)

lemma reports_step_extends: "reports_step env db db' \<Longrightarrow> extends_log env db db'"
proof (induction rule: reports_step.induct)
  case (reported wid q now db db' doc)
  then show ?case by (cases rule: create_reportE) auto
next
  case (nothing_found wid q now db db' doc)
  then show ?case by (cases rule: create_no_findingsE) auto
next
  case (approved rid aq now db db' doc)
  then show ?case by (rule approveE)
qed

interpretation reports_audit: audited_service env "reports_step env" for env
  by unfold_locales (rule reports_step_extends)

section \<open>Approvals\<close>

definition approval_key :: "approval_row \<Rightarrow> string \<times> string" where
  "approval_key a = (ap_kind a, ap_report a)"

text \<open>An approval names a stored draft by its hash and the digests of all its artifacts.\<close>

definition approval_ok :: "policy_env \<Rightarrow> 'a reports_db_scheme \<Rightarrow> approval_row \<Rightarrow> bool" where
  "approval_ok env db a \<longleftrightarrow>
     ap_kind a \<in> set report_kinds \<and> uuid_text (ap_report a) \<and> approval_valid env (ap_document a) = Inr () \<and>
     ap_hash a = content_hash env (ap_document a) \<and>
     (\<exists>r \<in> set (fst (kind_tables (ap_kind a) db)). dr_id r = ap_report a \<and> ap_report_hash a = dr_hash r) \<and>
     ap_digests a = digests_json (artifacts_for (snd (kind_tables (ap_kind a) db)) (ap_report a)) \<and>
     index (ap_document a) ''artifact_digests'' = Inr (ap_digests a) \<and>
     index (ap_document a) ''report_content_hash'' = Inr (JStr (ap_report_hash a))"

definition reports_inv :: "policy_env \<Rightarrow> 'a reports_db_scheme \<Rightarrow> bool" where
  "reports_inv env db \<longleftrightarrow>
     store_ok env (report_drafts db) (report_artifacts db) \<and>
     store_ok env (no_findings_drafts db) (no_findings_artifacts db) \<and>
     distinct (map ap_id (approvals db)) \<and> distinct (map ap_hash (approvals db)) \<and>
     distinct (map approval_key (approvals db)) \<and> list_all (approval_ok env db) (approvals db)"

lemma kind_tables_store:
  assumes "reports_inv env db"
  shows "store_ok env (fst (kind_tables kind db)) (snd (kind_tables kind db))"
  using assms by (simp add: reports_inv_def kind_tables_def)

lemma kind_tables_step:
  assumes "reports_step env db db'"
  shows "publishes env (fst (kind_tables kind db)) (snd (kind_tables kind db))
     (fst (kind_tables kind db')) (snd (kind_tables kind db'))"
  using reports_step_publishes [OF assms] by (simp add: kind_tables_def)

interpretation kind_store: report_store env "\<lambda>db. fst (kind_tables kind db)" "\<lambda>db. snd (kind_tables kind db)"
    "reports_step env" for env kind
  by unfold_locales (rule kind_tables_step)

lemma approval_ok_step:
  assumes "reports_step env db db'" and "reports_inv env db" and "approval_ok env db a"
  shows "approval_ok env db' a"
proof -
  note p = publishes_ok [OF kind_tables_step [OF assms(1), of "ap_kind a"] kind_tables_store [OF assms(2)]]
  obtain r where r: "r \<in> set (fst (kind_tables (ap_kind a) db))" "dr_id r = ap_report a" "ap_report_hash a = dr_hash r"
    using assms(3) by (auto simp: approval_ok_def)
  then have "r \<in> set (fst (kind_tables (ap_kind a) db'))" using p(2) by (auto simp: prefix_def)
  moreover have "artifacts_for (snd (kind_tables (ap_kind a) db')) (ap_report a) =
      artifacts_for (snd (kind_tables (ap_kind a) db)) (ap_report a)"
    using r by (intro p(4)) (auto simp flip: r(2))
  ultimately show ?thesis using assms(3) r(2,3) by (auto simp: approval_ok_def)
qed

lemma approved_keeps_inv:
  assumes "approve env rid q now db = Inr (db', doc)" and inv: "reports_inv env db"
  shows "reports_inv env db'" and "prefix (approvals db) (approvals db')"
proof -
  obtain r arts a at_time where h: "aq_kind q \<in> set report_kinds" "find_approval db (aq_kind q) rid = None"
      "find_draft (fst (kind_tables (aq_kind q) db)) rid = Some r"
      "arts = artifacts_for (snd (kind_tables (aq_kind q) db)) rid"
      "a = approval_row_of env (new_uuid db) (aq_kind q) r arts (strip (aq_reason q)) (aq_actor q) at_time"
      "approval_valid env (ap_document a) = Inr ()" "approvals db' = approvals db @ [a]"
      "ap_id a \<notin> ap_id ` set (approvals db)" "ap_hash a \<notin> ap_hash ` set (approvals db)"
      "report_drafts db' = report_drafts db" "report_artifacts db' = report_artifacts db"
      "no_findings_drafts db' = no_findings_drafts db" "no_findings_artifacts db' = no_findings_artifacts db" "uuid_text rid"
    using assms(1) by (rule approveE)
  have r: "r \<in> set (fst (kind_tables (aq_kind q) db))" "dr_id r = rid"
    using h(3) by (auto simp: find_draft_def dest!: find_SomeD)
  have a: "ap_kind a = aq_kind q" "ap_report a = rid" "ap_report_hash a = dr_hash r" "ap_digests a = digests_json arts"
      "ap_hash a = content_hash env (ap_document a)" "index (ap_document a) ''artifact_digests'' = Inr (ap_digests a)"
      "index (ap_document a) ''report_content_hash'' = Inr (JStr (ap_report_hash a))"
    by (simp_all add: h(5) approval_row_of_def Let_def r(2) approval_doc_def)
  have ok: "approval_ok env db a" using h(1,4,6,14) a r by (auto simp: approval_ok_def)
  have key: "approval_key a \<notin> approval_key ` set (approvals db)"
    using h(2) a(1,2) by (auto simp: find_approval_def find_None_iff approval_key_def)
  have same: "approval_ok env db' = approval_ok env db" by (simp add: approval_ok_def kind_tables_def h(10-13) fun_eq_iff)
  from inv h(7-13) ok key same show "reports_inv env db'" "prefix (approvals db) (approvals db')"
    by (simp_all add: reports_inv_def)
qed

lemma reports_step_inv:
  assumes "reports_step env db db'" and "reports_inv env db"
  shows "reports_inv env db' \<and> prefix (approvals db) (approvals db')"
proof -
  have store: "store_ok env (report_drafts db') (report_artifacts db')"
      "store_ok env (no_findings_drafts db') (no_findings_artifacts db')"
    using findings_store.history_store [OF r_into_rtranclp, OF assms(1)]
      no_findings_store.history_store [OF r_into_rtranclp, OF assms(1)] assms(2)
    by (simp_all add: reports_inv_def)
  have rest: ?thesis if "approvals db' = approvals db"
    using that store assms(2) approval_ok_step [OF assms] by (auto simp: reports_inv_def list_all_iff)
  from assms(1) show ?thesis
  proof cases
    case (reported wid q now doc)
    from reported show ?thesis by (cases rule: create_reportE) (use rest in simp_all)
  next
    case (nothing_found wid q now doc)
    from nothing_found show ?thesis by (cases rule: create_no_findingsE) (use rest in simp_all)
  next
    case approved
    from approved_keeps_inv [OF this assms(2)] show ?thesis by simp
  next
    case other
    with rest show ?thesis by simp
  qed
qed

lemma reports_history:
  assumes "(reports_step env)\<^sup>*\<^sup>* db db'" and "reports_inv env db"
  shows "reports_inv env db' \<and> prefix (approvals db) (approvals db')"
  using assms
proof (induction rule: rtranclp_induct)
  case (step y z)
  with reports_step_inv [of env y z] show ?case by (auto intro: prefix_order.order_trans)
qed simp

text \<open>
  C37. Reports are append-only and consistent: in every history of drafts, approvals and steps of other
  services, the tables of both kinds of report and of the approvals only grow; identifiers, hashes and idempotency
  keys stay unique; every draft has exactly the four artifacts, whose digests and sizes are those
  of their content; each report has at most one approval, and it names a stored draft; and the
  audit log stays chained.
\<close>

theorem reports_append_only:
  assumes "(reports_step env)\<^sup>*\<^sup>* db db'" and "reports_inv env db" and "chained env (audit db)"
  shows "reports_inv env db' \<and> prefix (report_drafts db) (report_drafts db') \<and>
     prefix (report_artifacts db) (report_artifacts db') \<and> prefix (no_findings_drafts db) (no_findings_drafts db') \<and>
     prefix (no_findings_artifacts db) (no_findings_artifacts db') \<and> prefix (approvals db) (approvals db') \<and>
     chained env (audit db')"
  using reports_history [OF assms(1,2)] findings_store.history_store [OF assms(1)] no_findings_store.history_store [OF assms(1)]
    reports_audit.history_chained [OF assms(1,3)] assms(2)
  by (simp add: reports_inv_def)

section \<open>Reading\<close>

lemma find_in_filter: "find (\<lambda>x. P x \<and> Q x) xs = find Q (filter P xs)"
  by (induction xs) auto

lemma find_artifact_for: "find_artifact rows rid fmt = find (\<lambda>a. ar_format a = fmt) (artifacts_for rows rid)"
  by (simp add: find_artifact_def artifacts_for_def find_in_filter)

lemma report_formats_distinct: "distinct (map fst report_formats)"
  by (simp add: report_formats_def)

text \<open>Each format of a published report has its artifact.\<close>

lemma published_artifact:
  assumes "map ar_format (artifacts_for rows rid) = map fst report_formats" and "a \<in> set (artifacts_for rows rid)"
  shows "find_artifact rows rid (ar_format a) = Some a"
    and "map_of (map (\<lambda>a. (ar_format a, JStr (ar_sha a))) (artifacts_for rows rid)) (ar_format a) = Some (JStr (ar_sha a))"
proof -
  have d: "distinct (map ar_format (artifacts_for rows rid))" unfolding assms(1) by (rule report_formats_distinct)
  show "find_artifact rows rid (ar_format a) = Some a"
    unfolding find_artifact_for using d assms(2) by (rule find_key)
  from d assms(2) show "map_of (map (\<lambda>a. (ar_format a, JStr (ar_sha a))) (artifacts_for rows rid)) (ar_format a) = Some (JStr (ar_sha a))"
    by (intro map_of_is_SomeI) (auto simp: comp_def)
qed

definition read_artifact ::
  "policy_env \<Rightarrow> string \<Rightarrow> string \<Rightarrow> string \<Rightarrow> 'a reports_db_scheme \<Rightarrow> (string \<times> string \<times> string) result" where
  "read_artifact env kind = (if kind = ''findings'' then report_artifact env else no_findings_artifact env)"

lemma read_artifact_ok:
  assumes "uuid_text rid" and "a \<in> set (artifacts_for (snd (kind_tables kind db)) rid)" and "artifact_ok env a"
    and "map ar_format (artifacts_for (snd (kind_tables kind db)) rid) = map fst report_formats"
  shows "read_artifact env kind rid (ar_format a) db = Inr (ar_media a, ar_content a, ar_sha a)"
proof -
  have f: "ar_format a \<in> set (map fst report_formats)" unfolding assms(4) [symmetric] using assms(2) by simp
  have s: "sha256_hex env (ar_content a) = ar_sha a" using assms(3) by (simp add: artifact_ok_def)
  note p = published_artifact(1) [OF assms(4,2)]
  show ?thesis
  proof (cases "kind = ''findings''")
    case True
    with p f s assms(1) show ?thesis
      by (simp add: read_artifact_def report_artifact_def report_identity_def kind_tables_def del: set_map)
  next
    case False
    with p f s assms(1) show ?thesis
      by (simp add: read_artifact_def no_findings_artifact_def no_findings_uuid_def kind_tables_def del: set_map)
  qed
qed

text \<open>
  C36. An approval binds what is read later: after an approval and any later history, reading the
  approval returns its document; for each of the four formats, reading the artifact of the approved report succeeds and
  returns content whose digest is the one that the approval document lists for that format; and a
  second approval of the same report is refused.
\<close>

theorem approved_artifacts_read:
  assumes "(reports_step env)\<^sup>*\<^sup>* db db'" and "reports_inv env db" and "a \<in> set (approvals db)"
    and "(fmt, media) \<in> set report_formats"
  shows "get_approval env (ap_report a) (ap_kind a) db' = Inr (ap_document a) \<and>
     (\<exists>content digests. read_artifact env (ap_kind a) (ap_report a) fmt db' = Inr (media, content, sha256_hex env content) \<and>
        index (ap_document a) ''artifact_digests'' = Inr (JObj digests) \<and>
        map_of digests fmt = Some (JStr (sha256_hex env content))) \<and>
     (\<forall>q now r. aq_kind q = ap_kind a \<longrightarrow> approve env (ap_report a) q now db' \<noteq> Inr r)"
proof -
  have h: "reports_inv env db'" "a \<in> set (approvals db')"
    using reports_history [OF assms(1,2)] assms(3) by (auto simp: prefix_def)
  have ok: "approval_ok env db' a" and key: "distinct (map approval_key (approvals db'))"
    using h by (simp_all add: reports_inv_def list_all_iff)
  have found: "find_approval db' (ap_kind a) (ap_report a) = Some a"
    using find_key [OF key h(2)] by (simp add: find_approval_def approval_key_def)
  let ?arts = "artifacts_for (snd (kind_tables (ap_kind a) db')) (ap_report a)"
  obtain r where r: "r \<in> set (fst (kind_tables (ap_kind a) db'))" "dr_id r = ap_report a"
    using ok by (auto simp: approval_ok_def)
  note d = kind_store.draft_stays [OF rtranclp.rtrancl_refl kind_tables_store [OF h(1)] r(1), unfolded r(2)]
  have f: "map ar_format ?arts = map fst report_formats" using d(2) by (simp add: draft_ok_def)
  have "fmt \<in> set (map ar_format ?arts)" unfolding f using assms(4) by force
  then obtain b where b: "b \<in> set ?arts" "ar_format b = fmt" by auto
  have bok: "artifact_ok env b" using d(3) b(1) by (simp add: list_all_iff)
  have "map_of report_formats fmt = Some media" using assms(4) report_formats_distinct by simp
  with bok b(2) have m: "ar_media b = media" "ar_sha b = sha256_hex env (ar_content b)" by (simp_all add: artifact_ok_def)
  have "read_artifact env (ap_kind a) (ap_report a) fmt db' = Inr (media, ar_content b, sha256_hex env (ar_content b))"
    using read_artifact_ok [OF _ b(1) bok f] ok m b(2) by (simp add: approval_ok_def)
  moreover have "index (ap_document a) ''artifact_digests'' = Inr (JObj (map (\<lambda>a. (ar_format a, JStr (ar_sha a))) ?arts))"
    using ok by (simp add: approval_ok_def digests_json_def)
  moreover have "map_of (map (\<lambda>a. (ar_format a, JStr (ar_sha a))) ?arts) fmt = Some (JStr (sha256_hex env (ar_content b)))"
    using published_artifact(2) [OF f b(1)] b(2) m(2) by simp
  moreover have "get_approval env (ap_report a) (ap_kind a) db' = Inr (ap_document a)"
    using found ok by (simp add: get_approval_def approval_ok_def)
  moreover have "approve env (ap_report a) q now db' \<noteq> Inr r" if "aq_kind q = ap_kind a" for q now r
  proof
    assume "approve env (ap_report a) q now db' = Inr r"
    then have "approve env (ap_report a) q now db' = Inr (fst r, snd r)" by simp
    then show False by (rule approveE) (use found that in simp)
  qed
  ultimately show ?thesis by blast
qed

text \<open>The request that made a draft is recognised as the same request.\<close>

lemma same_report:
  assumes "doc = report_doc rid w q (map finding_ref fs) arts at_time" and "map f_id fs = rq_ids q"
  shows "same_draft conflict ''finding_refs'' ''finding_id'' doc (strip (rq_title q)) (rq_template q) (rq_ids q) = Inr ()"
proof -
  have "traverse (\<lambda>i. index i ''finding_id'') (map finding_ref fs) = Inr (map (JStr \<circ> f_id) fs)"
    by (induction fs) (simp_all add: finding_ref_def)
  moreover have "map (JStr \<circ> f_id) fs = map JStr (rq_ids q)" by (simp flip: assms(2))
  ultimately show ?thesis by (simp add: same_draft_def assms(1) report_doc_def)
qed

lemma inserted_artifacts:
  assumes "foldr_result artifact_insert artifacts (map (artifact_of env rid) rendered) = Inr artifacts'"
    and "store_ok env drafts artifacts" and "rid \<notin> dr_id ` set drafts"
  shows "artifacts_for artifacts' rid = map (artifact_of env rid) rendered"
proof -
  have "ar_report a \<in> dr_id ` set drafts" if "a \<in> set artifacts" for a
    using assms(2) that by (simp add: store_ok_def list_all_iff)
  with assms(3) have "artifacts_for artifacts rid = []" unfolding artifacts_for_def filter_empty_conv by metis
  moreover have "artifacts_for (map (artifact_of env rid) rendered) rid = map (artifact_of env rid) rendered"
    by (rule artifacts_for_own) (simp add: artifact_of_def list_all_iff)
  ultimately show ?thesis using artifact_inserts(1) [OF assms(1)] by (simp add: artifacts_for_append)
qed

lemma report_found_documents:
  assumes "traverse (report_finding db wid) ids = Inr found"
  shows "list_all2 (\<lambda>fid d. \<exists>f \<in> set (findings db). f_id f = fid \<and> f_document f = Some d) ids (map fst found)"
  using assms unfolding traverse_eq_Inr list.rel_map(2)
  by (rule list_all2_mono) (blast elim: report_findingE)

text \<open>
  C38. A report reads back: when a report was created, then after any later history reading it returns
  the document that the creation returned; each artifact reads as the text rendered from the
  documents of the cited findings, with its digest; and the same request with the same key, at any
  valid clock, returns the same document and changes nothing.
\<close>

theorem report_reads_back:
  assumes "create_report env wid q now db = Inr (db', doc)" and "report_drafts db' \<noteq> report_drafts db"
    and "reports_inv env db" and "(reports_step env)\<^sup>*\<^sup>* db' db''" and "uuid_text (new_uuid db)"
    and "report_timestamp now' = Inr t"
  shows "get_report (new_uuid db) db'' = Inr doc \<and> create_report env wid q now' db'' = Inr (db'', doc) \<and>
     (\<exists>w docs rendered. find_workflow db wid = Some w \<and>
        list_all2 (\<lambda>fid d. \<exists>f \<in> set (findings db). f_id f = fid \<and> f_document f = Some d) (rq_ids q) docs \<and>
        render_report_artifacts env (report_payload (strip (rq_title q)) (rq_template q) w docs) = Inr rendered \<and>
        map fst rendered = map fst report_formats \<and>
        list_all (\<lambda>(fmt, content). report_artifact env (new_uuid db) fmt db'' =
           Inr (the (map_of report_formats fmt), content, sha256_hex env content)) rendered)"
  using assms(1)
proof (cases rule: create_reportE)
  case replay
  with assms(2) show ?thesis by simp
next
  case (fresh w found rendered arts r at_time)
  have inv: "reports_inv env db'" using reports_step_inv [OF reports_step.reported [OF assms(1)] assms(3)] by simp
  have r: "r \<in> set (report_drafts db')" "dr_id r \<notin> dr_id ` set (report_drafts db)"
    using fresh(8) by (auto elim: draft_insertE)
  have rid: "dr_id r = new_uuid db" "dr_document r = Some doc" "dr_workflow r = w_id w" "dr_key r = rq_key q"
    by (simp_all add: fresh(7) draft_row_of_def)
  have w: "w_id w = wid" using fresh(2) by (auto simp: find_workflow_def dest!: find_SomeD)
  have st: "store_ok env (report_drafts db) (report_artifacts db)" "store_ok env (report_drafts db') (report_artifacts db')"
    using assms(3) inv by (simp_all add: reports_inv_def)
  note d = findings_store.draft_stays [OF assms(4) st(2) r(1), unfolded rid(1)]
  have store: "store_ok env (report_drafts db'') (report_artifacts db'')" "r \<in> set (report_drafts db'')"
      "artifacts_for (report_artifacts db'') (new_uuid db) = artifacts_for (report_artifacts db') (new_uuid db)"
    using findings_store.history_store [OF assms(4) st(2)] r(1) rid(1) by (force simp: prefix_def)+
  have arts: "artifacts_for (report_artifacts db'') (new_uuid db) = map (artifact_of env (new_uuid db)) rendered"
    using inserted_artifacts [OF fresh(9) [unfolded fresh(5)] st(1)] r(2) store(3) rid(1) by simp
  have get: "get_report (new_uuid db) db'' = Inr doc"
    using d(1) rid(2) assms(5) by (simp add: get_report_def report_identity_def loads_def)
  have "find (\<lambda>r. dr_workflow r = wid \<and> dr_key r = rq_key q) (report_drafts db'') = Some r"
    using find_key [of draft_key "report_drafts db''" r] store(1,2) rid(3,4) w by (simp add: store_ok_def draft_key_def)
  moreover obtain fs where "map f_id fs = rq_ids q" "map snd found = map finding_ref fs"
    using fresh(3) by (rule report_findings_found)
  ultimately have again: "create_report env wid q now' db'' = Inr (db'', doc)"
    using assms(6) fresh(1,6) rid(2) same_report [of doc "new_uuid db" w q fs arts at_time]
    by (simp add: create_report_def loads_def)
  have "report_artifact env (new_uuid db) fmt db'' = Inr (the (map_of report_formats fmt), content, sha256_hex env content)"
    if fc: "(fmt, content) \<in> set rendered" for fmt content
  proof -
    let ?a = "artifact_of env (new_uuid db) (fmt, content)"
    have a: "?a \<in> set (artifacts_for (snd (kind_tables ''findings'' db'')) (new_uuid db))" "artifact_ok env ?a"
      using fc d(3) unfolding kind_tables_def by (simp_all add: arts list_all_iff)
    have "map ar_format (artifacts_for (snd (kind_tables ''findings'' db'')) (new_uuid db)) = map fst report_formats"
      using d(2) by (simp add: draft_ok_def kind_tables_def)
    from read_artifact_ok [OF assms(5) a this] a(2) show ?thesis
      by (auto simp: read_artifact_def artifact_of_def artifact_ok_def split: option.splits)
  qed
  then have "list_all (\<lambda>(fmt, content). report_artifact env (new_uuid db) fmt db'' =
      Inr (the (map_of report_formats fmt), content, sha256_hex env content)) rendered"
    by (auto simp: list_all_iff)
  with get again fresh(2,4) rendered_formats [OF fresh(4)] report_found_documents [OF fresh(3)] show ?thesis by blast
qed

end
