(* ===== verification/Sample_Reports.thy ===== *)
theory Sample_Reports
  imports Sample_Findings Report_Safety
begin

text \<open>
  Concrete reports of both kinds and an approval. Texts are rendered and measured by evaluation in
  the logic; the rest of an operation follows from its equations. They instantiate the hypotheses of the theorems on
  reports.
\<close>

section \<open>Stages of a draft\<close>

definition size_ok :: "int \<Rightarrow> bool" where
  "size_ok n \<longleftrightarrow> 1 \<le> n \<and> n \<le> 2097152"

text \<open>The artifacts of a first report are stored, when their sizes are within the bounds.\<close>

lemma first_artifacts:
  assumes "render_report_artifacts env payload = Inr rendered" and "digest_length env"
    and "list_all (\<lambda>fc. size_ok (utf8_length (snd fc))) rendered"
  shows "foldr_result artifact_insert [] (map (artifact_of env rid) rendered) = Inr (map (artifact_of env rid) rendered)"
    and "\<not> list_ex (\<lambda>a. 2097152 < ar_size a) (map (artifact_of env rid) rendered)"
proof -
  from assms(1) obtain a b c d where r: "rendered = [(''markdown'', a), (''html'', b), (''json'', c), (''pdf'', d)]"
    by (auto simp: render_report_artifacts_def bindr_eq_Inr)
  show "foldr_result artifact_insert [] (map (artifact_of env rid) rendered) = Inr (map (artifact_of env rid) rendered)"
    using assms(2,3) by (simp add: r artifact_insert_def artifact_of_def report_formats_def digest_length_def size_ok_def)
  show "\<not> list_ex (\<lambda>a. 2097152 < ar_size a) (map (artifact_of env rid) rendered)"
    using assms(3) by (simp add: r artifact_of_def size_ok_def)
qed

section \<open>A completed workflow\<close>

definition sample_uuid :: "nat \<Rightarrow> string" where
  "sample_uuid n = (let d = decimal (int n) in ''00000000-0000-4000-8000-'' @ replicate (12 - length d) CHR ''0'' @ d)"

definition report_workflow_id :: string where
  "report_workflow_id = ''44444444-4444-4444-8444-444444444444''"

definition completed_row :: workflow_row where
  "completed_row = sample_workflow\<lparr>w_id := report_workflow_id, w_status := ''completed'', w_finalized := Some ''2026-01-14T18:00:00Z''\<rparr>"

definition sample_reports_db :: reports_db where
  "sample_reports_db = findings_db.extend
     (sample_findings_db\<lparr>uuid4 := sample_uuid, workflows := [completed_row],
        evidence_objects := [\<lparr>eo_id = sample_evidence, eo_workflow = report_workflow_id, eo_policy = ''p1''\<rparr>]\<rparr>)
     (reports_db.fields [] [] [] [] [])"

lemma reports_db_fields [simp]:
  "report_drafts sample_reports_db = []" "report_artifacts sample_reports_db = []" "no_findings_drafts sample_reports_db = []"
  "no_findings_artifacts sample_reports_db = []" "approvals sample_reports_db = []" "findings sample_reports_db = []"
  "finding_versions sample_reports_db = []" "coverages sample_reports_db = []" "audit sample_reports_db = []"
  "find_workflow sample_reports_db report_workflow_id = Some completed_row"
  by (simp_all add: sample_reports_db_def sample_findings_db_def findings_db.defs reports_db.defs coverage_db.defs
      sample_coverage_db_def workflow_db.defs sample_db_def find_workflow_def completed_row_def)

lemma sample_reports_inv: "reports_inv sample_tail_env sample_reports_db"
  by (simp add: reports_inv_def store_ok_def)

section \<open>A finding that is ready\<close>

definition ready_id :: string where
  "ready_id = ''55555555-5555-4555-8555-555555555555''"

definition ready_doc :: "int \<Rightarrow> string \<Rightarrow> string \<Rightarrow> string \<Rightarrow> dict" where
  "ready_doc n state validation dup =
     transition_dict (finding_doc sample_tail_env ready_id completed_row sample_content ''analyst'' ''2026-01-15T00:00:00Z'')
       state n validation dup None ''2026-01-15T00:00:00Z''"

definition ready_version :: "int \<Rightarrow> string \<Rightarrow> string \<Rightarrow> string \<Rightarrow> version_row" where
  "ready_version n state validation dup =
     \<lparr>v_id = sample_uuid (nat n), v_finding = ready_id, v_version = n, v_document = Some (JObj (ready_doc n state validation dup)),
      v_hash = content_hash sample_tail_env (JObj (ready_doc n state validation dup)), v_reason = ''reviewed'',
      v_author_type = ''human'', v_author = ''analyst'', v_created = ''2026-01-15T00:00:00Z''\<rparr>"

definition ready_versions :: "version_row list" where
  "ready_versions = [ready_version 1 ''candidate'' ''unverified'' ''pending'', ready_version 2 ''scope_reviewed'' ''unverified'' ''pending'',
     ready_version 3 ''duplicate_reviewed'' ''unverified'' ''clear'', ready_version 4 ''validated'' ''confirmed'' ''clear'',
     ready_version 5 ''report_ready'' ''confirmed'' ''clear'']"

definition ready_row :: finding_row where
  "ready_row = transition_row sample_tail_env (ready_doc 5 ''report_ready'' ''confirmed'' ''clear'') ''report_ready'' 5 ''confirmed'' ''clear'' None
     ''2026-01-15T00:00:00Z'' (new_finding sample_tail_env ready_id completed_row ''finding-key-00001'' sample_content ''analyst'' ''2026-01-15T00:00:00Z'')"

definition ready_db :: reports_db where
  "ready_db = sample_reports_db\<lparr>findings := [ready_row], finding_versions := ready_versions\<rparr>"

lemma ready_checks: "finding_checks ready_row" "distinct (map v_hash ready_versions)"
  by code_simp+

lemma ready_doc_state:
  "rule_get (JObj (ready_doc n state validation dup)) ''state'' = JStr state"
  "map_of (ready_doc n state validation dup) ''finding_id'' = Some (JStr ready_id)"
  "map_of (ready_doc n state validation dup) ''state'' = Some (JStr state)"
  "map_of (ready_doc n state validation dup) ''version'' = Some (JInt n)"
  "map_of (ready_doc n state validation dup) ''validation_status'' = Some (JStr validation)"
  "map_of (ready_doc n state validation dup) ''duplicate_status'' = Some (JStr dup)"
  by (simp_all add: ready_doc_def transition_dict_def dict_update_lookup rule_get_def dict_get_def finding_doc_def content_dict_def)

lemma sample_contract: "contract_issues sample_tail_env doc name = []"
  by (simp add: contract_issues_def sample_tail_env_def sample_core_env_def)

lemma ready_inv: "findings_inv sample_tail_env ready_db"
proof -
  have v: "version_ok sample_tail_env (ready_version n s a b)" "v_finding (ready_version n s a b) = ready_id"
      "v_version (ready_version n s a b) = n" "v_state (ready_version n s a b) = JStr s" for n s a b
    by (simp_all add: version_ok_def ready_version_def finding_valid_def sample_contract v_state_def ready_doc_state)
  have r: "f_id ready_row = ready_id" "f_version ready_row = 5" "f_state ready_row = ''report_ready''"
      "f_validation ready_row = ''confirmed''" "f_duplicate ready_row = ''clear''"
    by (simp_all add: ready_row_def transition_row_def new_finding_def Let_def)
  have last: "version_of sample_tail_env (ready_version 5 ''report_ready'' ''confirmed'' ''clear'') ready_row
      (ready_doc 5 ''report_ready'' ''confirmed'' ''clear'')"
    by (simp add: version_of_def r) (simp add: ready_version_def ready_row_def transition_row_def ready_doc_state finding_valid_def sample_contract)
  have f: "filter (\<lambda>v. v_finding v = ready_id) ready_versions = ready_versions" by (simp add: ready_versions_def v)
  have "version_chain sample_tail_env ready_versions ready_row"
    unfolding version_chain_def r f Let_def using last
    by (auto simp: ready_versions_def v state_follows_def finding_targets_def upt_rec)
  moreover have "finding_row_ok ready_row" using ready_checks(1) r by (simp add: finding_row_ok_def reviewed_def)
  ultimately show ?thesis using ready_checks(2)
    by (simp add: findings_inv_def ready_db_def) (simp add: ready_versions_def v r)
qed

definition sample_report_request :: report_request where
  "sample_report_request = \<lparr>rq_key = ''report-key-000001'', rq_title = '' Report '', rq_template = ''generic'', rq_ids = [ready_id], rq_actor = ''analyst''\<rparr>"

definition sample_report :: "(reports_db \<times> json) result" where
  "sample_report = create_report sample_tail_env report_workflow_id sample_report_request sample_clock ready_db"



definition sample_payload :: json where
  "sample_payload = report_payload ''Report'' ''generic'' completed_row [JObj (ready_doc 5 ''report_ready'' ''confirmed'' ''clear'')]"

definition sample_markdown :: string where
  "sample_markdown = projr (markdown sample_tail_env sample_payload)"

definition sample_rendered :: "(string \<times> string) list" where
  "sample_rendered = [(''markdown'', sample_markdown), (''html'', html_page ''Report'' sample_markdown),
     (''json'', canonical_json (float_repr sample_tail_env) sample_payload), (''pdf'', pdf sample_markdown)]"

lemma sample_markdown_ok: "markdown sample_tail_env sample_payload = Inr sample_markdown"
proof (rule projr_of [OF _ sample_markdown_def])
  show "\<not> isl (markdown sample_tail_env sample_payload)" by code_simp
qed

lemma sample_render: "render_report_artifacts sample_tail_env sample_payload = Inr sample_rendered"
proof -
  have "field_text sample_tail_env sample_payload ''title'' = Inr ''Report''" by code_simp
  then show ?thesis by (simp add: render_report_artifacts_def sample_markdown_ok sample_rendered_def)
qed

lemma sample_markdown_text [code]: "sample_markdown = join_with newline
    [''# Report'',
     [],
     ''Template: generic'',
     ''Policy bundle: p1'',
     ''Testing period: 2026-01-14T00:00:00Z to 2026-01-14T18:00:00Z'',
     [],
     ''## Findings'',
     [],
     ''### Banner'',
     ''Severity: informational (CVSS 0.5)'',
     ''CWE: CWE-200'',
     [],
     ''#### Reproduction'',
     ''r'',
     [],
     ''#### Impact'',
     ''i'',
     [],
     ''#### Remediation'',
     ''m'',
     [],
     ''## Limitations'',
     ''- Draft only; human approval and export-ready status are not implemented.''] @ newline"
  by code_simp

lemma sample_markdown_size: "size_ok (utf8_length sample_markdown)"
  by code_simp

lemma sample_html_size:
  "size_ok (utf8_length (html_page ''Report'' sample_markdown))"
  by code_simp

lemma sample_json_size:
  "size_ok (utf8_length (canonical_json (float_repr sample_tail_env) sample_payload))"
  by code_simp

lemma sample_pdf_size: "size_ok (utf8_length (pdf sample_markdown))"
  by code_simp

lemma sample_sizes: "list_all (\<lambda>fc. size_ok (utf8_length (snd fc))) sample_rendered"
  using sample_markdown_size sample_html_size sample_json_size sample_pdf_size by (simp add: sample_rendered_def)

lemma sample_report_checks:
  "report_timestamp sample_clock = Inr ''2026-01-15T00:00:00Z''"
  "check_report report_workflow_id sample_report_request = Inr ()"
  "strip (rq_title sample_report_request) = ''Report''" "uuid_text (sample_uuid 0)"
  by code_simp+

lemma ready_db_fields [simp]:
  "report_drafts ready_db = []" "report_artifacts ready_db = []" "no_findings_drafts ready_db = []"
  "no_findings_artifacts ready_db = []" "approvals ready_db = []" "audit ready_db = []"
  "find_workflow ready_db report_workflow_id = Some completed_row" "new_uuid ready_db = sample_uuid 0"
  using reports_db_fields
  by (simp_all add: ready_db_def find_workflow_def new_uuid_def)
    (simp add: sample_reports_db_def sample_findings_db_def findings_db.defs reports_db.defs coverage_db.defs
      sample_coverage_db_def workflow_db.defs sample_db_def)

lemma ready_found:
  "traverse (report_finding ready_db report_workflow_id) (rq_ids sample_report_request) =
     Inr [(JObj (ready_doc 5 ''report_ready'' ''confirmed'' ''clear''), finding_ref ready_row)]"
  by (simp add: sample_report_request_def report_finding_def ready_db_def finding_ref_def)
    (simp add: ready_row_def transition_row_def new_finding_def Let_def loads_def completed_row_def)

lemma sample_report_ok: "\<not> isl sample_report"
proof -
  have q: "rq_template sample_report_request = ''generic''" by (simp add: sample_report_request_def)
  note arts = first_artifacts [OF sample_render tail_digest_length sample_sizes]
  have d: "draft_insert (draft_row_of sample_tail_env rid completed_row sample_report_request refs doc at_time) [] =
      Inr [draft_row_of sample_tail_env rid completed_row sample_report_request refs doc at_time]" for rid refs doc at_time
    using tail_digest_length q
    by (simp add: draft_insert_def draft_row_of_def report_templates_def content_hash_def digest_length_def)
  show ?thesis
    unfolding sample_report_def create_report_def
    by (simp add: Let_def sample_report_checks ready_found q arts d sample_contract sample_render
        append_succeeds [OF tail_digest_length] flip: sample_payload_def)
qed


definition reported_db :: reports_db where
  "reported_db = state_after sample_report ready_db"

definition sample_report_doc :: json where
  "sample_report_doc = reply sample_report JNull"

lemma sample_reported:
  "create_report sample_tail_env report_workflow_id sample_report_request sample_clock ready_db = Inr (reported_db, sample_report_doc)"
  using state_after_reply [OF sample_report_ok, of ready_db JNull]
  by (simp add: reported_db_def sample_report_doc_def sample_report_def)

lemma reported_draft:
  obtains r where "report_drafts reported_db = [r]" and "dr_id r = sample_uuid 0"
  using sample_reported
proof (cases rule: create_reportE)
  case (fresh w found rendered arts r at_time)
  from fresh(8) have "report_drafts reported_db = [r]" by (rule draft_insertE) simp
  moreover have "dr_id r = sample_uuid 0" by (simp add: fresh(7) draft_row_of_def)
  ultimately show thesis by (rule that)
qed simp

lemma reported_adds: "report_drafts reported_db \<noteq> report_drafts ready_db"
  by (rule reported_draft) simp

lemma ready_reports_inv: "reports_inv sample_tail_env ready_db"
  by (simp add: reports_inv_def store_ok_def)

lemma reported_history: "(reports_step sample_tail_env)\<^sup>*\<^sup>* ready_db reported_db"
  using reports_step.reported [OF sample_reported] by blast

lemma reported_inv: "reports_inv sample_tail_env reported_db"
  using reports_history [OF reported_history ready_reports_inv] by simp

theorem report_cites_reviewed_witness:
  "\<exists>fs. map f_id fs = [ready_id] \<and> index sample_report_doc ''finding_refs'' = Inr (JList (map finding_ref fs)) \<and>
     list_all (\<lambda>f. f_state f = ''report_ready'' \<and> f_validation f = ''confirmed'' \<and> f_duplicate f = ''clear'') fs"
proof -
  obtain fs where "map f_id fs = rq_ids sample_report_request"
      "index sample_report_doc ''finding_refs'' = Inr (JList (map finding_ref fs))"
      "list_all (\<lambda>f. f \<in> set (findings ready_db) \<and> f_workflow f = report_workflow_id \<and> f_state f = ''report_ready'' \<and>
        f_validation f = ''confirmed'' \<and> f_duplicate f = ''clear'' \<and>
        (\<exists>d. get_finding sample_tail_env (f_id f) ready_db = Inr (JObj d) \<and> f_hash f = content_hash sample_tail_env (JObj d) \<and>
           map_of d ''version'' = Some (JInt (f_version f)))) fs"
    using report_cites_reviewed [of sample_tail_env sample_pow, OF rtranclp.rtrancl_refl ready_inv sample_reported reported_adds] by blast
  then show ?thesis by (intro exI [of _ fs]) (auto simp: sample_report_request_def list_all_iff)
qed

theorem reports_append_only_witness:
  "reports_inv sample_tail_env reported_db \<and> chained sample_tail_env (audit reported_db) \<and> length (report_drafts reported_db) = 1"
proof -
  have "chained sample_tail_env (audit ready_db)" by simp
  from reports_append_only [OF reported_history ready_reports_inv this]
  have "reports_inv sample_tail_env reported_db \<and> chained sample_tail_env (audit reported_db)" by simp
  moreover have "length (report_drafts reported_db) = 1" by (rule reported_draft) simp
  ultimately show ?thesis by simp
qed

theorem report_reads_back_witness:
  "get_report (sample_uuid 0) reported_db = Inr sample_report_doc \<and>
   create_report sample_tail_env report_workflow_id sample_report_request sample_clock reported_db = Inr (reported_db, sample_report_doc)"
  using report_reads_back [OF sample_reported reported_adds ready_reports_inv rtranclp.rtrancl_refl _ sample_report_checks(1)]
    sample_report_checks(4) by simp

section \<open>An approval\<close>

definition sample_approval :: approval_row where
  "sample_approval = approval_row_of sample_tail_env (sample_uuid 7) ''findings'' (hd (report_drafts reported_db))
     (artifacts_for (report_artifacts reported_db) (sample_uuid 0)) ''accepted'' ''lead'' ''2026-01-15T00:00:00Z''"

definition approved_db :: reports_db where
  "approved_db = reported_db\<lparr>approvals := [sample_approval]\<rparr>"

lemma reported_approvals: "approvals reported_db = []"
  using sample_reported by (cases rule: create_reportE) simp_all

lemma approved_inv: "reports_inv sample_tail_env approved_db"
proof -
  obtain r where r: "report_drafts reported_db = [r]" "dr_id r = sample_uuid 0" by (rule reported_draft)
  have k: "kind_tables ''findings'' approved_db = (report_drafts reported_db, report_artifacts reported_db)"
    by (simp add: kind_tables_def approved_db_def)
  have "approval_ok sample_tail_env approved_db sample_approval"
    using sample_report_checks(4)
    by (simp add: approval_ok_def k sample_approval_def approval_row_of_def Let_def r report_kinds_def approval_valid_def
        sample_contract approval_doc_def)
  with reported_inv show ?thesis by (simp add: reports_inv_def approved_db_def)
qed

theorem approved_artifacts_read_witness:
  "get_approval sample_tail_env (sample_uuid 0) ''findings'' approved_db = Inr (ap_document sample_approval) \<and>
   (\<exists>content digests. report_artifact sample_tail_env (sample_uuid 0) ''pdf'' approved_db =
        Inr (''application/pdf'', content, sha256_hex sample_tail_env content) \<and>
      index (ap_document sample_approval) ''artifact_digests'' = Inr (JObj digests) \<and>
      map_of digests ''pdf'' = Some (JStr (sha256_hex sample_tail_env content)))"
proof -
  obtain r where r: "report_drafts reported_db = [r]" "dr_id r = sample_uuid 0" by (rule reported_draft)
  have a: "sample_approval \<in> set (approvals approved_db)" "ap_report sample_approval = sample_uuid 0" "ap_kind sample_approval = ''findings''"
    by (simp_all add: approved_db_def sample_approval_def approval_row_of_def Let_def r)
  have "(''pdf'', ''application/pdf'') \<in> set report_formats" by (simp add: report_formats_def)
  from approved_artifacts_read [OF rtranclp.rtrancl_refl approved_inv a(1) this] show ?thesis
    unfolding a(2,3) read_artifact_def by simp
qed

section \<open>A report of no findings\<close>

definition sample_coverage_request :: coverage_request where
  "sample_coverage_request = sample_request 3600000000"

definition nf_recording :: "(reports_db \<times> json) result" where
  "nf_recording = record_coverage sample_core_env report_workflow_id sample_coverage_request sample_clock sample_reports_db"

definition nf_db :: reports_db where
  "nf_db = state_after nf_recording sample_reports_db"

lemma nf_recording_ok: "\<not> isl nf_recording"
  by code_simp

lemma nf_recorded:
  "record_coverage sample_core_env report_workflow_id sample_coverage_request sample_clock sample_reports_db = Inr (nf_db, reply nf_recording JNull)"
  using state_after_reply [OF nf_recording_ok, of sample_reports_db JNull] by (simp add: nf_db_def nf_recording_def)

lemma nf_history: "(coverage_step sample_core_env)\<^sup>*\<^sup>* sample_reports_db nf_db"
  using coverage_step.recorded [OF nf_recorded] by blast

lemma nf_start_inv: "coverage_inv sample_core_env sample_reports_db"
  by (simp add: coverage_inv_def)

definition nf_request :: report_request where
  "nf_request = \<lparr>rq_key = ''report-key-000001'', rq_title = '' Report '', rq_template = ''generic'', rq_ids = [sample_uuid 0], rq_actor = ''analyst''\<rparr>"

definition nf_basis :: "workflow_row \<times> json list \<times> json list \<times> json list" where
  "nf_basis = projr (no_findings_basis sample_core_env report_workflow_id nf_request nf_db)"

lemma nf_basis_ok: "no_findings_basis sample_core_env report_workflow_id nf_request nf_db = Inr nf_basis"
proof (rule projr_of [OF _ nf_basis_def])
  show "\<not> isl (no_findings_basis sample_core_env report_workflow_id nf_request nf_db)" by code_simp
qed

definition nf_payload :: json where
  "nf_payload = (case nf_basis of (w, refs, items, limitations) \<Rightarrow> no_findings_payload nf_request w items limitations)"

definition nf_markdown :: string where
  "nf_markdown = projr (markdown sample_core_env nf_payload)"

definition nf_rendered :: "(string \<times> string) list" where
  "nf_rendered = [(''markdown'', nf_markdown), (''html'', html_page ''Report'' nf_markdown),
     (''json'', canonical_json (float_repr sample_core_env) nf_payload), (''pdf'', pdf nf_markdown)]"

text \<open>The payload and the text, computed once.\<close>

lemma nf_payload_json [code]: "nf_payload = JObj
  [(''report_kind'', JStr ''no_findings''), (''title'', JStr ''Report''), (''template'', JStr ''generic''),
   (''engagement_id'', JStr ''e1''), (''policy_bundle_id'', JStr ''p1''),
   (''testing_period'', JObj [(''started_at'', JStr ''2026-01-14T00:00:00Z''), (''ended_at'', JStr ''2026-01-14T18:00:00Z'')]),
   (''statement'', JStr ''No findings were identified within the documented coverage.''),
   (''coverage'', JList [JObj
      [(''asset_rule_id'', JStr sample_asset_rule), (''capability_rule_id'', JStr sample_capability_rule),
       (''capability'', JStr ''http.request''),
       (''testing_period'', JObj [(''started_at'', JStr ''2026-01-14T12:00:00Z''), (''ended_at'', JStr ''2026-01-14T13:00:00Z'')]),
       (''evidence_ids'', JList [JStr sample_evidence]), (''limitations'', JList [JStr ''unauthenticated only''])]]),
   (''limitations'', JList [JStr ''unauthenticated only'']), (''findings'', JList [])]"
  by code_simp

lemma nf_markdown_text [code]: "nf_markdown = join_with newline
    [''# Report'',
     [],
     ''Template: generic'',
     ''Policy bundle: p1'',
     ''Testing period: 2026-01-14T00:00:00Z to 2026-01-14T18:00:00Z'',
     [],
     ''## Result'',
     [],
     ''No findings were identified within the documented coverage.'',
     [],
     ''## Coverage'',
     [],
     ''- Asset rule: 11111111-1111-4111-8111-111111111111'',
     ''  Capability: http.request (22222222-2222-4222-8222-222222222222)'',
     ''  Testing period: 2026-01-14T12:00:00Z to 2026-01-14T13:00:00Z'',
     ''  Evidence: 33333333-3333-4333-8333-333333333333'',
     [],
     ''## Limitations'',
     ''- unauthenticated only''] @ newline"
  by code_simp

lemma nf_markdown_ok: "markdown sample_core_env nf_payload = Inr nf_markdown"
proof (rule projr_of [OF _ nf_markdown_def])
  show "\<not> isl (markdown sample_core_env nf_payload)" by code_simp
qed

lemma nf_render: "render_report_artifacts sample_core_env nf_payload = Inr nf_rendered"
proof -
  have "field_text sample_core_env nf_payload ''title'' = Inr ''Report''" by code_simp
  then show ?thesis by (simp add: render_report_artifacts_def nf_markdown_ok nf_rendered_def)
qed

lemma nf_markdown_size: "size_ok (utf8_length nf_markdown)"
  by code_simp

lemma nf_html_size: "size_ok (utf8_length (html_page ''Report'' nf_markdown))"
  by code_simp

lemma nf_json_size:
  "size_ok (utf8_length (canonical_json (float_repr sample_core_env) nf_payload))"
  by code_simp

lemma nf_pdf_size: "size_ok (utf8_length (pdf nf_markdown))"
  by code_simp

lemma nf_sizes: "list_all (\<lambda>fc. size_ok (utf8_length (snd fc))) nf_rendered"
  using nf_markdown_size nf_html_size nf_json_size nf_pdf_size by (simp add: nf_rendered_def)

lemma nf_checks:
  "no_findings_timestamp sample_clock = Inr ''2026-01-15T00:00:00Z''" "check_no_findings report_workflow_id nf_request = Inr ()"
  by code_simp+

text \<open>The two events of the log have different hashes: their actions begin differently.\<close>

lemma report_event_hash:
  "content_hash sample_core_env (event_payload i t aty ac (CHR ''r'' # action) sty sj data prev) ! 11 = CHR ''r''"
proof -
  have e: "json_string ''action'' = CHR 0x22 # ''action'' @ [CHR 0x22]" "escape_char CHR ''r'' = ''r''"
    by code_simp+
  show ?thesis
    by (simp add: event_payload_def content_hash_def sample_core_env_def sample_digest_def less_list_code less_char_def json_member_def e)
      (simp add: json_string_def e)
qed

lemma coverage_event_hash:
  "content_hash sample_core_env (event_payload i t aty ac (CHR ''c'' # action) sty sj data prev) ! 11 = CHR ''c''"
proof -
  have e: "json_string ''action'' = CHR 0x22 # ''action'' @ [CHR 0x22]" "escape_char CHR ''c'' = ''c''"
    by code_simp+
  show ?thesis
    by (simp add: event_payload_def content_hash_def sample_core_env_def sample_digest_def less_list_code less_char_def json_member_def e)
      (simp add: json_string_def e)
qed

lemma nf_events: "list_all (\<lambda>e. ev_hash e ! 11 = CHR ''c'' \<and> ev_id e = sample_uuid 1) (audit nf_db)" "drawn nf_db = 2"
  "sample_uuid 1 \<noteq> sample_uuid 3"
proof -
  have "list_all (\<lambda>e. ev_hash e ! 11 = CHR ''c'' \<and> ev_id e = sample_uuid 1) (audit nf_db) \<and> drawn nf_db = 2"
    using nf_recorded
  proof (cases rule: record_coverageE)
    case (fresh i w policy r)
    have "uuid4 sample_reports_db = sample_uuid" "drawn sample_reports_db = 0"
      by (simp_all add: sample_reports_db_def findings_db.defs reports_db.defs sample_findings_db_def coverage_db.defs
          sample_coverage_db_def workflow_db.defs sample_db_def)
    then show ?thesis
      by (simp add: fresh(10) with_coverage_def Let_def draw_def audit_event_def new_uuid_def coverage_event_def event_args_def
          coverage_event_hash)
  qed simp
  moreover have "sample_uuid 1 \<noteq> sample_uuid 3" by code_simp
  ultimately show "list_all (\<lambda>e. ev_hash e ! 11 = CHR ''c'' \<and> ev_id e = sample_uuid 1) (audit nf_db)" "drawn nf_db = 2"
      "sample_uuid 1 \<noteq> sample_uuid 3" by simp_all
qed

lemma nf_tables: "no_findings_drafts nf_db = []" "no_findings_artifacts nf_db = []" "uuid4 nf_db = sample_uuid"
  "bundles nf_db = bundles sample_reports_db"
proof -
  have "no_findings_drafts nf_db = [] \<and> no_findings_artifacts nf_db = [] \<and> uuid4 nf_db = sample_uuid \<and>
      bundles nf_db = bundles sample_reports_db"
    using nf_recorded
  proof (cases rule: record_coverageE)
    case (fresh i w policy r)
    have "uuid4 sample_reports_db = sample_uuid"
      by (simp add: sample_reports_db_def findings_db.defs reports_db.defs)
    then show ?thesis by (simp add: fresh(10) with_coverage_def Let_def draw_def)
  qed simp
  then show "no_findings_drafts nf_db = []" "no_findings_artifacts nf_db = []" "uuid4 nf_db = sample_uuid"
      "bundles nf_db = bundles sample_reports_db" by simp_all
qed

lemma core_contract: "contract_issues sample_core_env doc name = []"
  by (simp add: contract_issues_def sample_core_env_def)

definition nf_report :: "(reports_db \<times> json) result" where
  "nf_report = create_no_findings sample_core_env report_workflow_id nf_request sample_clock nf_db"

lemma nf_report_ok: "\<not> isl nf_report"
proof -
  obtain w refs items limitations where b: "nf_basis = (w, refs, items, limitations)" by (cases nf_basis)
  have q: "rq_template nf_request = ''generic''" by (simp add: nf_request_def)
  have p: "nf_payload = no_findings_payload nf_request w items limitations" by (simp add: nf_payload_def b)
  note arts = first_artifacts [OF nf_render sample_digest_length nf_sizes]
  have d: "draft_insert (draft_row_of sample_core_env rid v nf_request refs doc at_time) [] =
      Inr [draft_row_of sample_core_env rid v nf_request refs doc at_time]" for rid v refs doc at_time
    using sample_digest_length q
    by (simp add: draft_insert_def draft_row_of_def report_templates_def content_hash_def digest_length_def)
  have log: "append_audit_event sample_core_env (draft_event ''report.no_findings_draft_created'' f r as)
      ((draw nf_db)\<lparr>no_findings_drafts := ds, no_findings_artifacts := rs\<rparr>) =
      Inr ((draw ((draw nf_db)\<lparr>no_findings_drafts := ds, no_findings_artifacts := rs\<rparr>))
             \<lparr>audit := audit nf_db @ [audit_event sample_core_env (draft_event ''report.no_findings_draft_created'' f r as)
                ((draw nf_db)\<lparr>no_findings_drafts := ds, no_findings_artifacts := rs\<rparr>)]\<rparr>,
           audit_event sample_core_env (draft_event ''report.no_findings_draft_created'' f r as)
             ((draw nf_db)\<lparr>no_findings_drafts := ds, no_findings_artifacts := rs\<rparr>))" (is "append_audit_event _ ?a ?db = _") for f r as ds rs
  proof -
    have u: "new_uuid ?db = sample_uuid 3" by (simp add: new_uuid_def draw_def nf_tables nf_events(2) eval_nat_numeral)
    have h: "ev_hash (audit_event sample_core_env ?a ?db) ! 11 = CHR ''r''"
      by (simp add: audit_event_def draft_event_def event_args_def report_event_hash)
    have "list_all (\<lambda>e. ev_id e \<noteq> new_uuid ?db \<and> ev_hash e \<noteq> ev_hash (audit_event sample_core_env ?a ?db)) (audit ?db)"
      using nf_events(1,3) h unfolding u by (auto simp: list_all_iff)
    from append_succeeds [OF sample_digest_length this] show ?thesis by simp
  qed
  show ?thesis
    unfolding nf_report_def create_no_findings_def
    by (simp add: Let_def nf_checks nf_tables nf_basis_ok b nf_render [unfolded p] arts d log no_findings_valid_def core_contract)
qed

theorem no_findings_complete_witness:
  "\<exists>rows. map cv_id rows = [sample_uuid 0] \<and> coverage_pair ` set rows = {pair. in_scope_pair sample_bundle_policy pair} \<and>
     list_all (\<lambda>r. cv_outcome r = ''tested_no_findings'') rows"
proof -
  have c: "create_no_findings sample_core_env report_workflow_id nf_request sample_clock nf_db =
      Inr (state_after nf_report nf_db, reply nf_report JNull)"
    using state_after_reply [OF nf_report_ok, of nf_db JNull] by (simp add: nf_report_def)
  have n: "no_findings_drafts (state_after nf_report nf_db) \<noteq> no_findings_drafts nf_db"
    using c
  proof (cases rule: create_no_findingsE)
    case (fresh w refs items limitations rendered arts r at_time)
    from fresh(7) show ?thesis by (rule draft_insertE) simp
  qed (simp add: nf_tables)
  have p: "x \<in> set (bundles nf_db) \<Longrightarrow> b_policy x = Some policy \<Longrightarrow> policy = sample_bundle_policy" for x policy
    by (auto simp: nf_tables(4) sample_reports_db_def sample_findings_db_def findings_db.defs reports_db.defs coverage_db.defs
        sample_coverage_db_def workflow_db.defs)
  have q: "rq_ids nf_request = [sample_uuid 0]" by (simp add: nf_request_def)
  from no_findings_complete [OF nf_history nf_start_inv c n] show ?thesis
  proof (elim exE conjE)
    fix w x policy rows
    assume r: "x \<in> set (bundles nf_db)" "b_policy x = Some policy" "map cv_id rows = rq_ids nf_request"
      "coverage_pair ` set rows = {pair. in_scope_pair policy pair}"
    assume "list_all (\<lambda>r. r \<in> set (coverages nf_db) \<and> cv_workflow r = report_workflow_id \<and> cv_outcome r = ''tested_no_findings'' \<and>
        list_all (\<lambda>p. cv_workflow p = report_workflow_id \<longrightarrow> coverage_pair p = coverage_pair r \<longrightarrow> cv_at p \<le> cv_at r) (coverages nf_db) \<and>
        (\<exists>xs. elements (cv_evidence r) = Inr xs \<and> xs \<noteq> [] \<and>
           list_all (\<lambda>x. \<exists>e. x = JStr e \<and> available_evidence nf_db report_workflow_id (w_policy w) e) xs)) rows"
    then have "list_all (\<lambda>r. cv_outcome r = ''tested_no_findings'') rows" by (simp add: list_all_iff)
    with r p [OF r(1,2)] q show ?thesis by (intro exI [of _ rows]) simp
  qed
qed

text \<open>
  Two records of the same pair: one of 13:00:00 without findings, one half a second later with a
  finding.
\<close>

definition sample_record :: "string \<Rightarrow> string \<Rightarrow> int \<Rightarrow> coverage_row" where
  "sample_record ident outcome recorded =
     coverage_row_of sample_core_env ident completed_row (sample_coverage_request\<lparr>q_outcome := outcome\<rparr>)
       \<lparr>ci_recorded = recorded, ci_started = 63903988800000000, ci_ended = 63903992400000000,
        ci_limitations = [''unauthenticated only''], ci_notes = ''No findings.''\<rparr>"

definition early_record :: coverage_row where
  "early_record = sample_record ''c1'' ''tested_no_findings'' 63903992400000000"

definition late_record :: coverage_row where
  "late_record = sample_record ''c2'' ''finding_identified'' (63903992400000000 + 500000)"

theorem stale_coverage_accepted_witness:
  "selected_coverage sample_core_env (sort_key cv_at [early_record, late_record]) [''c1''] [coverage_pair early_record] = Inr [early_record] \<and>
   selected_coverage sample_core_env (sort_key cv_at [early_record, late_record]) [''c2''] [coverage_pair late_record] =
     Inl (no_findings_error ''NO_FINDINGS_COVERAGE_STALE'')"
proof -
  have r: "coverage_pair early_record = coverage_pair late_record" "cv_id early_record = ''c1''" "cv_id late_record = ''c2''"
      "cv_at early_record = timestamp 63903992400000000" "cv_at late_record = timestamp (63903992400000000 + 500000)"
      "content_hash sample_core_env (cv_document early_record) = cv_hash early_record"
      "get (cv_document early_record) ''outcome'' JNull = Inr (JStr ''tested_no_findings'')"
    by (simp_all only: early_record_def late_record_def sample_record_def)
      (simp_all add: coverage_pair_def coverage_row_of_def coverage_doc_def requested_def)
  show ?thesis
    using stale_coverage_accepted [OF r(1) _ r(4,5) _ _ _ r(6,7)] r(2,3) by simp
qed

end
