(* ===== verification/Spec2Isabelle.thy ===== *)
theory Spec2Isabelle
  imports Sample_Engagement Sample_Budget Sample_Reports
begin

text \<open>
  PentAI runs supervised penetration tests. A program's terms are turned into a policy, every action is
  decided by that policy, the work is done in workflows of leased tasks, what was tested and found
  is recorded, reviewed and reported, and every change of state is an event of a hash-chained audit log.
  This development models that path in Python as it is written and proves what makes it safe.

  \<^bold>\<open>The parts and their theories\<close>

  \<^item> \<open>packages/policy\<close>, the policy core. \<open>Canonicalize\<close> models \<open>canonicalize.py\<close> (domains, addresses,
    ports, paths, URLs), with \<open>Ip_Address\<close> for the part of \<open>ipaddress\<close> that it uses. \<open>Document\<close> models
    \<open>document.py\<close>: the validation of a manifest, block by block. \<open>Compiler\<close> models \<open>compiler.py\<close>,
    from a manifest to the rules of a policy. \<open>Evaluator\<close> models \<open>evaluator.py\<close>: matching, testing schedules and
    the decision on a request. \<open>Policy_Flow\<close> composes them: what a decision under a compiled policy says
    about the manifest.
  \<^item> \<open>services/core\<close>, over one database. \<open>Audit_Log\<close> models \<open>audit.py\<close> and the verification of the chain in
    \<open>authorization.py\<close>. \<open>Workflow\<close> models \<open>workflow.py\<close>: workflows, tasks, leases, checkpoints, receipts and
    start-up recovery; \<open>Tables\<close> has the generic theory of tables whose rows carry versions, and
    \<open>Workflow_Safety\<close> the results. \<open>Coverage\<close> models \<open>coverage.py\<close>, \<open>Findings\<close> models \<open>findings.py\<close>
    with its CVSS score in \<open>Cvss\<close>, \<open>Report_Render\<close> and \<open>Reports\<close> model \<open>reports.py\<close>,
    \<open>no_findings_reports.py\<close> and \<open>report_approvals.py\<close>, and \<open>Report_Safety\<close> has the results on them.
  \<^item> The budget of model calls: \<open>Provider_Config\<close> models \<open>ai_provider_config.py\<close>, \<open>Ai_Budget\<close> models
    \<open>ai_budget.py\<close>.
  \<^item> \<open>Prelude\<close>, \<open>Json\<close> and \<open>Datetime\<close> have what the code uses of Python: exceptions, strings, JSON
    values with the equality and the canonical form of Python, aware and naive times.
  \<^item> The theories \<open>Sample_Engagement\<close>, \<open>Sample_Workflow\<close>, \<open>Sample_Budget\<close>, \<open>Sample_Coverage\<close>,
    \<open>Sample_Findings\<close> and \<open>Sample_Reports\<close> hold concrete manifests, requests and databases on which
    the operations are computed in the logic; they show that the hypotheses of the results can hold.

  \<^bold>\<open>How the model corresponds to the code\<close>

  A function of the code is a function of the model with the same branches in the same order; a raise is
  a value of \<open>exn\<close> in the result type \<open>exn + 'a\<close>, with \<open>bindr\<close> and \<open>guardr\<close> for sequence and early
  raise. A \<open>CodedError\<close> carries the class and the code of the error. A table is a list of rows, a row is a
  record with the columns of its migration, an INSERT checks the keys and CHECK constraints that it can violate, and a
  trigger is a predicate that updates must satisfy, with the transitions that the migration lists, which are
  written out apart from the transition tables of the Python code. The records of the databases extend one another
  (\<open>core_db\<close>, \<open>workflow_db\<close>, \<open>coverage_db\<close>, \<open>findings_db\<close>, \<open>reports_db\<close>), so each service is
  polymorphic in the tables that it does not know. A transaction commits as a whole: an operation returns
  the new database, and a raise returns none. Identifiers come from a stream of the database, whose
  values are arbitrary; the clock and the lease token are arguments.

  Parameters stand for code that is not in the repository: the digest (\<open>sha256_hex\<close>, \<open>uuid5\<close>), the
  jsonschema validator (\<open>iter_errors\<close>), the idna package, the time zone database, the text and the
  product of floating-point numbers, and the power function of the C library. Hypotheses about them are named where
  they are used: \<open>digest_length\<close> (a digest has 64 characters), \<open>collision_free\<close> (no two of the given events
  share a hash), \<open>record_contract\<close> and \<open>budgets_contract\<close> (amounts and budgets that the validator accepts are
  not negative, a reservation is in one of its three states), and that a document which the validator
  accepts has the members that the code reads. Numbers that the validator accepts as integers may be floats.
  Nothing is assumed of the power function. Text is restricted to code points up to U+00FF.

  Every function of the model is total. Loops over data are structural recursion or folds; where the
  recursion is not structural the measure is the length of the remaining text. No definition uses fuel.

  \<^bold>\<open>What the results say\<close>

  \<^item> Policy core: canonical paths are fixed points without dot segments; a valid manifest has canonical,
    unique, owned assets and disjoint techniques; an allow decision implies an active, unrevoked and
    intact policy, an open window and a most specific rule that allows; deny wins among the most specific
    rules and is the default; a decision to allow under a compiled policy is authorized by its manifest, in
    which an asset covers the target by its URL, domain, address or network (\<open>asset_covers\<close>, stated of the
    manifest and not of the rules).
  \<^item> Audit log: the verifier accepts exactly the chained logs; two accepted logs of the same length and head
    are equal unless a digest collides. Every service is an instance of the locale
    \<open>audited_service\<close>, which gives that histories only append and stay chained.
  \<^item> Workflows: an inductive step relation with all operations and steps of other services; its histories
    keep the invariant of the tables and refine the transitions that the triggers permit (locale \<open>versioned_table\<close>,
    shared with the findings, which extends \<open>keyed_table\<close>, shared with the ledger); a claim is exclusive, settling needs the lease, a repeated settlement
    returns its receipt, only humans start work, and recovery leaves nothing running.
  \<^item> Budgets: on every history the counters equal what is reserved and committed and never exceed the
    configured limits; a settled reservation never changes; recovery restores the invariant from any records.
    Versions are ints or doubles as in Python, with the rounding of \<open>Cvss\<close>; they never decrease, but a
    version that is a large float no longer advances.
  \<^item> Coverage, findings, reports: records are append-only and rest on permitted rules and available
    evidence; the versions of a finding are a run of its state machine, and what is validated or reported has
    been confirmed and is no duplicate; a report cites such findings only; a report of no findings covers
    exactly the scope of its policy; both kinds of report meet the locale \<open>report_store\<close>, so what was published
    and approved reads back unchanged. The CVSS score is computed in double precision and stays in range.
  \<^item> Limits that the code has are results as well: in any compiled policy an allow of a URL outranks
    the denied path of a domain; an interval within a second is refused by the database, and a later coverage record within
    the same second loses against an earlier one, because times are compared as text; cutting a line
    can spoil a string of the PDF.

  \<^bold>\<open>What is not modelled\<close>

  The rest of \<open>authorization.py\<close> (engagements, activation, capability requests) and the orchestration
  contracts, which repeat the patterns modelled here over further tables: the next steps of this
  development. The evidence service, backups and exports to files, the gateway and worker runtimes, the
  network probes and DNS, which act on the file system, containers and sockets and have no state of
  their own beyond records; signatures, settings, HTTP routes and migrations. The tables that
  modelled services read from these parts are part of the database of the model.
\<close>

end
